theory Spec2Isabelle
  imports Main "HOL-Library.AList"
begin

section \<open>JavaScript values\<close>

text \<open>
  Untyped JavaScript data (parsed JSON, OpenAPI objects, metadata objects, raw request
  values). An object is an association list in insertion order with distinct keys.
  Numbers are integers here; no property below depends on fractions.
\<close>

datatype json =
    JUndefined
  | JNull
  | JBool bool
  | JNum int
  | JStr string
  | JArr "json list"
  | JObj "(string \<times> json) list"

type_synonym obj = "(string \<times> json) list"

text \<open>
  Property access \<open>obj[key]\<close>: a missing key reads as \<open>undefined\<close>. An object is read by its
  own keys only: the properties every JavaScript object inherits (\<open>constructor\<close>, \<open>toString\<close>
  and the like) are not modelled, so a key of such a name that the object does not own
  reads as \<open>undefined\<close> here and as the inherited function in JavaScript.
\<close>

definition getProp :: "obj \<Rightarrow> string \<Rightarrow> json" where
  "getProp object k = (case map_of object k of None \<Rightarrow> JUndefined | Some v \<Rightarrow> v)"

fun jsonProp :: "json \<Rightarrow> string \<Rightarrow> json" where
  "jsonProp (JObj kvs) k = getProp kvs k"
| "jsonProp v k = JUndefined"

text \<open>The own properties of a value that is spread (\<open>{...v}\<close>); nothing for a non-object.\<close>

fun entries :: "json \<Rightarrow> obj" where
  "entries (JObj kvs) = kvs"
| "entries v = []"

fun elements :: "json \<Rightarrow> json list" where
  "elements (JArr xs) = xs"
| "elements v = []"

fun truthy :: "json \<Rightarrow> bool" where
  "truthy JUndefined = False"
| "truthy JNull = False"
| "truthy (JBool b) = b"
| "truthy (JNum n) = (n \<noteq> 0)"
| "truthy (JStr s) = (s \<noteq> [])"
| "truthy (JArr xs) = True"
| "truthy (JObj kvs) = True"

fun typeof :: "json \<Rightarrow> string" where
  "typeof JUndefined = ''undefined''"
| "typeof JNull = ''object''"
| "typeof (JBool b) = ''boolean''"
| "typeof (JNum n) = ''number''"
| "typeof (JStr s) = ''string''"
| "typeof (JArr xs) = ''object''"
| "typeof (JObj kvs) = ''object''"

text \<open>\<open>a ?? b\<close>.\<close>

definition nullish :: "json \<Rightarrow> json \<Rightarrow> json" where
  "nullish a b = (if a = JUndefined \<or> a = JNull then b else a)"

text \<open>
  \<open>{...a, ...b}\<close>: the keys of \<open>a\<close> keep their places and take the values of \<open>b\<close>, the new
  keys of \<open>b\<close> follow. \<open>Object.fromEntries\<close> builds an object the same way.
\<close>

definition spread :: "obj \<Rightarrow> obj \<Rightarrow> obj" where
  "spread a b = foldl (\<lambda>acc (k, v). AList.update k v acc) a b"

definition fromEntries :: "(string \<times> json) list \<Rightarrow> obj" where
  "fromEntries kvs = spread [] kvs"

text \<open>Interpolation in a template string.\<close>

fun digits :: "nat \<Rightarrow> string" where
  "digits n = (if n < 10 then [char_of (48 + n)] else digits (n div 10) @ [char_of (48 + n mod 10)])"

fun toStr :: "json \<Rightarrow> string" where
  "toStr (JStr s) = s"
| "toStr JUndefined = ''undefined''"
| "toStr JNull = ''null''"
| "toStr (JBool b) = (if b then ''true'' else ''false'')"
| "toStr (JNum n) = (if n < 0 then ''-'' @ digits (nat (- n)) else digits (nat n))"
| "toStr (JArr xs) = ''[array]''"
| "toStr (JObj kvs) = ''[object Object]''"

text \<open>\<open>String.prototype.toLowerCase\<close> and \<open>toUpperCase\<close> on ASCII letters.\<close>

definition toLowerCase_char :: "char \<Rightarrow> char" where
  "toLowerCase_char c =
     (case map_of (zip ''ABCDEFGHIJKLMNOPQRSTUVWXYZ'' ''abcdefghijklmnopqrstuvwxyz'') c of
        Some l \<Rightarrow> l
      | None \<Rightarrow> c)"

definition toLowerCase :: "string \<Rightarrow> string" where
  "toLowerCase s = map toLowerCase_char s"

definition toUpperCase_char :: "char \<Rightarrow> char" where
  "toUpperCase_char c =
     (case map_of (zip ''abcdefghijklmnopqrstuvwxyz'' ''ABCDEFGHIJKLMNOPQRSTUVWXYZ'') c of
        Some u \<Rightarrow> u
      | None \<Rightarrow> c)"

definition toUpperCase :: "string \<Rightarrow> string" where
  "toUpperCase s = map toUpperCase_char s"

section \<open>Helpers of lib/lodash.ts\<close>

text \<open>
  Modelled from the spec: lib/lodash.ts is not among the sources. \<open>compact\<close>, \<open>isNil\<close>,
  \<open>omit\<close> and \<open>omitBy\<close> are the lodash functions of these names; \<open>objectEquals\<close> is the
  structural (not identity) equality the specification names for the inheritance diff:
  two objects are equal when they have the same keys and equal values under each key, in
  whatever order the keys were inserted; two arrays when they have the same length and
  equal elements at each index; other values when they are the same value.
\<close>

definition isNil :: "json \<Rightarrow> bool" where
  "isNil v = (v = JUndefined \<or> v = JNull)"

definition compact :: "json list \<Rightarrow> json list" where
  "compact xs = filter truthy xs"

definition omit :: "obj \<Rightarrow> string list \<Rightarrow> obj" where
  "omit object ks = filter (\<lambda>(k, v). k \<notin> set ks) object"

definition omitBy :: "obj \<Rightarrow> (json \<Rightarrow> bool) \<Rightarrow> obj" where
  "omitBy object p = filter (\<lambda>(k, v). \<not> p v) object"

fun objectEquals :: "json \<Rightarrow> json \<Rightarrow> bool" where
  "objectEquals (JObj a) (JObj b) =
     (list_all (\<lambda>(k, v). case map_of b k of Some w \<Rightarrow> objectEquals v w | None \<Rightarrow> False) a \<and>
      list_all (\<lambda>(k, w). map_of a k \<noteq> None) b)"
| "objectEquals (JArr xs) (JArr ys) = list_all2 objectEquals xs ys"
| "objectEquals x y = (x = y)"

text \<open>\<open>mapValues\<close> with a callback that may throw: the first exception ends the loop.\<close>

fun mapValuesE :: "('a \<Rightarrow> 'e + json) \<Rightarrow> (string \<times> 'a) list \<Rightarrow> 'e + obj" where
  "mapValuesE f [] = Inr []"
| "mapValuesE f ((k, v) # rest) =
     (case f v of
        Inl e \<Rightarrow> Inl e
      | Inr w \<Rightarrow> (case mapValuesE f rest of Inl e \<Rightarrow> Inl e | Inr ws \<Rightarrow> Inr ((k, w) # ws)))"

section \<open>Validation schemas (zod.ts)\<close>

text \<open>
  A schema is its \<open>_def\<close>: the class of the schema with its children, the \<open>openapi\<close>
  metadata object that zod.ts adds to every \<open>ZodTypeDef\<close>, and the description.
  A number schema carries the values of its getters \<open>isInt\<close>, \<open>minValue\<close>, \<open>maxValue\<close>;
  an array schema its \<open>minLength\<close> and \<open>maxLength\<close> values.
  \<open>ZodOther\<close> stands for every schema class that the repository never inspects
  (ZodDate, ZodAny, ZodBigInt, ...), by its type name.
\<close>

datatype effect_type = Refinement | Transform | Preprocess

datatype unknown_keys = Passthrough | Strict | Strip

datatype string_check = Uuid | Email | Url | Regex string | OtherCheck string

datatype zod = Zod (zdef: zod_def) (openapi: "obj option") (description: "string option")
and zod_def =
    ZodNull
  | ZodString "string_check list"
  | ZodNumber bool "int option" "int option"
  | ZodBoolean
  | ZodDefault zod json
  | ZodEffects effect_type zod
  | ZodLiteral json
  | ZodEnum "string list"
  | ZodNativeEnum "(string \<times> json) list"
  | ZodObject "(string \<times> zod) list" unknown_keys
  | ZodArray zod "int option" "int option"
  | ZodUnion "zod list"
  | ZodDiscriminatedUnion string "zod list"
  | ZodIntersection zod zod
  | ZodRecord zod
  | ZodUnknown
  | ZodOptional zod
  | ZodNullable zod
  | ZodOther string

text \<open>
  The validation library is a black box: \<open>schema.safeParse(value)\<close> is a parameter of
  everything that validates, returning the list of issues (\<open>Inl\<close>) or the parsed data.
  The library defines \<open>isOptional()\<close> as \<open>safeParse(undefined).success\<close> and
  \<open>isNullable()\<close> as \<open>safeParse(null).success\<close>.
\<close>

type_synonym zod_error = "json list"

type_synonym safe_parse = "zod \<Rightarrow> json \<Rightarrow> zod_error + json"

text \<open>
  \<open>zodSchema._unknownKeys\<close>, as the generator reads it under \<open>@ts-ignore\<close>: an object schema of
  the library keeps its option under \<open>_def.unknownKeys\<close> and has no property
  \<open>_unknownKeys\<close>, so the read is undefined whatever the option.
\<close>

definition unknownKeys_property :: "unknown_keys \<Rightarrow> unknown_keys option" where
  "unknownKeys_property defUnknownKeys = None"

definition schema_isOptional :: "safe_parse \<Rightarrow> zod \<Rightarrow> bool" where
  "schema_isOptional sp schema = (\<not> isl (sp schema JUndefined))"

definition schema_isNullable :: "safe_parse \<Rightarrow> zod \<Rightarrow> bool" where
  "schema_isNullable sp schema = (\<not> isl (sp schema JNull))"

text \<open>
  \<open>ZodSchema.prototype.openapi\<close>: a copy of the schema whose metadata is the old metadata
  overwritten by the new, with the \<open>param\<close> objects merged.
\<close>

definition openapi_method :: "zod \<Rightarrow> obj \<Rightarrow> zod" where
  "openapi_method this metadata =
     (let param = getProp metadata ''param'';
          restOfOpenApi = omit metadata [''param''];
          current = (case openapi this of None \<Rightarrow> [] | Some m \<Rightarrow> m)
      in Zod (zdef this)
           (Some (spread (spread current restOfOpenApi)
                    [(''param'', JObj (spread (entries (getProp current ''param'')) (entries param)))]))
           (description this))"


section \<open>Route configuration (openapi_registry.ts, types/shared.ts)\<close>

datatype media_schema = ZodSchema zod | SchemaObject json

record zod_media_type_object =
  mt_schema :: media_schema
  mt_rest :: "(string \<times> json) list"

record zod_request_body =
  rb_content :: "(string \<times> zod_media_type_object) list"
  rb_rest :: "(string \<times> json) list"

record zod_response_header_object =
  rh_schema :: media_schema
  rh_rest :: "(string \<times> json) list"

record zod_response_config =
  rc_headers :: "(string \<times> zod_response_header_object) list option"
  rc_content :: "(string \<times> zod_media_type_object) list option"
  rc_rest :: "(string \<times> json) list"

record zod_request =
  rq_body :: "zod_request_body option"
  rq_params :: "(string \<times> zod) list option"
  rq_query :: "(string \<times> zod) list option"
  rq_headers :: "(string \<times> zod) list option"

text \<open>
  \<open>OpenapiRouteConfig\<close>: \<open>responses\<close> is optional here and mandatory in \<open>ZodRouteConfig\<close>,
  which is the same record with \<open>cfg_responses\<close> present. \<open>cfg_rest\<close> holds the summary, tags,
  description and every other operation field, which are passed through; the \<open>rest\<close> field
  of the other records does the same (the description and links of a response included).
\<close>

record route_config =
  cfg_method :: string
  cfg_path :: string
  cfg_request :: "zod_request option"
  cfg_responses :: "(string \<times> zod_response_config) list option"
  cfg_rest :: "(string \<times> json) list"

section \<open>The definition registry (openapi_registry.ts)\<close>

text \<open>
  A registry is an append-only list of definitions after those of its parents.
  Every registration returns its result together with the updated registry.
\<close>

datatype openapi_definition =
    Component string string json
  | Schema zod
  | Parameter zod
  | Route route_config

datatype openapi_registry = OpenapiRegistry (parents: "openapi_registry list") (own_definitions: "openapi_definition list")

fun definitions :: "openapi_registry \<Rightarrow> openapi_definition list" where
  "definitions (OpenapiRegistry ps ds) = concat (map definitions ps) @ ds"

definition push :: "openapi_definition \<Rightarrow> openapi_registry \<Rightarrow> openapi_registry" where
  "push d registry = OpenapiRegistry (parents registry) (own_definitions registry @ [d])"

definition register :: "string \<Rightarrow> zod \<Rightarrow> openapi_registry \<Rightarrow> zod \<times> openapi_registry" where
  "register refId zodSchema registry =
     (let currentMetadata = (case openapi zodSchema of None \<Rightarrow> [] | Some m \<Rightarrow> m);
          schemaWithMetadata = openapi_method zodSchema (spread currentMetadata [(''refId'', JStr refId)])
      in (schemaWithMetadata, push (Schema schemaWithMetadata) registry))"

definition registerParameter :: "string \<Rightarrow> zod \<Rightarrow> openapi_registry \<Rightarrow> zod \<times> openapi_registry" where
  "registerParameter refId zodSchema registry =
     (let currentMetadata = (case openapi zodSchema of None \<Rightarrow> [] | Some m \<Rightarrow> m);
          currentParam = getProp currentMetadata ''param'';
          schemaWithMetadata =
            openapi_method zodSchema
              (spread currentMetadata
                 [(''param'', JObj (spread (entries currentParam)
                                     [(''name'', nullish (jsonProp currentParam ''name'') (JStr refId))])),
                  (''refId'', JStr refId)])
      in (schemaWithMetadata, push (Parameter schemaWithMetadata) registry))"

definition registerPath :: "route_config \<Rightarrow> openapi_registry \<Rightarrow> openapi_registry" where
  "registerPath route registry = push (Route route) registry"

definition registerComponent :: "string \<Rightarrow> string \<Rightarrow> json \<Rightarrow> openapi_registry \<Rightarrow> (string \<times> json) \<times> openapi_registry" where
  "registerComponent type name component registry =
     ((name, JObj [(''$ref'', JStr (''#/components/'' @ type @ ''/'' @ name))]),
      push (Component type name component) registry)"

section \<open>The document generator (generator/openapi_generator.ts)\<close>

text \<open>
  The errors of errors.ts, with their data: the message, key and values of a conflict,
  the parameter name and missing field, the schema name and \<open>_def\<close> of an unknown type;
  and the plain \<open>Error\<close> thrown for an extension of an unregistered schema.
\<close>

datatype gen_error =
    ConflictError string string "json list"
  | MissingParameterDataError json string
  | UnknownZodTypeError json zod_def
  | Error string

subsection \<open>Unwrapping and flattening\<close>

fun unwrapChained :: "zod \<Rightarrow> zod" where
  "unwrapChained (Zod (ZodOptional inner) m d) = unwrapChained inner"
| "unwrapChained (Zod (ZodNullable inner) m d) = unwrapChained inner"
| "unwrapChained (Zod (ZodDefault inner dv) m d) = unwrapChained inner"
| "unwrapChained (Zod (ZodEffects Refinement inner) m d) = unwrapChained inner"
| "unwrapChained schema = schema"

fun flattenUnionTypes :: "zod \<Rightarrow> zod list" where
  "flattenUnionTypes (Zod (ZodUnion options) m d) = concat (map flattenUnionTypes options)"
| "flattenUnionTypes schema = [schema]"

fun flattenIntersectionTypes :: "zod \<Rightarrow> zod list" where
  "flattenIntersectionTypes (Zod (ZodIntersection left right) m d) =
     flattenIntersectionTypes left @ flattenIntersectionTypes right"
| "flattenIntersectionTypes schema = [schema]"

lemma size_unwrapChained [termination_simp]: "size (unwrapChained s) \<le> size s"
  by (induction s rule: unwrapChained.induct) auto

lemma size_list_concat: "size_list f (concat xss) \<le> size_list (size_list f) xss"
  by (induction xss) (auto simp: size_list_append)

lemma size_flattenUnionTypes: "size_list size (flattenUnionTypes s) \<le> Suc (size s)"
proof (induction s rule: flattenUnionTypes.induct)
  case (1 options m d)
  have "size_list size (concat (map flattenUnionTypes options)) \<le> size_list size options"
    using 1
  proof (induction options)
    case Nil then show ?case by simp
  next
    case (Cons a as)
    have "size_list size (flattenUnionTypes a) \<le> Suc (size a)" using Cons.prems by simp
    moreover have "size_list size (concat (map flattenUnionTypes as)) \<le> size_list size as"
      using Cons by simp
    ultimately show ?case by (simp add: size_list_append)
  qed
  then show ?case by simp
qed simp_all

lemma size_flattenIntersectionTypes: "size_list size (flattenIntersectionTypes s) \<le> Suc (size s)"
  by (induction s rule: flattenIntersectionTypes.induct) (auto simp: size_list_append)

lemma size_flattenUnionTypes_union:
  "size_list size (flattenUnionTypes (Zod (ZodUnion options) m d)) \<le> size (Zod (ZodUnion options) m d)"
proof -
  have "size_list size (concat (map flattenUnionTypes options)) \<le> size_list size options"
  proof (induction options)
    case Nil then show ?case by simp
  next
    case (Cons a as)
    have "size_list size (flattenUnionTypes a) \<le> Suc (size a)" by (rule size_flattenUnionTypes)
    with Cons show ?case by (simp add: size_list_append)
  qed
  then show ?thesis by simp
qed

lemma size_flattenIntersectionTypes_intersection:
  "size_list size (flattenIntersectionTypes (Zod (ZodIntersection left right) m d))
     \<le> size (Zod (ZodIntersection left right) m d)"
  using size_flattenIntersectionTypes [of left] size_flattenIntersectionTypes [of right]
  by (simp add: size_list_append)


subsection \<open>Metadata\<close>

definition buildSchemaMetadata :: "obj \<Rightarrow> obj" where
  "buildSchemaMetadata metadata = omitBy (omit metadata [''param'', ''refId'', ''extendedFrom'']) isNil"

definition buildParameterMetadata :: "obj \<Rightarrow> obj" where
  "buildParameterMetadata metadata = omitBy metadata isNil"

definition applySchemaMetadata :: "obj \<Rightarrow> obj \<Rightarrow> obj" where
  "applySchemaMetadata initialData metadata =
     omitBy (spread initialData (buildSchemaMetadata metadata)) isNil"

definition getMetadata :: "zod \<Rightarrow> obj" where
  "getMetadata zodSchema =
     (let innerSchema = unwrapChained zodSchema;
          metadata = (case openapi zodSchema of Some m \<Rightarrow> Some m | None \<Rightarrow> openapi innerSchema);
          description = (case description zodSchema of Some d \<Rightarrow> Some d | None \<Rightarrow> description innerSchema)
      in spread [(''description'', case description of Some d \<Rightarrow> JStr d | None \<Rightarrow> JUndefined)]
           (case metadata of Some m \<Rightarrow> m | None \<Rightarrow> []))"

definition mapStringFormat :: "string_check list \<Rightarrow> json" where
  "mapStringFormat checks =
     (if Uuid \<in> set checks then JStr ''uuid''
      else if Email \<in> set checks then JStr ''email''
      else if Url \<in> set checks then JStr ''uri''
      else JUndefined)"

fun isRegex :: "string_check \<Rightarrow> bool" where
  "isRegex (Regex src) = True"
| "isRegex c = False"

definition regexSource :: "string_check list \<Rightarrow> json" where
  "regexSource checks =
     (case find isRegex checks of Some (Regex src) \<Rightarrow> JStr src | _ \<Rightarrow> JUndefined)"

fun isOptionalSchema :: "safe_parse \<Rightarrow> zod \<Rightarrow> bool" where
  "isOptionalSchema sp (Zod (ZodEffects t inner) m d) = isOptionalSchema sp inner"
| "isOptionalSchema sp (Zod (ZodDefault inner dv) m d) = isOptionalSchema sp inner"
| "isOptionalSchema sp zodSchema = schema_isOptional sp zodSchema"

text \<open>\<open>isNullable ? true : undefined\<close>, and an optional number as a field value.\<close>

definition nullableField :: "bool \<Rightarrow> json" where
  "nullableField isNullable = (if isNullable then JBool True else JUndefined)"

definition optNum :: "int option \<Rightarrow> json" where
  "optNum v = (case v of None \<Rightarrow> JUndefined | Some n \<Rightarrow> JNum n)"

subsection \<open>Schemas\<close>

text \<open>
  The conversion reads the table of registered schemas and writes nothing, so the table
  is an argument. \<open>toOpenapiObjectSchema\<close> takes the shape, the unknown-keys setting and
  the metadata of its object schema. The two map functions are the loops
  \<open>options.map(generateInnerSchema)\<close> and \<open>mapValues(propTypes, generateInnerSchema)\<close>.
\<close>

function (sequential)
      generateSimpleSchema :: "safe_parse \<Rightarrow> obj \<Rightarrow> zod \<Rightarrow> gen_error + obj"
  and generateInnerSchema :: "safe_parse \<Rightarrow> obj \<Rightarrow> zod \<Rightarrow> obj option \<Rightarrow> gen_error + obj"
  and toOpenapiSchema :: "safe_parse \<Rightarrow> obj \<Rightarrow> zod \<Rightarrow> bool \<Rightarrow> gen_error + obj"
  and toOpenapiObjectSchema ::
        "safe_parse \<Rightarrow> obj \<Rightarrow> (string \<times> zod) list \<Rightarrow> unknown_keys \<Rightarrow> obj option \<Rightarrow> bool \<Rightarrow> gen_error + obj"
  and mapGenerateInnerSchema :: "safe_parse \<Rightarrow> obj \<Rightarrow> zod list \<Rightarrow> gen_error + json list"
  and mapValuesGenerateInnerSchema :: "safe_parse \<Rightarrow> obj \<Rightarrow> (string \<times> zod) list \<Rightarrow> gen_error + obj"
where
  "generateSimpleSchema sp refs zodSchema =
     (let innerSchema = unwrapChained zodSchema;
          metadata = (case openapi zodSchema of Some m \<Rightarrow> Some m | None \<Rightarrow> openapi innerSchema);
          refId = (case metadata of None \<Rightarrow> JUndefined | Some m \<Rightarrow> getProp m ''refId'')
      in if truthy refId \<and> truthy (getProp refs (toStr refId)) then
           (let referenceObject = [(''$ref'', JStr (''#/components/schemas/'' @ toStr refId))];
                nullableMetadata = (if schema_isNullable sp zodSchema then [(''nullable'', JBool True)] else []);
                appliedMetadata =
                  applySchemaMetadata nullableMetadata (case metadata of None \<Rightarrow> [] | Some m \<Rightarrow> m)
            in if length appliedMetadata > 0
               then Inr [(''allOf'', JArr [JObj referenceObject, JObj appliedMetadata])]
               else Inr referenceObject)
         else
           (case (if truthy (case metadata of None \<Rightarrow> JUndefined | Some m \<Rightarrow> getProp m ''type'')
                  then Inr [(''type'', case metadata of None \<Rightarrow> JUndefined | Some m \<Rightarrow> getProp m ''type'')]
                  else toOpenapiSchema sp refs innerSchema (schema_isNullable sp zodSchema)) of
              Inl e \<Rightarrow> Inl e
            | Inr result \<Rightarrow>
                Inr (case metadata of
                       Some m \<Rightarrow> applySchemaMetadata result m
                     | None \<Rightarrow> omitBy result isNil)))"
| "generateInnerSchema sp refs zodSchema metadata =
     (case generateSimpleSchema sp refs zodSchema of
        Inl e \<Rightarrow> Inl e
      | Inr simpleSchema \<Rightarrow>
          if truthy (getProp simpleSchema ''$ref'') then Inr simpleSchema
          else (case metadata of
                  Some m \<Rightarrow> Inr (applySchemaMetadata simpleSchema m)
                | None \<Rightarrow> Inr simpleSchema))"
| "toOpenapiSchema sp refs (Zod ZodNull m d) isNullable = Inr [(''type'', JStr ''null'')]"
| "toOpenapiSchema sp refs (Zod (ZodString checks) m d) isNullable =
     Inr [(''type'', JStr ''string''),
          (''nullable'', nullableField isNullable),
          (''format'', mapStringFormat checks),
          (''pattern'', regexSource checks)]"
| "toOpenapiSchema sp refs (Zod (ZodNumber isInt minValue maxValue) m d) isNullable =
     Inr [(''type'', JStr (if isInt then ''integer'' else ''number'')),
          (''minimum'', optNum minValue),
          (''maximum'', optNum maxValue),
          (''nullable'', nullableField isNullable)]"
| "toOpenapiSchema sp refs (Zod ZodBoolean m d) isNullable =
     Inr [(''type'', JStr ''boolean''), (''nullable'', nullableField isNullable)]"
| "toOpenapiSchema sp refs (Zod (ZodDefault innerType dv) m d) isNullable =
     generateInnerSchema sp refs innerType None"
| "toOpenapiSchema sp refs (Zod (ZodEffects Refinement innerSchema) m d) isNullable =
     generateInnerSchema sp refs innerSchema None"
| "toOpenapiSchema sp refs (Zod (ZodEffects Preprocess innerSchema) m d) isNullable =
     generateInnerSchema sp refs innerSchema None"
| "toOpenapiSchema sp refs (Zod (ZodLiteral v) m d) isNullable =
     Inr [(''type'', JStr (typeof v)), (''nullable'', nullableField isNullable), (''enum'', JArr [v])]"
| "toOpenapiSchema sp refs (Zod (ZodEnum vs) m d) isNullable =
     Inr [(''type'', JStr ''string''), (''nullable'', nullableField isNullable),
          (''enum'', JArr (map JStr vs))]"
| "toOpenapiSchema sp refs (Zod (ZodNativeEnum vs) m d) isNullable =
     Inr [(''type'', JStr ''string''), (''nullable'', nullableField isNullable),
          (''enum'', JArr (map snd vs))]"
| "toOpenapiSchema sp refs (Zod (ZodObject shape unknownKeys) m d) isNullable =
     toOpenapiObjectSchema sp refs shape unknownKeys m isNullable"
| "toOpenapiSchema sp refs (Zod (ZodArray itemType minLength maxLength) m d) isNullable =
     (case generateInnerSchema sp refs itemType None of
        Inl e \<Rightarrow> Inl e
      | Inr items \<Rightarrow>
          Inr [(''type'', JStr ''array''), (''items'', JObj items),
               (''minItems'', optNum minLength), (''maxItems'', optNum maxLength)])"
| "toOpenapiSchema sp refs (Zod (ZodUnion options) m d) isNullable =
     (case mapGenerateInnerSchema sp refs (flattenUnionTypes (Zod (ZodUnion options) m d)) of
        Inl e \<Rightarrow> Inl e
      | Inr branches \<Rightarrow> Inr [(''anyOf'', JArr branches)])"
| "toOpenapiSchema sp refs (Zod (ZodDiscriminatedUnion discriminator options) m d) isNullable =
     (case mapGenerateInnerSchema sp refs options of
        Inl e \<Rightarrow> Inl e
      | Inr branches \<Rightarrow>
          Inr [(''oneOf'', JArr branches),
               (''discriminator'', JObj [(''propertyName'', JStr discriminator)])])"
| "toOpenapiSchema sp refs (Zod (ZodIntersection left right) m d) isNullable =
     (case mapGenerateInnerSchema sp refs
             (flattenIntersectionTypes (Zod (ZodIntersection left right) m d)) of
        Inl e \<Rightarrow> Inl e
      | Inr branches \<Rightarrow> Inr [(''allOf'', JArr branches)])"
| "toOpenapiSchema sp refs (Zod (ZodRecord valueType) m d) isNullable =
     (case generateInnerSchema sp refs valueType None of
        Inl e \<Rightarrow> Inl e
      | Inr additionalProperties \<Rightarrow>
          Inr [(''type'', JStr ''object''), (''additionalProperties'', JObj additionalProperties)])"
| "toOpenapiSchema sp refs (Zod ZodUnknown m d) isNullable = Inr []"
| "toOpenapiSchema sp refs zodSchema isNullable =
     Inl (UnknownZodTypeError (getProp (getMetadata zodSchema) ''refId'') (zdef zodSchema))"
| "toOpenapiObjectSchema sp refs propTypes defUnknownKeys openapiMeta isNullable =
     (let extendedFrom = (case openapiMeta of None \<Rightarrow> JUndefined | Some m \<Rightarrow> getProp m ''extendedFrom'');
          unknownKeysOption = unknownKeys_property defUnknownKeys;
          requiredProperties = map fst (filter (\<lambda>(key, type). \<not> isOptionalSchema sp type) propTypes)
      in case mapValuesGenerateInnerSchema sp refs propTypes of
           Inl e \<Rightarrow> Inl e
         | Inr schemaProperties \<Rightarrow>
            (case (if truthy extendedFrom then
                     (let registeredSchema = getProp refs (toStr extendedFrom)
                      in if \<not> truthy registeredSchema then
                           Inl (Error (''Attempt to extend an unregistered schema with id '' @ toStr extendedFrom @ ''.''))
                         else
                           (let registeredProperties = entries (jsonProp registeredSchema ''properties'')
                            in Inr (filter (\<lambda>propKey. objectEquals (getProp schemaProperties propKey)
                                                             (getProp registeredProperties propKey))
                                      (map fst registeredProperties),
                                    elements (jsonProp registeredSchema ''required''))))
                   else Inr ([], [])) of
               Inl e \<Rightarrow> Inl e
             | Inr (alreadyRegistered, alreadyRequired) \<Rightarrow>
                (let properties = omit schemaProperties alreadyRegistered;
                     additionallyRequired = filter (\<lambda>p. JStr p \<notin> set alreadyRequired) requiredProperties;
                     objectData =
                       [(''type'', JStr ''object''), (''properties'', JObj properties)]
                       @ (if isNullable then [(''nullable'', JBool True)] else [])
                       @ (if length additionallyRequired > 0
                          then [(''required'', JArr (map JStr additionallyRequired))] else [])
                       @ (if unknownKeysOption = Some Passthrough
                          then [(''additionalProperties'', JBool True)] else [])
                 in if truthy extendedFrom then
                      Inr [(''allOf'', JArr [JObj [(''$ref'', JStr (''#/components/schemas/'' @ toStr extendedFrom))],
                                              JObj objectData])]
                    else Inr objectData)))"
| "mapGenerateInnerSchema sp refs [] = Inr []"
| "mapGenerateInnerSchema sp refs (schema # rest) =
     (case generateInnerSchema sp refs schema None of
        Inl e \<Rightarrow> Inl e
      | Inr node \<Rightarrow>
          (case mapGenerateInnerSchema sp refs rest of
             Inl e \<Rightarrow> Inl e
           | Inr nodes \<Rightarrow> Inr (JObj node # nodes)))"
| "mapValuesGenerateInnerSchema sp refs [] = Inr []"
| "mapValuesGenerateInnerSchema sp refs ((key, propSchema) # rest) =
     (case generateInnerSchema sp refs propSchema None of
        Inl e \<Rightarrow> Inl e
      | Inr node \<Rightarrow>
          (case mapValuesGenerateInnerSchema sp refs rest of
             Inl e \<Rightarrow> Inl e
           | Inr nodes \<Rightarrow> Inr ((key, JObj node) # nodes)))"
  by pat_completeness auto
termination
proof (relation "measure (\<lambda>x. case x of
        Inl (Inl (sp, refs, z)) \<Rightarrow> 4 * size z + 3
      | Inl (Inr (Inl (sp, refs, z, md))) \<Rightarrow> 4 * size z + 4
      | Inl (Inr (Inr (sp, refs, z, b))) \<Rightarrow> 4 * size z + 2
      | Inr (Inl (sp, refs, shape, uk, m, b)) \<Rightarrow> 4 * size_list (size_prod (\<lambda>k. 0) size) shape + 2
      | Inr (Inr (Inl (sp, refs, zs))) \<Rightarrow> 4 * size_list size zs + 1
      | Inr (Inr (Inr (sp, refs, props))) \<Rightarrow> 4 * size_list (size_prod (\<lambda>k. 0) size) props + 1)",
      goal_cases)
  case 1
  show ?case by simp
next
  case (2 sp refs zodSchema x xa xb)
  then show ?case using size_unwrapChained [of zodSchema] by simp
next
  case (9 sp refs options m d isNullable)
  show ?case using size_flattenUnionTypes_union [of options m d] by simp
next
  case (11 sp refs left right m d isNullable)
  show ?case using size_flattenIntersectionTypes_intersection [of left right m d] by simp
qed simp_all


subsection \<open>The generator state, parameters, routes and the document\<close>

record openapi_generator =
  gen_definitions :: "openapi_definition list"
  schemaRefs :: obj
  paramRefs :: obj
  pathRefs :: obj
  rawComponents :: "(string \<times> string \<times> json) list"

record parameter_data =
  pd_in :: "string option"
  pd_name :: "string option"

definition optStr :: "string option \<Rightarrow> json" where
  "optStr v = (case v of None \<Rightarrow> JUndefined | Some s \<Rightarrow> JStr s)"

definition getParameterRef ::
  "openapi_generator \<Rightarrow> obj option \<Rightarrow> parameter_data option \<Rightarrow> gen_error + obj option" where
  "getParameterRef this schemaMetadata external =
     (let parameterMetadata = (case schemaMetadata of None \<Rightarrow> JUndefined | Some m \<Rightarrow> getProp m ''param'');
          refId = (case schemaMetadata of None \<Rightarrow> JUndefined | Some m \<Rightarrow> getProp m ''refId'');
          existingRef = (if truthy refId then getProp (paramRefs this) (toStr refId) else JUndefined);
          externalIn = (case external of None \<Rightarrow> JUndefined | Some e \<Rightarrow> optStr (pd_in e));
          externalName = (case external of None \<Rightarrow> JUndefined | Some e \<Rightarrow> optStr (pd_name e))
      in if \<not> truthy refId \<or> \<not> truthy existingRef then Inr None
         else if (truthy parameterMetadata \<and> jsonProp existingRef ''in'' \<noteq> jsonProp parameterMetadata ''in'')
                 \<or> (truthy externalIn \<and> jsonProp existingRef ''in'' \<noteq> externalIn) then
           Inl (ConflictError (''Conflicting location for parameter '' @ toStr (jsonProp existingRef ''name''))
                  ''in''
                  (compact [jsonProp existingRef ''in'', externalIn, jsonProp parameterMetadata ''in'']))
         else if (truthy parameterMetadata \<and> jsonProp existingRef ''name'' \<noteq> jsonProp parameterMetadata ''name'')
                 \<or> (truthy externalName \<and> jsonProp existingRef ''name'' \<noteq> externalName) then
           Inl (ConflictError ''Conflicting names for parameter''
                  ''name''
                  (compact [jsonProp existingRef ''name'', externalName, jsonProp parameterMetadata ''name'']))
         else Inr (Some [(''$ref'', JStr (''#/components/parameters/'' @ toStr refId))]))"

definition generateParameter :: "safe_parse \<Rightarrow> openapi_generator \<Rightarrow> zod \<Rightarrow> gen_error + obj" where
  "generateParameter sp this zodSchema =
     (let metadata = getMetadata zodSchema;
          paramMetadata = getProp metadata ''param'';
          paramName = jsonProp paramMetadata ''name'';
          paramLocation = jsonProp paramMetadata ''in''
      in if \<not> truthy paramName then Inl (MissingParameterDataError JUndefined ''name'')
         else if \<not> truthy paramLocation then Inl (MissingParameterDataError paramName ''in'')
         else
           (let required = (\<not> schema_isOptional sp zodSchema \<and> \<not> schema_isNullable sp zodSchema)
            in case generateSimpleSchema sp (schemaRefs this) zodSchema of
                 Inl e \<Rightarrow> Inl e
               | Inr schema \<Rightarrow>
                   Inr (spread
                          (spread
                             [(''in'', paramLocation), (''name'', paramName),
                              (''schema'', JObj schema), (''required'', JBool required)]
                             (if truthy (getProp metadata ''description'')
                              then [(''description'', getProp metadata ''description'')] else []))
                          (if truthy paramMetadata then buildParameterMetadata (entries paramMetadata) else []))))"

definition generateParameterDefinition ::
  "safe_parse \<Rightarrow> openapi_generator \<Rightarrow> zod \<Rightarrow> gen_error + openapi_generator" where
  "generateParameterDefinition sp this zodSchema =
     (let metadata = getMetadata zodSchema
      in case generateParameter sp this zodSchema of
           Inl e \<Rightarrow> Inl e
         | Inr result \<Rightarrow>
             Inr (if truthy (getProp metadata ''refId'')
                  then this\<lparr>paramRefs := AList.update (toStr (getProp metadata ''refId'')) (JObj result) (paramRefs this)\<rparr>
                  else this))"

definition generateInlineParameter ::
  "safe_parse \<Rightarrow> openapi_generator \<Rightarrow> string \<Rightarrow> string \<Rightarrow> zod \<Rightarrow> gen_error + obj" where
  "generateInlineParameter sp this location key schema =
     (let innerMetadata = getMetadata schema
      in case getParameterRef this (Some innerMetadata) (Some \<lparr>pd_in = Some location, pd_name = Some key\<rparr>) of
           Inl e \<Rightarrow> Inl e
         | Inr (Some referencedSchema) \<Rightarrow> Inr referencedSchema
         | Inr None \<Rightarrow>
            (let innerParameterMetadata = getProp innerMetadata ''param'';
                 innerName = jsonProp innerParameterMetadata ''name'';
                 innerIn = jsonProp innerParameterMetadata ''in''
             in if truthy innerName \<and> innerName \<noteq> JStr key then
                  Inl (ConflictError ''Conflicting names for parameter'' ''name'' [JStr key, innerName])
                else if truthy innerIn \<and> innerIn \<noteq> JStr location then
                  Inl (ConflictError (''Conflicting location for parameter '' @ toStr (nullish innerName (JStr key)))
                         ''in'' [JStr location, innerIn])
                else generateParameter sp this
                       (openapi_method schema
                          [(''param'', JObj [(''name'', JStr key), (''in'', JStr location)])])))"

fun generateInlineParameters ::
  "safe_parse \<Rightarrow> openapi_generator \<Rightarrow> (string \<times> zod) list \<Rightarrow> string \<Rightarrow> gen_error + json list" where
  "generateInlineParameters sp this [] location = Inr []"
| "generateInlineParameters sp this ((key, schema) # rest) location =
     (case generateInlineParameter sp this location key schema of
        Inl e \<Rightarrow> Inl e
      | Inr parameter \<Rightarrow>
          (case generateInlineParameters sp this rest location of
             Inl e \<Rightarrow> Inl e
           | Inr parameters \<Rightarrow> Inr (JObj parameter # parameters)))"

definition generateSchemaDefinition ::
  "safe_parse \<Rightarrow> openapi_generator \<Rightarrow> zod \<Rightarrow> gen_error + openapi_generator" where
  "generateSchemaDefinition sp this zodSchema =
     (let metadata = getMetadata zodSchema;
          refId = getProp metadata ''refId''
      in case generateSimpleSchema sp (schemaRefs this) zodSchema of
           Inl e \<Rightarrow> Inl e
         | Inr simpleSchema \<Rightarrow>
            (let result = applySchemaMetadata simpleSchema metadata
             in Inr (if truthy refId
                     then this\<lparr>schemaRefs := AList.update (toStr refId) (JObj result) (schemaRefs this)\<rparr>
                     else this)))"

definition getBodyContent ::
  "safe_parse \<Rightarrow> openapi_generator \<Rightarrow> (string \<times> zod_media_type_object) list \<Rightarrow> gen_error + obj" where
  "getBodyContent sp this content =
     mapValuesE (\<lambda>config.
        case mt_schema config of
          SchemaObject s \<Rightarrow> Inr (JObj [(''schema'', s)])
        | ZodSchema z \<Rightarrow>
            (case generateSimpleSchema sp (schemaRefs this) z of
               Inl e \<Rightarrow> Inl e
             | Inr schema \<Rightarrow> Inr (JObj [(''schema'', JObj schema)]))) content"

definition getResponseHeaders ::
  "safe_parse \<Rightarrow> openapi_generator \<Rightarrow> (string \<times> zod_response_header_object) list \<Rightarrow> gen_error + obj" where
  "getResponseHeaders sp this headers =
     mapValuesE (\<lambda>config.
        case rh_schema config of
          SchemaObject s \<Rightarrow> Inr (JObj (spread (rh_rest config) [(''schema'', s)]))
        | ZodSchema z \<Rightarrow>
            (case generateInnerSchema sp (schemaRefs this) z None of
               Inl e \<Rightarrow> Inl e
             | Inr schema \<Rightarrow> Inr (JObj (spread (rh_rest config) [(''schema'', JObj schema)])))) headers"

definition getResponse ::
  "safe_parse \<Rightarrow> openapi_generator \<Rightarrow> zod_response_config \<Rightarrow> gen_error + json" where
  "getResponse sp this response =
     (case (case rc_content response of
              None \<Rightarrow> Inr []
            | Some content \<Rightarrow>
                (case getBodyContent sp this content of
                   Inl e \<Rightarrow> Inl e
                 | Inr c \<Rightarrow> Inr [(''content'', JObj c)])) of
        Inl e \<Rightarrow> Inl e
      | Inr responseContent \<Rightarrow>
          (case (case rc_headers response of
                   None \<Rightarrow> Inr []
                 | Some headers \<Rightarrow>
                     (case getResponseHeaders sp this headers of
                        Inl e \<Rightarrow> Inl e
                      | Inr h \<Rightarrow> Inr [(''headers'', JObj h)])) of
             Inl e \<Rightarrow> Inl e
           | Inr responseHeaders \<Rightarrow>
               Inr (JObj (spread (spread (rc_rest response) responseContent) responseHeaders))))"

definition getRequestBody ::
  "safe_parse \<Rightarrow> openapi_generator \<Rightarrow> zod_request_body option \<Rightarrow> gen_error + obj option" where
  "getRequestBody sp this requestBody =
     (case requestBody of
        None \<Rightarrow> Inr None
      | Some b \<Rightarrow>
          (case getBodyContent sp this (rb_content b) of
             Inl e \<Rightarrow> Inl e
           | Inr requestBodyContent \<Rightarrow>
               Inr (Some (spread (rb_rest b) [(''content'', JObj requestBodyContent)]))))"

definition getParameters ::
  "safe_parse \<Rightarrow> openapi_generator \<Rightarrow> zod_request option \<Rightarrow> gen_error + json list" where
  "getParameters sp this request =
     (case request of
        None \<Rightarrow> Inr []
      | Some rq \<Rightarrow>
          (case (case rq_query rq of None \<Rightarrow> Inr []
                 | Some q \<Rightarrow> generateInlineParameters sp this q ''query'') of
             Inl e \<Rightarrow> Inl e
           | Inr queryParameters \<Rightarrow>
              (case (case rq_params rq of None \<Rightarrow> Inr []
                     | Some p \<Rightarrow> generateInlineParameters sp this p ''path'') of
                 Inl e \<Rightarrow> Inl e
               | Inr pathParameters \<Rightarrow>
                  (case (case rq_headers rq of None \<Rightarrow> Inr []
                         | Some h \<Rightarrow> generateInlineParameters sp this h ''header'') of
                     Inl e \<Rightarrow> Inl e
                   | Inr headerParameters \<Rightarrow>
                       Inr (pathParameters @ queryParameters @ headerParameters)))))"

definition generateSingleRoute ::
  "safe_parse \<Rightarrow> openapi_generator \<Rightarrow> route_config \<Rightarrow> gen_error + openapi_generator" where
  "generateSingleRoute sp this route =
     (case mapValuesE (getResponse sp this) (case cfg_responses route of None \<Rightarrow> [] | Some r \<Rightarrow> r) of
        Inl e \<Rightarrow> Inl e
      | Inr generatedResponses \<Rightarrow>
         (case getParameters sp this (cfg_request route) of
            Inl e \<Rightarrow> Inl e
          | Inr parameters \<Rightarrow>
             (case getRequestBody sp this (case cfg_request route of None \<Rightarrow> None | Some rq \<Rightarrow> rq_body rq) of
                Inl e \<Rightarrow> Inl e
              | Inr requestBody \<Rightarrow>
                 (let operation =
                        spread
                          (spread
                             (spread (cfg_rest route)
                                (if length parameters > 0 then [(''parameters'', JArr parameters)] else []))
                             (case requestBody of None \<Rightarrow> [] | Some b \<Rightarrow> [(''requestBody'', JObj b)]))
                          [(''responses'', JObj generatedResponses)];
                      routeDoc = [(cfg_method route, JObj operation)]
                  in Inr (this\<lparr>pathRefs :=
                            AList.update (cfg_path route)
                              (JObj (spread (entries (getProp (pathRefs this) (cfg_path route))) routeDoc))
                              (pathRefs this)\<rparr>)))))"

fun generateSingle :: "safe_parse \<Rightarrow> openapi_generator \<Rightarrow> openapi_definition \<Rightarrow> gen_error + openapi_generator" where
  "generateSingle sp this (Parameter schema) = generateParameterDefinition sp this schema"
| "generateSingle sp this (Schema schema) = generateSchemaDefinition sp this schema"
| "generateSingle sp this (Route route) = generateSingleRoute sp this route"
| "generateSingle sp this (Component componentType name component) =
     Inr (this\<lparr>rawComponents := rawComponents this @ [(componentType, name, component)]\<rparr>)"

fun generationIndex :: "openapi_definition \<Rightarrow> int" where
  "generationIndex (Schema s) = 0"
| "generationIndex (Parameter s) = 1"
| "generationIndex (Route r) = 2"
| "generationIndex (Component t n c) = - 1"

definition sortDefinitions :: "openapi_definition list \<Rightarrow> openapi_definition list" where
  "sortDefinitions ds = sort_key generationIndex ds"

definition new_OpenapiGenerator :: "openapi_definition list \<Rightarrow> openapi_generator" where
  "new_OpenapiGenerator ds =
     \<lparr>gen_definitions = sortDefinitions ds, schemaRefs = [], paramRefs = [], pathRefs = [],
      rawComponents = []\<rparr>"

definition buildComponents :: "openapi_generator \<Rightarrow> obj" where
  "buildComponents this =
     (let raw = foldl (\<lambda>acc (componentType, name, component).
                         AList.update componentType
                           (JObj (AList.update name component (entries (getProp acc componentType)))) acc)
                  [] (rawComponents this)
      in spread raw
           [(''schemas'', JObj (spread (entries (getProp raw ''schemas'')) (schemaRefs this))),
            (''parameters'', JObj (spread (entries (getProp raw ''parameters'')) (paramRefs this)))])"

fun forEachGenerateSingle ::
  "safe_parse \<Rightarrow> openapi_generator \<Rightarrow> openapi_definition list \<Rightarrow> gen_error + openapi_generator" where
  "forEachGenerateSingle sp this [] = Inr this"
| "forEachGenerateSingle sp this (d # ds) =
     (case generateSingle sp this d of
        Inl e \<Rightarrow> Inl e
      | Inr this' \<Rightarrow> forEachGenerateSingle sp this' ds)"

definition generateDocument :: "safe_parse \<Rightarrow> openapi_generator \<Rightarrow> obj \<Rightarrow> gen_error + obj" where
  "generateDocument sp this config =
     (case forEachGenerateSingle sp this (gen_definitions this) of
        Inl e \<Rightarrow> Inl e
      | Inr this' \<Rightarrow>
          Inr (spread config
                 [(''components'', JObj (buildComponents this')), (''paths'', JObj (pathRefs this'))]))"

section \<open>Request schemas of a route (runtime/request.ts)\<close>

record query_schema =
  qs_key :: string
  qs_schema :: zod
  qs_isArray :: bool

definition extractRequestParamsSchema :: "route_config \<Rightarrow> (string \<times> zod) list option" where
  "extractRequestParamsSchema config =
     (case cfg_request config of None \<Rightarrow> None | Some rq \<Rightarrow> rq_params rq)"

fun unwrapZodType :: "zod \<Rightarrow> zod" where
  "unwrapZodType (Zod (ZodOptional inner) m d) = unwrapZodType inner"
| "unwrapZodType (Zod (ZodNullable inner) m d) = unwrapZodType inner"
| "unwrapZodType (Zod (ZodDefault inner dv) m d) = unwrapZodType inner"
| "unwrapZodType (Zod (ZodEffects Refinement inner) m d) = unwrapZodType inner"
| "unwrapZodType schema = schema"

text \<open>\<open>schema instanceof ZodArray\<close>.\<close>

fun instanceofZodArray :: "zod \<Rightarrow> bool" where
  "instanceofZodArray (Zod (ZodArray t mn mx) m d) = True"
| "instanceofZodArray schema = False"

definition extractRequestQuerySchema :: "route_config \<Rightarrow> query_schema list option" where
  "extractRequestQuerySchema config =
     (case cfg_request config of
        None \<Rightarrow> None
      | Some rq \<Rightarrow>
          (case rq_query rq of
             None \<Rightarrow> None
           | Some record \<Rightarrow>
               Some (map (\<lambda>(key, schema).
                        \<lparr>qs_key = key, qs_schema = schema,
                         qs_isArray = instanceofZodArray (unwrapZodType schema)\<rparr>) record)))"

definition extractRequestHeadersSchema :: "route_config \<Rightarrow> (string \<times> zod) list option" where
  "extractRequestHeadersSchema config =
     (case cfg_request config of None \<Rightarrow> None | Some rq \<Rightarrow> rq_headers rq)"

definition extractRequestBodySchema :: "route_config \<Rightarrow> zod option" where
  "extractRequestBodySchema config =
     (case cfg_request config of
        None \<Rightarrow> None
      | Some rq \<Rightarrow>
          (case rq_body rq of
             None \<Rightarrow> None
           | Some b \<Rightarrow>
               (case map_of (rb_content b) ''application/json'' of
                  None \<Rightarrow> None
                | Some media \<Rightarrow>
                    (case mt_schema media of
                       ZodSchema schema \<Rightarrow> Some schema
                     | SchemaObject obj \<Rightarrow> None))))"

section \<open>Query strings\<close>

text \<open>
  \<open>url.searchParams\<close> is the list of key/value pairs of the query string in order.
  \<open>get\<close> returns the first value of a key or \<open>null\<close>, \<open>getAll\<close> every value.
\<close>

definition searchParams_get :: "(string \<times> string) list \<Rightarrow> string \<Rightarrow> json" where
  "searchParams_get sp k = (case map_of sp k of None \<Rightarrow> JNull | Some v \<Rightarrow> JStr v)"

definition searchParams_getAll :: "(string \<times> string) list \<Rightarrow> string \<Rightarrow> json" where
  "searchParams_getAll sp k = JArr (map (\<lambda>(k', v). JStr v) (filter (\<lambda>(k', v). k' = k) sp))"

text \<open>The raw value of a query key: \<open>isArray ? searchParams.getAll(key) : searchParams.get(key)\<close>.\<close>

definition queryRawValue :: "(string \<times> string) list \<Rightarrow> query_schema \<Rightarrow> json" where
  "queryRawValue sp q =
     (if qs_isArray q then searchParams_getAll sp (qs_key q) else searchParams_get sp (qs_key q))"

section \<open>The router (openapi_server.ts)\<close>

text \<open>The path template with every \<open>{name}\<close> rewritten to \<open>:name\<close>: \<open>path.replaceAll(/{([^}]+)}/g, ":$1")\<close>.\<close>

function toPatternPath :: "string \<Rightarrow> string" where
  "toPatternPath [] = []"
| "toPatternPath (c # cs) =
     (if c = CHR ''{'' \<and> takeWhile (\<lambda>x. x \<noteq> CHR ''}'') cs \<noteq> [] \<and> dropWhile (\<lambda>x. x \<noteq> CHR ''}'') cs \<noteq> []
      then CHR '':'' # takeWhile (\<lambda>x. x \<noteq> CHR ''}'') cs @ toPatternPath (tl (dropWhile (\<lambda>x. x \<noteq> CHR ''}'') cs))
      else c # toPatternPath cs)"
  by pat_completeness auto
termination
proof (relation "measure length", goal_cases)
  case 1
  show ?case by simp
next
  case (2 c cs)
  have "length (dropWhile (\<lambda>x. x \<noteq> CHR ''}'') cs) \<le> length cs"
    by (rule length_dropWhile_le)
  with 2 show ?case by (cases "dropWhile (\<lambda>x. x \<noteq> CHR ''}'') cs") auto
next
  case (3 c cs)
  show ?case by simp
qed


subsection \<open>Requests and responses\<close>

text \<open>
  A request as the router reads it: the method, the path name and the query pairs of its
  URL, the header lines as received, and the payload. The payload is classified by what
  \<open>request.json()\<close> does with it: it rejects with a \<open>SyntaxError\<close> on an empty or
  malformed text and resolves to the parsed value otherwise.
\<close>

datatype payload = NoPayload | NotJson string | Json json

record request =
  req_method :: string
  req_pathname :: string
  req_searchParams :: "(string \<times> string) list"
  req_headers :: "(string \<times> string) list"
  req_payload :: payload

text \<open>
  A response body is a text, the text \<open>JSON.stringify(value, null, 2)\<close> of a value, or
  data handed over as it is.
\<close>

datatype body_init = BodyText string | BodyJson json | BodyData json

record response =
  status :: nat
  resp_headers :: "(string \<times> string) list"
  resp_body :: body_init

datatype typed_response =
    ServerResponse nat string json "(string \<times> string) list option"
  | RawResponse response

text \<open>What \<open>handle\<close> and the registration methods can throw.\<close>

datatype exn = SyntaxError | JsError string | GeneratorError gen_error

datatype source = Params | Query | Headers | Body

fun source_name :: "source \<Rightarrow> string" where
  "source_name Params = ''params''"
| "source_name Query = ''query''"
| "source_name Headers = ''headers''"
| "source_name Body = ''body''"

datatype body_value = Parsed json | Stream payload

type_synonym conn_info = string

record request_context =
  ctx_url :: "string \<times> (string \<times> string) list"
  ctx_params :: obj
  ctx_query :: obj
  ctx_headers :: obj
  ctx_body :: body_value
  ctx_request :: request
  ctx_connInfo :: conn_info

text \<open>
  A route handler is user code from the request context to a typed response, or the
  handler that the constructor installs for the document endpoint, which calls the
  memoized generator and so needs the router's state.
\<close>

datatype route_handler = Handler "request_context \<Rightarrow> exn + typed_response" | DocsHandler

text \<open>
  A compiled \<open>URLPattern\<close> with only a path name is the function \<open>exec\<close> from a path name
  to the named groups of the match, if it matches; \<open>test\<close> asks whether it does. The
  constructor \<open>new URLPattern\<close> belongs to the platform and is an argument of the
  functions that compile a pattern.
\<close>

type_synonym url_pattern = "string \<Rightarrow> (string \<times> string) list option"

record openapi_route =
  path :: string
  urlPattern :: "url_pattern option"
  paramSchemas :: "(string \<times> zod) list option"
  querySchemas :: "query_schema list option"
  headerSchemas :: "(string \<times> zod) list option"
  bodySchema :: "zod option"
  validationErrorHandler :: "(source \<Rightarrow> zod_error \<Rightarrow> response) option"
  handler :: route_handler

subsection \<open>Memoization\<close>

text \<open>
  The variable \<open>memoized\<close> of the closure, and a count of the invocations of \<open>create\<close> that
  is not in the source (it makes "runs at most once" a statement about the state).
  \<open>create\<close> may change the world \<open>'w\<close> and either returns its promise or throws.
  \<open>memoizePromise create\<close> is the returned thunk, as a transformer of cell and world.
\<close>

record 'p memo_cell =
  memoized :: "'p option"
  calls :: nat

definition memoizePromise ::
  "('w \<Rightarrow> ('e + 'p) \<times> 'w) \<Rightarrow> 'p memo_cell \<times> 'w \<Rightarrow> ('e + 'p) \<times> 'p memo_cell \<times> 'w" where
  "memoizePromise create = (\<lambda>(cell, w).
     case memoized cell of
       Some p \<Rightarrow> (Inr p, cell, w)
     | None \<Rightarrow>
         (case create w of
            (Inr p, w') \<Rightarrow> (Inr p, \<lparr>memoized = Some p, calls = Suc (calls cell)\<rparr>, w')
          | (Inl e, w') \<Rightarrow> (Inl e, cell\<lparr>calls := Suc (calls cell)\<rparr>, w')))"

subsection \<open>Endpoints (openapi_endpoint.ts)\<close>

text \<open>
  The endpoint index by path and method. An endpoint keeps its configuration and its
  request schemas; the response schemas serve the client only and are left out.
\<close>

record openapi_endpoint =
  ep_config :: route_config
  ep_query :: "query_schema list option"
  ep_params :: "(string \<times> zod) list option"
  ep_headers :: "(string \<times> zod) list option"
  ep_body :: "zod option"

type_synonym openapi_endpoints = "string \<rightharpoonup> (string \<rightharpoonup> openapi_endpoint)"

definition endpoints_get :: "openapi_endpoints \<Rightarrow> string \<Rightarrow> string \<Rightarrow> openapi_endpoint option" where
  "endpoints_get eps p m = (case eps p of None \<Rightarrow> None | Some byMethod \<Rightarrow> byMethod m)"

definition endpoint :: "route_config \<Rightarrow> openapi_endpoints \<Rightarrow> openapi_endpoints" where
  "endpoint config eps =
     (let e = \<lparr>ep_config = config,
                ep_query = extractRequestQuerySchema config,
                ep_params = extractRequestParamsSchema config,
                ep_headers = extractRequestParamsSchema config,
                ep_body = extractRequestBodySchema config\<rparr>;
          byMethod = (case eps (cfg_path config) of None \<Rightarrow> Map.empty | Some m \<Rightarrow> m)
      in eps(cfg_path config \<mapsto> byMethod(cfg_method config \<mapsto> e)))"

subsection \<open>The route table\<close>

record method_routes =
  byPathTemplateMap :: "string \<rightharpoonup> openapi_route"
  byPathMap :: "string \<rightharpoonup> openapi_route"
  patternList :: "openapi_route list"

record openapi_router =
  endpoints :: openapi_endpoints
  defaultValidationErrorHandler :: "source \<Rightarrow> zod_error \<Rightarrow> response"
  registry :: openapi_registry
  routesByUppercasedMethodMap :: "string \<rightharpoonup> method_routes"
  memorizedDocs :: "typed_response memo_cell"

definition default_defaultValidationErrorHandler :: "source \<Rightarrow> zod_error \<Rightarrow> response" where
  "default_defaultValidationErrorHandler src error =
     \<lparr>status = 400,
      resp_headers = [(''Content-Type'', ''application/json'')],
      resp_body = BodyJson (JObj [(''message'', JStr ''Request validation failed''),
                                  (''source'', JStr (source_name src)),
                                  (''errors'', JArr error)])\<rparr>"

definition notFound :: response where
  "notFound = \<lparr>status = 404, resp_headers = [], resp_body = BodyText ''Not found''\<rparr>"

definition addRoute :: "route_config \<Rightarrow> openapi_route \<Rightarrow> openapi_router \<Rightarrow> openapi_router" where
  "addRoute config route this =
     (let upperCasedMethod = toUpperCase (cfg_method config);
          routes = (case routesByUppercasedMethodMap this upperCasedMethod of
                      None \<Rightarrow> \<lparr>byPathTemplateMap = Map.empty, byPathMap = Map.empty, patternList = []\<rparr>
                    | Some r \<Rightarrow> r);
          routes1 = routes\<lparr>byPathTemplateMap := (byPathTemplateMap routes)(cfg_path config \<mapsto> route)\<rparr>;
          routes2 = (if urlPattern route \<noteq> None
                     then routes1\<lparr>patternList := patternList routes1 @ [route]\<rparr>
                     else routes1\<lparr>byPathMap := (byPathMap routes1)(path route \<mapsto> route)\<rparr>)
      in this\<lparr>routesByUppercasedMethodMap := (routesByUppercasedMethodMap this)(upperCasedMethod \<mapsto> routes2),
              registry := registerPath
                 (config\<lparr>cfg_responses :=
                    Some (case cfg_responses config of
                            None \<Rightarrow> [(''200'', \<lparr>rc_headers = None, rc_content = None,
                                                 rc_rest = [(''description'', JStr ''OK'')]\<rparr>)]
                          | Some r \<Rightarrow> r)\<rparr>)
                 (registry this)\<rparr>)"

definition new_OpenapiRouter ::
  "(string \<Rightarrow> url_pattern) \<Rightarrow> openapi_endpoints \<Rightarrow> openapi_registry \<Rightarrow>
   (source \<Rightarrow> zod_error \<Rightarrow> response) option \<Rightarrow> string \<Rightarrow> openapi_router" where
  "new_OpenapiRouter new_URLPattern eps reg dveh openapiSpecPath =
     (let this = \<lparr>endpoints = eps,
                   defaultValidationErrorHandler = default_defaultValidationErrorHandler,
                   registry = reg,
                   routesByUppercasedMethodMap = Map.empty,
                   memorizedDocs = \<lparr>memoized = None, calls = 0\<rparr>\<rparr>;
          this1 = addRoute
                    \<lparr>cfg_method = ''get'', cfg_path = openapiSpecPath, cfg_request = None,
                     cfg_responses = Some [(''200'',
                        \<lparr>rc_headers = None,
                         rc_content = Some [(''application/json'',
                            \<lparr>mt_schema = ZodSchema (Zod ZodUnknown None None), mt_rest = []\<rparr>)],
                         rc_rest = [(''description'', JStr ''OpenAPI v3 specification'')]\<rparr>)],
                     cfg_rest = []\<rparr>
                    \<lparr>path = openapiSpecPath,
                     urlPattern = Some (new_URLPattern (toPatternPath openapiSpecPath)),
                     paramSchemas = None, querySchemas = None, headerSchemas = None, bodySchema = None,
                     validationErrorHandler = dveh,
                     handler = DocsHandler\<rparr>
                    this
      in case dveh of
           Some h \<Rightarrow> this1\<lparr>defaultValidationErrorHandler := h\<rparr>
         | None \<Rightarrow> this1)"

text \<open>
  The private \<open>method\<close> behind \<open>get\<close>, \<open>put\<close>, \<open>post\<close>, \<open>patch\<close> and \<open>delete\<close>: it refuses
  a second route for a method and path template, and an endpoint that is not defined.
\<close>

definition registerMethod ::
  "(string \<Rightarrow> url_pattern) \<Rightarrow> string \<Rightarrow> string \<Rightarrow> (request_context \<Rightarrow> exn + typed_response) \<Rightarrow>
   (source \<Rightarrow> zod_error \<Rightarrow> response) option \<Rightarrow> openapi_router \<Rightarrow> exn + openapi_router" where
  "registerMethod new_URLPattern m p h veh this =
     (let upperCasedMethod = toUpperCase m
      in if (case routesByUppercasedMethodMap this upperCasedMethod of
               None \<Rightarrow> False
             | Some routes \<Rightarrow> byPathTemplateMap routes p \<noteq> None)
         then Inl (JsError (''Duplicate route for the combination of method='' @ m @ '' path='' @ p))
         else
           (case endpoints_get (endpoints this) p m of
              None \<Rightarrow> Inl (JsError (''Defect: endpoint not found path='' @ p @ '' method='' @ m))
            | Some ep \<Rightarrow>
               (let config = ep_config ep;
                    patternPath = toPatternPath p;
                    route = \<lparr>path = p,
                             urlPattern = (if p \<noteq> patternPath then Some (new_URLPattern patternPath) else None),
                             paramSchemas = extractRequestParamsSchema config,
                             querySchemas = extractRequestQuerySchema config,
                             headerSchemas = extractRequestHeadersSchema config,
                             bodySchema = extractRequestBodySchema config,
                             validationErrorHandler = veh,
                             handler = Handler h\<rparr>
                in Inr (addRoute config route this))))"

subsection \<open>Handling a request\<close>

text \<open>
  \<open>Object.fromEntries(request.headers.entries())\<close>: a \<open>Headers\<close> object lists every name in
  lower case once, the values of a repeated name joined by a comma. The order of the
  entries is immaterial, since the object is only read by key.
\<close>

definition headers_entries :: "(string \<times> string) list \<Rightarrow> (string \<times> string) list" where
  "headers_entries hs =
     foldl (\<lambda>acc (name, v).
              case map_of acc (toLowerCase name) of
                None \<Rightarrow> acc @ [(toLowerCase name, v)]
              | Some old \<Rightarrow> AList.update (toLowerCase name) (old @ '', '' @ v) acc) [] hs"

definition strProp :: "(string \<times> string) list \<Rightarrow> string \<Rightarrow> json" where
  "strProp object k = (case map_of object k of None \<Rightarrow> JUndefined | Some v \<Rightarrow> JStr v)"

text \<open>
  The calls that \<open>handle\<close> makes, in order: \<open>request.json()\<close>, each
  \<open>schema.safeParse(raw)\<close> with its channel, key (none for the body) and raw value, and
  the call of the route's handler.
\<close>

datatype event = JsonRead | SafeParse source "string option" json | Invoke

text \<open>
  The loops over the declared path parameters and headers (\<open>validateEntries\<close>, reading
  the raw value of a key from an object) and over the query parameters. A failed
  \<open>safeParse\<close> ends the loop, and \<open>handle\<close>, with the error.
\<close>

fun validateEntries ::
  "safe_parse \<Rightarrow> source \<Rightarrow> (string \<times> string) list \<Rightarrow> (string \<times> zod) list \<Rightarrow> (string \<times> json) list \<Rightarrow>
   (zod_error + (string \<times> json) list) \<times> event list" where
  "validateEntries sp src raw [] validated = (Inr validated, [])"
| "validateEntries sp src raw ((key, schema) # rest) validated =
     (case sp schema (strProp raw key) of
        Inr data \<Rightarrow>
          (case validateEntries sp src raw rest (validated @ [(key, data)]) of
             (result, trace) \<Rightarrow> (result, SafeParse src (Some key) (strProp raw key) # trace))
      | Inl error \<Rightarrow> (Inl error, [SafeParse src (Some key) (strProp raw key)]))"

fun validateQuery ::
  "safe_parse \<Rightarrow> (string \<times> string) list \<Rightarrow> query_schema list \<Rightarrow> (string \<times> json) list \<Rightarrow>
   (zod_error + (string \<times> json) list) \<times> event list" where
  "validateQuery sp searchParams [] validated = (Inr validated, [])"
| "validateQuery sp searchParams (q # rest) validated =
     (let rawValue = queryRawValue searchParams q
      in case sp (qs_schema q) rawValue of
           Inr data \<Rightarrow>
             (case validateQuery sp searchParams rest (validated @ [(qs_key q, data)]) of
                (result, trace) \<Rightarrow> (result, SafeParse Query (Some (qs_key q)) rawValue # trace))
         | Inl error \<Rightarrow> (Inl error, [SafeParse Query (Some (qs_key q)) rawValue]))"

definition toResponse :: "typed_response \<Rightarrow> response" where
  "toResponse r =
     (case r of
        RawResponse resp \<Rightarrow> resp
      | ServerResponse st mediaType d hdrs \<Rightarrow>
          (let body = (if mediaType = ''application/json'' then BodyJson d else BodyData d);
               headers = headers_entries (case hdrs of None \<Rightarrow> [] | Some h \<Rightarrow> h);
               headers' = (case map_of headers ''content-type'' of
                             None \<Rightarrow> headers @ [(''content-type'', mediaType)]
                           | Some v \<Rightarrow> if v = [] then AList.update ''content-type'' mediaType headers
                                       else headers)
           in \<lparr>status = st, resp_headers = headers', resp_body = body\<rparr>))"

datatype outcome = Resolved response | Rejected exn

text \<open>
  The \<open>create\<close> function of the document endpoint: an exception of the generator leaves
  it as an exception, before any promise exists.
\<close>

definition docsCreate :: "safe_parse \<Rightarrow> openapi_registry \<Rightarrow> unit \<Rightarrow> (exn + typed_response) \<times> unit" where
  "docsCreate sp reg = (\<lambda>u.
     (case generateDocument sp (new_OpenapiGenerator (definitions reg))
             [(''openapi'', JStr ''3.0.0''),
              (''info'', JObj [(''title'', JStr ''Test''), (''version'', JStr ''1.0.0'')])] of
        Inl e \<Rightarrow> Inl (GeneratorError e)
      | Inr document \<Rightarrow> Inr (ServerResponse 200 ''application/json'' (JObj document) None), u))"

definition invoke ::
  "safe_parse \<Rightarrow> openapi_router \<Rightarrow> route_handler \<Rightarrow> request_context \<Rightarrow> (exn + typed_response) \<times> openapi_router" where
  "invoke sp this h ctx =
     (case h of
        Handler f \<Rightarrow> (f ctx, this)
      | DocsHandler \<Rightarrow>
          (case memoizePromise (docsCreate sp (registry this)) (memorizedDocs this, ()) of
             (result, cell, u) \<Rightarrow> (result, this\<lparr>memorizedDocs := cell\<rparr>)))"

text \<open>
  Matching: the exact path first, then the first pattern route that matches. Every
  route of \<open>patternList\<close> has a pattern (\<open>addRoute\<close> appends no other), so the case
  without one is never taken.
\<close>

definition urlPattern_test :: "openapi_route \<Rightarrow> string \<Rightarrow> bool" where
  "urlPattern_test r pathname = (case urlPattern r of None \<Rightarrow> False | Some pat \<Rightarrow> pat pathname \<noteq> None)"

definition matchRoute ::
  "method_routes \<Rightarrow> string \<Rightarrow> (openapi_route \<times> (string \<times> string) list option) option" where
  "matchRoute routes pathname =
     (case byPathMap routes pathname of
        Some r \<Rightarrow> Some (r, None)
      | None \<Rightarrow>
          (case find (\<lambda>r. urlPattern_test r pathname) (patternList routes) of
             None \<Rightarrow> None
           | Some r \<Rightarrow> Some (r, case urlPattern r of None \<Rightarrow> None | Some pat \<Rightarrow> pat pathname)))"

text \<open>
  The part of \<open>handle\<close> after a route has matched: the body is read first, then the
  four channels are validated in order, then the handler is called. The result is the
  outcome with the calls made, and the router (changed by the document endpoint only).
\<close>

definition validateAndDispatch ::
  "safe_parse \<Rightarrow> openapi_router \<Rightarrow> openapi_route \<Rightarrow> (string \<times> string) list option \<Rightarrow> request \<Rightarrow> conn_info \<Rightarrow>
   (outcome \<times> event list) \<times> openapi_router" where
  "validateAndDispatch sp this matchedRoute params request connInfo =
     (let onError =
            (case validationErrorHandler matchedRoute of
               Some h \<Rightarrow> h
             | None \<Rightarrow> defaultValidationErrorHandler this);
          searchParams = req_searchParams request;
          headers = headers_entries (req_headers request)
      in case (case bodySchema matchedRoute of
                 None \<Rightarrow> (Inr (Stream (req_payload request)), [])
               | Some s \<Rightarrow>
                   (case req_payload request of
                      Json v \<Rightarrow> (Inr (Parsed v), [JsonRead])
                    | _ \<Rightarrow> (Inl SyntaxError, [JsonRead]))) of
           (Inl e, t0) \<Rightarrow> ((Rejected e, t0), this)
         | (Inr body, t0) \<Rightarrow>
            (case (case paramSchemas matchedRoute of
                     None \<Rightarrow> (Inr [], [])
                   | Some ps \<Rightarrow>
                       validateEntries sp Params (case params of None \<Rightarrow> [] | Some g \<Rightarrow> g) ps []) of
               (Inl error, t1) \<Rightarrow> ((Resolved (onError Params error), t0 @ t1), this)
             | (Inr validatedParams, t1) \<Rightarrow>
                (case (case querySchemas matchedRoute of
                         None \<Rightarrow> (Inr [], [])
                       | Some qs \<Rightarrow> validateQuery sp searchParams qs []) of
                   (Inl error, t2) \<Rightarrow> ((Resolved (onError Query error), t0 @ t1 @ t2), this)
                 | (Inr validatedQuery, t2) \<Rightarrow>
                    (case (case headerSchemas matchedRoute of
                             None \<Rightarrow> (Inr [], [])
                           | Some hs \<Rightarrow> validateEntries sp Headers headers hs []) of
                       (Inl error, t3) \<Rightarrow>
                         ((Resolved (onError Headers error), t0 @ t1 @ t2 @ t3), this)
                     | (Inr validatedHeaders, t3) \<Rightarrow>
                        (case (case bodySchema matchedRoute of
                                 None \<Rightarrow> (Inr body, [])
                               | Some s \<Rightarrow>
                                   (case body of
                                      Parsed v \<Rightarrow>
                                        (case sp s v of
                                           Inr data \<Rightarrow> (Inr (Parsed data), [SafeParse Body None v])
                                         | Inl error \<Rightarrow> (Inl error, [SafeParse Body None v]))
                                    | Stream p \<Rightarrow> (Inr body, []))) of
                           (Inl error, t4) \<Rightarrow>
                             ((Resolved (onError Body error), t0 @ t1 @ t2 @ t3 @ t4), this)
                         | (Inr validatedBody, t4) \<Rightarrow>
                            (let ctx = \<lparr>ctx_url = (req_pathname request, searchParams),
                                        ctx_params = fromEntries validatedParams,
                                        ctx_query = fromEntries validatedQuery,
                                        ctx_headers = fromEntries validatedHeaders,
                                        ctx_body = validatedBody,
                                        ctx_request = request,
                                        ctx_connInfo = connInfo\<rparr>
                             in case invoke sp this (handler matchedRoute) ctx of
                                  (Inl e, this') \<Rightarrow>
                                    ((Rejected e, t0 @ t1 @ t2 @ t3 @ t4 @ [Invoke]), this')
                                | (Inr typedResponse, this') \<Rightarrow>
                                    ((Resolved (toResponse typedResponse), t0 @ t1 @ t2 @ t3 @ t4 @ [Invoke]),
                                     this')))))))"

definition handle ::
  "safe_parse \<Rightarrow> openapi_router \<Rightarrow> request \<Rightarrow> conn_info \<Rightarrow> (outcome \<times> event list) \<times> openapi_router" where
  "handle sp this request connInfo =
     (case routesByUppercasedMethodMap this (req_method request) of
        None \<Rightarrow> ((Resolved notFound, []), this)
      | Some routes \<Rightarrow>
          (case matchRoute routes (req_pathname request) of
             None \<Rightarrow> ((Resolved notFound, []), this)
           | Some (matchedRoute, params) \<Rightarrow>
               validateAndDispatch sp this matchedRoute params request connInfo))"

section \<open>Stripping wrapper layers, as the specification words it\<close>


section \<open>The validation order, as the specification words it\<close>

text \<open>
  A check is one validation step: its channel, its key (none for the body), its schema
  and the raw value. The planned checks of a matched route are those of the path
  parameters, then the query, then the headers, then the body. \<open>runChecks\<close> is the
  pipeline of the specification: the steps run in order, and the first failing step ends
  the run with its channel and error. These definitions follow the specification; the
  theorems below compare \<open>handle\<close> with them.
\<close>

type_synonym check = "source \<times> string option \<times> zod \<times> json"

fun check_event :: "check \<Rightarrow> event" where
  "check_event (src, key, schema, raw) = SafeParse src key raw"

fun failing :: "safe_parse \<Rightarrow> check \<Rightarrow> bool" where
  "failing sp (src, key, schema, raw) = isl (sp schema raw)"

fun check_error :: "safe_parse \<Rightarrow> check \<Rightarrow> source \<times> zod_error" where
  "check_error sp (src, key, schema, raw) = (src, projl (sp schema raw))"

definition entryChecks :: "source \<Rightarrow> (string \<times> string) list \<Rightarrow> (string \<times> zod) list \<Rightarrow> check list" where
  "entryChecks src raw es = map (\<lambda>(key, schema). (src, Some key, schema, strProp raw key)) es"

definition queryChecks :: "(string \<times> string) list \<Rightarrow> query_schema list \<Rightarrow> check list" where
  "queryChecks searchParams qs =
     map (\<lambda>q. (Query, Some (qs_key q), qs_schema q, queryRawValue searchParams q)) qs"

definition bodyChecks :: "zod option \<Rightarrow> payload \<Rightarrow> check list" where
  "bodyChecks schema p =
     (case schema of
        None \<Rightarrow> []
      | Some s \<Rightarrow> (case p of Json v \<Rightarrow> [(Body, None, s, v)] | _ \<Rightarrow> []))"

definition plannedChecks :: "openapi_route \<Rightarrow> (string \<times> string) list option \<Rightarrow> request \<Rightarrow> check list" where
  "plannedChecks r params request =
     entryChecks Params (case params of None \<Rightarrow> [] | Some g \<Rightarrow> g)
       (case paramSchemas r of None \<Rightarrow> [] | Some ps \<Rightarrow> ps)
     @ queryChecks (req_searchParams request) (case querySchemas r of None \<Rightarrow> [] | Some qs \<Rightarrow> qs)
     @ entryChecks Headers (headers_entries (req_headers request))
         (case headerSchemas r of None \<Rightarrow> [] | Some hs \<Rightarrow> hs)
     @ bodyChecks (bodySchema r) (req_payload request)"

fun runChecks :: "safe_parse \<Rightarrow> check list \<Rightarrow> (source \<times> zod_error) option \<times> event list" where
  "runChecks sp [] = (None, [])"
| "runChecks sp ((src, key, schema, raw) # cs) =
     (case sp schema raw of
        Inl error \<Rightarrow> (Some (src, error), [SafeParse src key raw])
      | Inr data \<Rightarrow> (case runChecks sp cs of (r, trace) \<Rightarrow> (r, SafeParse src key raw # trace)))"

text \<open>The error handler of a route, and the read of the body that precedes validation.\<close>

definition errorHandlerOf :: "openapi_router \<Rightarrow> openapi_route \<Rightarrow> source \<Rightarrow> zod_error \<Rightarrow> response" where
  "errorHandlerOf this r =
     (case validationErrorHandler r of Some h \<Rightarrow> h | None \<Rightarrow> defaultValidationErrorHandler this)"

definition bodyRead :: "openapi_route \<Rightarrow> event list" where
  "bodyRead r = (case bodySchema r of None \<Rightarrow> [] | Some s \<Rightarrow> [JsonRead])"

definition bodyReadable :: "openapi_route \<Rightarrow> request \<Rightarrow> bool" where
  "bodyReadable r request =
     (case bodySchema r of
        None \<Rightarrow> True
      | Some s \<Rightarrow> (case req_payload request of Json v \<Rightarrow> True | _ \<Rightarrow> False))"

section \<open>Sequences of calls of a memoized thunk\<close>

text \<open>
  The results and the final state of \<open>n\<close> successive calls of a thunk. The thunk runs to
  its end at each call (it never awaits), so calls made before the promise settles are
  calls of such a sequence like any others.
\<close>

fun callTimes :: "('s \<Rightarrow> 'r \<times> 's) \<Rightarrow> nat \<Rightarrow> 's \<Rightarrow> 'r list \<times> 's" where
  "callTimes thunk 0 st = ([], st)"
| "callTimes thunk (Suc n) st =
     (case thunk st of (r, st') \<Rightarrow> (case callTimes thunk n st' of (rs, st'') \<Rightarrow> (r # rs, st'')))"

section \<open>Sample data\<close>

text \<open>
  Concrete instances of the two parameters, for the closed examples below: a validator
  that checks only the top-level kind of a value (without coercion), and a pattern
  constructor for templates whose placeholders are whole path segments.
\<close>

definition sampleParse :: safe_parse where
  "sampleParse schema v =
     (case zdef schema of
        ZodString cs \<Rightarrow> (case v of JStr s \<Rightarrow> Inr v | _ \<Rightarrow> Inl [JStr ''Expected string''])
      | ZodNumber i mn mx \<Rightarrow> (case v of JNum n \<Rightarrow> Inr v | _ \<Rightarrow> Inl [JStr ''Expected number''])
      | ZodBoolean \<Rightarrow> (case v of JBool b \<Rightarrow> Inr v | _ \<Rightarrow> Inl [JStr ''Expected boolean''])
      | ZodArray t mn mx \<Rightarrow> (case v of JArr xs \<Rightarrow> Inr v | _ \<Rightarrow> Inl [JStr ''Expected array''])
      | ZodObject shape uk \<Rightarrow> (case v of JObj kvs \<Rightarrow> Inr v | _ \<Rightarrow> Inl [JStr ''Expected object''])
      | _ \<Rightarrow> Inr v)"

fun splitPath :: "string \<Rightarrow> string list" where
  "splitPath [] = [[]]"
| "splitPath (c # cs) =
     (if c = CHR ''/'' then [] # splitPath cs
      else (case splitPath cs of [] \<Rightarrow> [[c]] | seg # segs \<Rightarrow> (c # seg) # segs))"

fun matchSegments :: "string list \<Rightarrow> string list \<Rightarrow> (string \<times> string) list option" where
  "matchSegments [] [] = Some []"
| "matchSegments (p # ps) (s # ss) =
     (case p of
        c # name \<Rightarrow>
          (if c = CHR '':'' then
             (if s = [] then None
              else (case matchSegments ps ss of None \<Rightarrow> None | Some g \<Rightarrow> Some ((name, s) # g)))
           else if p = s then matchSegments ps ss else None)
      | [] \<Rightarrow> (if s = [] then matchSegments ps ss else None))"
| "matchSegments ps ss = None"

definition samplePattern :: "string \<Rightarrow> url_pattern" where
  "samplePattern p = (\<lambda>pathname. matchSegments (splitPath p) (splitPath pathname))"

definition zString :: zod where
  "zString = Zod (ZodString []) None None"

definition zNumber :: zod where
  "zNumber = Zod (ZodNumber False None None) None None"



definition sampleList :: route_config where
  "sampleList = \<lparr>cfg_method = ''get'', cfg_path = ''/users/list'', cfg_request = None,
                  cfg_responses = None, cfg_rest = []\<rparr>"

definition sampleGet :: route_config where
  "sampleGet = \<lparr>cfg_method = ''get'', cfg_path = ''/users/{id}'',
                 cfg_request = Some \<lparr>rq_body = None, rq_params = Some [(''id'', zString)],
                                      rq_query = None, rq_headers = None\<rparr>,
                 cfg_responses = None, cfg_rest = []\<rparr>"

definition samplePost :: route_config where
  "samplePost = \<lparr>cfg_method = ''post'', cfg_path = ''/users/{id}'',
                  cfg_request = Some
                    \<lparr>rq_body = Some \<lparr>rb_content = [(''application/json'',
                                         \<lparr>mt_schema = ZodSchema zNumber, mt_rest = []\<rparr>)],
                                      rb_rest = []\<rparr>,
                     rq_params = Some [(''id'', zNumber)],
                     rq_query = None, rq_headers = None\<rparr>,
                  cfg_responses = None, cfg_rest = []\<rparr>"

definition samplePut :: route_config where
  "samplePut = \<lparr>cfg_method = ''put'', cfg_path = ''/users/{id}'',
                 cfg_request = Some
                   \<lparr>rq_body = Some \<lparr>rb_content = [(''application/json'',
                                        \<lparr>mt_schema = ZodSchema zNumber, mt_rest = []\<rparr>)],
                                     rb_rest = []\<rparr>,
                    rq_params = Some [(''id'', zString)],
                    rq_query = Some [(''tag'', Zod (ZodOptional (Zod (ZodArray zString None None) None None)) None None),
                                     (''dryRun'', zString)],
                    rq_headers = Some [(''X-Some-Uuid'', zString)]\<rparr>,
                 cfg_responses = None, cfg_rest = []\<rparr>"

definition samplePatch :: route_config where
  "samplePatch = \<lparr>cfg_method = ''patch'', cfg_path = ''/notes'',
                   cfg_request = Some
                     \<lparr>rq_body = Some \<lparr>rb_content = [(''application/json'',
                                          \<lparr>mt_schema = ZodSchema zNumber, mt_rest = []\<rparr>)],
                                       rb_rest = []\<rparr>,
                      rq_params = None, rq_query = None, rq_headers = None\<rparr>,
                   cfg_responses = None, cfg_rest = []\<rparr>"

definition sampleEndpoints :: openapi_endpoints where
  "sampleEndpoints =
     endpoint samplePatch
       (endpoint samplePut (endpoint samplePost (endpoint sampleGet (endpoint sampleList Map.empty))))"

definition echo :: "string \<Rightarrow> request_context \<Rightarrow> exn + typed_response" where
  "echo name ctx = Inr (ServerResponse 200 ''text/plain'' (JStr name) None)"

text \<open>A router with the pattern route registered before the exact route of the same method.\<close>

definition sampleRouter :: openapi_router where
  "sampleRouter =
     (let r0 = new_OpenapiRouter samplePattern sampleEndpoints (OpenapiRegistry [] []) None ''/docs/openapi''
      in case registerMethod samplePattern ''get'' ''/users/{id}'' (echo ''get user'') None r0 of
           Inl e \<Rightarrow> r0
         | Inr r1 \<Rightarrow>
            (case registerMethod samplePattern ''get'' ''/users/list'' (echo ''list users'') None r1 of
               Inl e \<Rightarrow> r1
             | Inr r2 \<Rightarrow>
                (case registerMethod samplePattern ''post'' ''/users/{id}'' (echo ''post user'') None r2 of
                   Inl e \<Rightarrow> r2
                 | Inr r3 \<Rightarrow>
                    (case registerMethod samplePattern ''put'' ''/users/{id}'' (echo ''put user'') None r3 of
                       Inl e \<Rightarrow> r3
                     | Inr r4 \<Rightarrow>
                        (case registerMethod samplePattern ''patch'' ''/notes'' (echo ''patch note'') None r4 of
                           Inl e \<Rightarrow> r4
                         | Inr r5 \<Rightarrow> r5)))))"

text \<open>The routes of the sample router.\<close>

definition docsRoute :: openapi_route where
  "docsRoute = \<lparr>path = ''/docs/openapi'', urlPattern = Some (samplePattern ''/docs/openapi''),
                 paramSchemas = None, querySchemas = None, headerSchemas = None, bodySchema = None,
                 validationErrorHandler = None, handler = DocsHandler\<rparr>"

definition getRoute :: openapi_route where
  "getRoute = \<lparr>path = ''/users/{id}'', urlPattern = Some (samplePattern ''/users/:id''),
                paramSchemas = Some [(''id'', zString)], querySchemas = None, headerSchemas = None,
                bodySchema = None, validationErrorHandler = None, handler = Handler (echo ''get user'')\<rparr>"

definition listRoute :: openapi_route where
  "listRoute = \<lparr>path = ''/users/list'', urlPattern = None,
                paramSchemas = None, querySchemas = None, headerSchemas = None,
                bodySchema = None, validationErrorHandler = None, handler = Handler (echo ''list users'')\<rparr>"

definition postRoute :: openapi_route where
  "postRoute = \<lparr>path = ''/users/{id}'', urlPattern = Some (samplePattern ''/users/:id''),
                paramSchemas = Some [(''id'', zNumber)], querySchemas = None, headerSchemas = None,
                bodySchema = Some zNumber, validationErrorHandler = None, handler = Handler (echo ''post user'')\<rparr>"

definition putRoute :: openapi_route where
  "putRoute = \<lparr>path = ''/users/{id}'', urlPattern = Some (samplePattern ''/users/:id''),
                paramSchemas = Some [(''id'', zString)],
                querySchemas = Some [\<lparr>qs_key = ''tag'',
                                      qs_schema = Zod (ZodOptional (Zod (ZodArray zString None None) None None)) None None,
                                      qs_isArray = True\<rparr>,
                                     \<lparr>qs_key = ''dryRun'', qs_schema = zString, qs_isArray = False\<rparr>],
                headerSchemas = Some [(''X-Some-Uuid'', zString)],
                bodySchema = Some zNumber, validationErrorHandler = None, handler = Handler (echo ''put user'')\<rparr>"

definition patchRoute :: openapi_route where
  "patchRoute = \<lparr>path = ''/notes'', urlPattern = None,
                  paramSchemas = None, querySchemas = None, headerSchemas = None,
                  bodySchema = Some zNumber, validationErrorHandler = None,
                  handler = Handler (echo ''patch note'')\<rparr>"

text \<open>A router over a registry whose only schema is of a class the generator cannot convert.\<close>

definition brokenRouter :: openapi_router where
  "brokenRouter =
     new_OpenapiRouter samplePattern Map.empty
       (snd (register ''When'' (Zod (ZodOther ''ZodDate'') None None) (OpenapiRegistry [] [])))
       None ''/docs/openapi''"

text \<open>A router with no route but the document endpoint, over an empty registry.\<close>

definition docsRouter :: openapi_router where
  "docsRouter = new_OpenapiRouter samplePattern Map.empty (OpenapiRegistry [] []) None ''/docs/openapi''"

definition docsRequest :: request where
  "docsRequest = \<lparr>req_method = ''GET'', req_pathname = ''/docs/openapi'', req_searchParams = [],
                   req_headers = [], req_payload = NoPayload\<rparr>"

text \<open>
  A registry with a schema \<open>X\<close>, then a raw component of the same name, then two raw
  components \<open>Y\<close>.
\<close>

definition componentsRegistry :: openapi_registry where
  "componentsRegistry =
     snd (registerComponent ''schemas'' ''Y'' (JObj [(''type'', JStr ''number'')])
       (snd (registerComponent ''schemas'' ''Y'' (JObj [(''type'', JStr ''boolean'')])
         (snd (registerComponent ''schemas'' ''X'' (JObj [(''type'', JStr ''integer'')])
           (snd (register ''X'' zString (OpenapiRegistry [] []))))))))"

text \<open>
  A header parameter registered as \<open>TraceId\<close>, and two routes that use the registered
  schema: one in the query section, one in the header section under another name.
\<close>

definition conflictParameter :: zod where
  "conflictParameter = Zod (ZodString []) (Some [(''param'', JObj [(''in'', JStr ''header'')])]) None"

definition traceId :: zod where
  "traceId = fst (registerParameter ''TraceId'' conflictParameter (OpenapiRegistry [] []))"

definition traceIdRegistry :: openapi_registry where
  "traceIdRegistry = snd (registerParameter ''TraceId'' conflictParameter (OpenapiRegistry [] []))"

definition okResponses :: "(string \<times> zod_response_config) list" where
  "okResponses = [(''200'', \<lparr>rc_headers = None, rc_content = None, rc_rest = [(''description'', JStr ''OK'')]\<rparr>)]"

definition queryRoute :: route_config where
  "queryRoute = \<lparr>cfg_method = ''get'', cfg_path = ''/items'',
                  cfg_request = Some \<lparr>rq_body = None, rq_params = None,
                                        rq_query = Some [(''TraceId'', traceId)], rq_headers = None\<rparr>,
                  cfg_responses = Some okResponses, cfg_rest = []\<rparr>"

definition headerRoute :: route_config where
  "headerRoute = \<lparr>cfg_method = ''get'', cfg_path = ''/items'',
                   cfg_request = Some \<lparr>rq_body = None, rq_params = None, rq_query = None,
                                         rq_headers = Some [(''Other'', traceId)]\<rparr>,
                   cfg_responses = Some okResponses, cfg_rest = []\<rparr>"










section \<open>The components section and the registrations\<close>

text \<open>
  The terms in which the precedence of the components section is stated: the raw
  components of a list of definitions and the reference ids of its schema and parameter
  definitions, in the order of the list; the raw component registered last under a
  kind and a name; the entry of a document's components section.
\<close>

fun componentsOf :: "openapi_definition list \<Rightarrow> (string \<times> string \<times> json) list" where
  "componentsOf [] = []"
| "componentsOf (Component componentType name component # ds) = (componentType, name, component) # componentsOf ds"
| "componentsOf (Schema s # ds) = componentsOf ds"
| "componentsOf (Parameter s # ds) = componentsOf ds"
| "componentsOf (Route r # ds) = componentsOf ds"

definition refIdOf :: "zod \<Rightarrow> string option" where
  "refIdOf zodSchema =
     (let refId = getProp (getMetadata zodSchema) ''refId''
      in if truthy refId then Some (toStr refId) else None)"

fun schemaRefIds :: "openapi_definition list \<Rightarrow> string list" where
  "schemaRefIds [] = []"
| "schemaRefIds (Schema s # ds) = (case refIdOf s of None \<Rightarrow> [] | Some n \<Rightarrow> [n]) @ schemaRefIds ds"
| "schemaRefIds (Component t n c # ds) = schemaRefIds ds"
| "schemaRefIds (Parameter s # ds) = schemaRefIds ds"
| "schemaRefIds (Route r # ds) = schemaRefIds ds"

fun parameterRefIds :: "openapi_definition list \<Rightarrow> string list" where
  "parameterRefIds [] = []"
| "parameterRefIds (Parameter s # ds) = (case refIdOf s of None \<Rightarrow> [] | Some n \<Rightarrow> [n]) @ parameterRefIds ds"
| "parameterRefIds (Component t n c # ds) = parameterRefIds ds"
| "parameterRefIds (Schema s # ds) = parameterRefIds ds"
| "parameterRefIds (Route r # ds) = parameterRefIds ds"

fun lastRegistered :: "string \<Rightarrow> string \<Rightarrow> (string \<times> string \<times> json) list \<Rightarrow> json option" where
  "lastRegistered kind name [] = None"
| "lastRegistered kind name ((componentType, n, component) # rest) =
     (case lastRegistered kind name rest of
        Some later \<Rightarrow> Some later
      | None \<Rightarrow> if componentType = kind \<and> n = name then Some component else None)"

definition componentOf :: "obj \<Rightarrow> string \<Rightarrow> string \<Rightarrow> json option" where
  "componentOf document kind name = map_of (entries (jsonProp (getProp document ''components'') kind)) name"

text \<open>
  An entry generated from a definition of the list: what \<open>generateSchemaDefinition\<close> stores
  for a schema definition with this reference id, what \<open>generateParameterDefinition\<close>
  stores for a parameter definition, for some state of the generator.
\<close>

inductive generatedSchema :: "safe_parse \<Rightarrow> openapi_definition list \<Rightarrow> string \<Rightarrow> json \<Rightarrow> bool" where
  "Schema zodSchema \<in> set ds \<Longrightarrow> refIdOf zodSchema = Some name \<Longrightarrow>
   generateSimpleSchema sp refs zodSchema = Inr simpleSchema \<Longrightarrow>
   generatedSchema sp ds name (JObj (applySchemaMetadata simpleSchema (getMetadata zodSchema)))"

inductive generatedParameter :: "safe_parse \<Rightarrow> openapi_definition list \<Rightarrow> string \<Rightarrow> json \<Rightarrow> bool" where
  "Parameter zodSchema \<in> set ds \<Longrightarrow> refIdOf zodSchema = Some name \<Longrightarrow>
   generateParameter sp this zodSchema = Inr result \<Longrightarrow>
   generatedParameter sp ds name (JObj result)"

text \<open>The body of the loop of \<open>buildComponents\<close> over the raw components.\<close>

definition rawStep :: "obj \<Rightarrow> string \<times> string \<times> json \<Rightarrow> obj" where
  "rawStep = (\<lambda>acc (componentType, name, component).
                 AList.update componentType
                   (JObj (AList.update name component (entries (getProp acc componentType)))) acc)"

text \<open>
  The name under which \<open>registerParameter\<close> registers a parameter whose \<open>param\<close> metadata
  is \<open>pm\<close>: the name of the metadata, or else the reference id.
\<close>

definition registeredName :: "obj \<Rightarrow> string \<Rightarrow> json" where
  "registeredName pm refId = nullish (getProp pm ''name'') (JStr refId)"


section \<open>The validation pipeline of the router\<close>

subsection \<open>The loops run the planned checks\<close>

lemma runChecks_append:
  "runChecks sp (xs @ ys) =
     (case runChecks sp xs of
        (Some f, tr) \<Rightarrow> (Some f, tr)
      | (None, tr) \<Rightarrow> (case runChecks sp ys of (r, tr') \<Rightarrow> (r, tr @ tr')))"
  by (induction xs) (auto split: sum.splits prod.splits option.splits)

lemma runChecks_find:
  "fst (runChecks sp cs) = map_option (check_error sp) (find (failing sp) cs)"
  by (induction cs) (auto split: sum.splits prod.splits)

lemma runChecks_trace:
  "snd (runChecks sp cs) =
     map check_event (case find (failing sp) cs of
                        None \<Rightarrow> cs
                      | Some c \<Rightarrow> takeWhile (\<lambda>c. \<not> failing sp c) cs @ [c])"
  by (induction cs) (auto split: sum.splits prod.splits option.splits)

lemma validateEntries_run:
  "snd (validateEntries sp src raw es acc) = snd (runChecks sp (entryChecks src raw es)) \<and>
   (case fst (runChecks sp (entryChecks src raw es)) of
      Some (s', e) \<Rightarrow> fst (validateEntries sp src raw es acc) = Inl e \<and> s' = src
    | None \<Rightarrow> \<not> isl (fst (validateEntries sp src raw es acc)))"
proof (induction es arbitrary: acc)
  case Nil
  show ?case by (simp add: entryChecks_def)
next
  case (Cons a es)
  obtain key schema where a: "a = (key, schema)" by (cases a)
  show ?case
  proof (cases "sp schema (strProp raw key)")
    case (Inl e)
    then show ?thesis by (simp add: a entryChecks_def)
  next
    case (Inr d)
    from Cons.IH [of "acc @ [(key, d)]"] Inr show ?thesis
      by (auto simp: a entryChecks_def split: prod.splits option.splits)
  qed
qed

lemma validateQuery_run:
  "snd (validateQuery sp searchParams qs acc) = snd (runChecks sp (queryChecks searchParams qs)) \<and>
   (case fst (runChecks sp (queryChecks searchParams qs)) of
      Some (s', e) \<Rightarrow> fst (validateQuery sp searchParams qs acc) = Inl e \<and> s' = Query
    | None \<Rightarrow> \<not> isl (fst (validateQuery sp searchParams qs acc)))"
proof (induction qs arbitrary: acc)
  case Nil
  show ?case by (simp add: queryChecks_def)
next
  case (Cons q qs)
  show ?case
  proof (cases "sp (qs_schema q) (queryRawValue searchParams q)")
    case (Inl e)
    then show ?thesis by (simp add: queryChecks_def)
  next
    case (Inr d)
    from Cons.IH [of "acc @ [(qs_key q, d)]"] Inr show ?thesis
      by (auto simp: queryChecks_def split: prod.splits option.splits)
  qed
qed

text \<open>The result of a loop, read off the specification's run of its checks.\<close>

lemma validateEntries_cases:
  obtains (fail) e tr where "runChecks sp (entryChecks src raw es) = (Some (src, e), tr)"
      "validateEntries sp src raw es acc = (Inl e, tr)"
  | (ok) vs tr where "runChecks sp (entryChecks src raw es) = (None, tr)"
      "validateEntries sp src raw es acc = (Inr vs, tr)"
proof (cases "runChecks sp (entryChecks src raw es)")
  case (Pair r tr)
  show ?thesis
  proof (cases r)
    case None
    with Pair validateEntries_run [of sp src raw es acc]
    have "snd (validateEntries sp src raw es acc) = tr"
      and "\<not> isl (fst (validateEntries sp src raw es acc))" by simp_all
    then obtain vs where "validateEntries sp src raw es acc = (Inr vs, tr)"
      by (cases "validateEntries sp src raw es acc"; cases "fst (validateEntries sp src raw es acc)") auto
    with None Pair ok show ?thesis by simp
  next
    case (Some f)
    obtain s' e where f: "f = (s', e)" by (cases f)
    with Some Pair validateEntries_run [of sp src raw es acc]
    have "snd (validateEntries sp src raw es acc) = tr"
      and "fst (validateEntries sp src raw es acc) = Inl e" and "s' = src" by simp_all
    then have "validateEntries sp src raw es acc = (Inl e, tr)" and "f = (src, e)"
      using f by (auto simp: prod_eq_iff)
    with Some Pair fail show ?thesis by simp
  qed
qed

lemma validateQuery_cases:
  obtains (fail) e tr where "runChecks sp (queryChecks searchParams qs) = (Some (Query, e), tr)"
      "validateQuery sp searchParams qs acc = (Inl e, tr)"
  | (ok) vs tr where "runChecks sp (queryChecks searchParams qs) = (None, tr)"
      "validateQuery sp searchParams qs acc = (Inr vs, tr)"
proof (cases "runChecks sp (queryChecks searchParams qs)")
  case (Pair r tr)
  show ?thesis
  proof (cases r)
    case None
    with Pair validateQuery_run [of sp searchParams qs acc]
    have "snd (validateQuery sp searchParams qs acc) = tr"
      and "\<not> isl (fst (validateQuery sp searchParams qs acc))" by simp_all
    then obtain vs where "validateQuery sp searchParams qs acc = (Inr vs, tr)"
      by (cases "validateQuery sp searchParams qs acc"; cases "fst (validateQuery sp searchParams qs acc)") auto
    with None Pair ok show ?thesis by simp
  next
    case (Some f)
    obtain s' e where f: "f = (s', e)" by (cases f)
    with Some Pair validateQuery_run [of sp searchParams qs acc]
    have "snd (validateQuery sp searchParams qs acc) = tr"
      and "fst (validateQuery sp searchParams qs acc) = Inl e" and "s' = Query" by simp_all
    then have "validateQuery sp searchParams qs acc = (Inl e, tr)" and "f = (Query, e)"
      using f by (auto simp: prod_eq_iff)
    with Some Pair fail show ?thesis by simp
  qed
qed

lemma opt_validateEntries:
  "(case x of None \<Rightarrow> (Inr [], []) | Some ps \<Rightarrow> validateEntries sp src raw ps []) =
   validateEntries sp src raw (case x of None \<Rightarrow> [] | Some ps \<Rightarrow> ps) []"
  by (cases x) simp_all

lemma opt_validateQuery:
  "(case x of None \<Rightarrow> (Inr [], []) | Some qs \<Rightarrow> validateQuery sp searchParams qs []) =
   validateQuery sp searchParams (case x of None \<Rightarrow> [] | Some qs \<Rightarrow> qs) []"
  by (cases x) simp_all

lemma validateAndDispatch_unreadable:
  assumes "\<not> bodyReadable r request"
  shows "validateAndDispatch sp this r params request connInfo = ((Rejected SyntaxError, [JsonRead]), this)"
  using assms
  by (auto simp: validateAndDispatch_def bodyReadable_def Let_def split: option.splits payload.splits)

lemma validateAndDispatch_run:
  assumes readable: "bodyReadable r request"
  shows "(case runChecks sp (plannedChecks r params request) of
            (Some (src, e), tr) \<Rightarrow>
              validateAndDispatch sp this r params request connInfo =
                ((Resolved (errorHandlerOf this r src e), bodyRead r @ tr), this)
          | (None, tr) \<Rightarrow>
              (\<exists>ctx. ctx_request ctx = request \<and> ctx_connInfo ctx = connInfo \<and>
                 validateAndDispatch sp this r params request connInfo =
                   (case invoke sp this (handler r) ctx of
                      (Inl e, this') \<Rightarrow> ((Rejected e, bodyRead r @ tr @ [Invoke]), this')
                    | (Inr t, this') \<Rightarrow> ((Resolved (toResponse t), bodyRead r @ tr @ [Invoke]), this'))))"
proof -
  let ?g = "case params of None \<Rightarrow> [] | Some g \<Rightarrow> g"
  let ?ps = "case paramSchemas r of None \<Rightarrow> [] | Some ps \<Rightarrow> ps"
  let ?qs = "case querySchemas r of None \<Rightarrow> [] | Some qs \<Rightarrow> qs"
  let ?hs = "case headerSchemas r of None \<Rightarrow> [] | Some hs \<Rightarrow> hs"
  let ?hd = "headers_entries (req_headers request)"
  let ?P = "entryChecks Params ?g ?ps"
  let ?Q = "queryChecks (req_searchParams request) ?qs"
  let ?H = "entryChecks Headers ?hd ?hs"
  let ?B = "bodyChecks (bodySchema r) (req_payload request)"
  have plan: "plannedChecks r params request = ?P @ ?Q @ ?H @ ?B"
    by (simp add: plannedChecks_def)
  show ?thesis
  proof (cases rule: validateEntries_cases [of sp Params ?g ?ps "[]"])
    case (fail e1 t1)
    then show ?thesis using readable
      by (auto simp: plan runChecks_append validateAndDispatch_def opt_validateEntries Let_def
            bodyReadable_def bodyRead_def errorHandlerOf_def split: option.splits payload.splits)
  next
    case ok1: (ok vs1 t1)
    show ?thesis
    proof (cases rule: validateQuery_cases [of sp "req_searchParams request" ?qs "[]"])
      case (fail e2 t2)
      then show ?thesis using readable ok1
        by (auto simp: plan runChecks_append validateAndDispatch_def opt_validateEntries
              opt_validateQuery Let_def
              bodyReadable_def bodyRead_def errorHandlerOf_def split: option.splits payload.splits)
    next
      case ok2: (ok vs2 t2)
      show ?thesis
      proof (cases rule: validateEntries_cases [of sp Headers ?hd ?hs "[]"])
        case (fail e3 t3)
        then show ?thesis using readable ok1 ok2
          by (auto simp: plan runChecks_append validateAndDispatch_def opt_validateEntries
                opt_validateQuery Let_def
                bodyReadable_def bodyRead_def errorHandlerOf_def split: option.splits payload.splits)
      next
        case ok3: (ok vs3 t3)
        show ?thesis
        proof (cases "bodySchema r")
          case None
          let ?ctx = "\<lparr>ctx_url = (req_pathname request, req_searchParams request),
                        ctx_params = fromEntries vs1, ctx_query = fromEntries vs2,
                        ctx_headers = fromEntries vs3, ctx_body = Stream (req_payload request),
                        ctx_request = request, ctx_connInfo = connInfo\<rparr>"
          have run: "runChecks sp (plannedChecks r params request) = (None, t1 @ t2 @ t3)"
            using ok1 ok2 ok3 None by (simp add: plan runChecks_append bodyChecks_def)
          have "validateAndDispatch sp this r params request connInfo =
                   (case invoke sp this (handler r) ?ctx of
                      (Inl e, this') \<Rightarrow> ((Rejected e, bodyRead r @ (t1 @ t2 @ t3) @ [Invoke]), this')
                    | (Inr t, this') \<Rightarrow> ((Resolved (toResponse t), bodyRead r @ (t1 @ t2 @ t3) @ [Invoke]), this'))"
            using ok1 ok2 ok3 None
            by (simp add: validateAndDispatch_def opt_validateEntries opt_validateQuery Let_def
                  bodyRead_def split: prod.splits sum.splits)
          then show ?thesis using run
            by (simp del: append_assoc) (rule exI [of _ ?ctx], simp)
        next
          case (Some s)
          with readable obtain v where v: "req_payload request = Json v"
            by (auto simp: bodyReadable_def split: payload.splits)
          show ?thesis
          proof (cases "sp s v")
            case (Inl e4)
            then show ?thesis using ok1 ok2 ok3 Some v
              by (simp add: plan runChecks_append validateAndDispatch_def opt_validateEntries
                    opt_validateQuery Let_def bodyChecks_def
                    bodyRead_def errorHandlerOf_def)
          next
            case (Inr d)
            let ?ctx = "\<lparr>ctx_url = (req_pathname request, req_searchParams request),
                          ctx_params = fromEntries vs1, ctx_query = fromEntries vs2,
                          ctx_headers = fromEntries vs3, ctx_body = Parsed d,
                          ctx_request = request, ctx_connInfo = connInfo\<rparr>"
            have run: "runChecks sp (plannedChecks r params request) =
                         (None, t1 @ t2 @ t3 @ [SafeParse Body None v])"
              using ok1 ok2 ok3 Some v Inr by (simp add: plan runChecks_append bodyChecks_def)
            have "validateAndDispatch sp this r params request connInfo =
                   (case invoke sp this (handler r) ?ctx of
                      (Inl e, this') \<Rightarrow>
                        ((Rejected e, bodyRead r @ (t1 @ t2 @ t3 @ [SafeParse Body None v]) @ [Invoke]), this')
                    | (Inr t, this') \<Rightarrow>
                        ((Resolved (toResponse t),
                          bodyRead r @ (t1 @ t2 @ t3 @ [SafeParse Body None v]) @ [Invoke]), this'))"
              using ok1 ok2 ok3 Some v Inr
              by (simp add: validateAndDispatch_def opt_validateEntries opt_validateQuery Let_def
                    bodyRead_def split: prod.splits sum.splits)
            then show ?thesis using run
              by (simp del: append_assoc) (rule exI [of _ ?ctx], simp)
          qed
        qed
      qed
    qed
  qed
qed

lemma check_event_not_Invoke: "Invoke \<notin> set (map check_event cs)"
  by (induction cs) auto

lemma bodyRead_not_Invoke: "Invoke \<notin> set (bodyRead r)"
  by (simp add: bodyRead_def split: option.splits)

lemma find_append_first: "find P xs = Some c \<Longrightarrow> find P (xs @ ys) = Some c"
  by (induction xs) (auto split: if_splits)

lemma takeWhile_append_first:
  "find P xs = Some c \<Longrightarrow> takeWhile (\<lambda>x. \<not> P x) (xs @ ys) = takeWhile (\<lambda>x. \<not> P x) xs"
  by (induction xs) (auto split: if_splits)

lemma find_exists: "\<exists>x\<in>set xs. P x \<Longrightarrow> \<exists>c. find P xs = Some c \<and> c \<in> set xs \<and> P c"
  by (induction xs) auto

lemma entryChecks_source: "c \<in> set (entryChecks src raw es) \<Longrightarrow> fst c = src"
  by (auto simp: entryChecks_def)

lemma handle_matched:
  assumes "routesByUppercasedMethodMap this (req_method request) = Some routes"
    and "matchRoute routes (req_pathname request) = Some (r, params)"
  shows "handle sp this request connInfo = validateAndDispatch sp this r params request connInfo"
  using assms by (simp add: handle_def)

lemma validateAndDispatch_first_failure:
  assumes "bodyReadable r request" and "find (failing sp) (plannedChecks r params request) = Some c"
  shows "validateAndDispatch sp this r params request connInfo =
           ((Resolved (errorHandlerOf this r (fst (check_error sp c)) (snd (check_error sp c))),
             bodyRead r @ map check_event (takeWhile (\<lambda>c. \<not> failing sp c) (plannedChecks r params request))
               @ [check_event c]), this)"
proof -
  obtain res tr where run: "runChecks sp (plannedChecks r params request) = (res, tr)"
    by (cases "runChecks sp (plannedChecks r params request)")
  have res: "res = Some (check_error sp c)"
    using runChecks_find [of sp "plannedChecks r params request"] run assms(2) by simp
  have tr: "tr = map check_event (takeWhile (\<lambda>c. \<not> failing sp c) (plannedChecks r params request) @ [c])"
    using runChecks_trace [of sp "plannedChecks r params request"] run assms(2) by simp
  from validateAndDispatch_run [OF assms(1), where sp=sp and params=params and this=this and connInfo=connInfo] run res tr
  show ?thesis by (cases "check_error sp c") simp
qed

lemma validateAndDispatch_all_pass:
  assumes "bodyReadable r request" and "find (failing sp) (plannedChecks r params request) = None"
  shows "\<exists>ctx. ctx_request ctx = request \<and> ctx_connInfo ctx = connInfo \<and>
           validateAndDispatch sp this r params request connInfo =
             (case invoke sp this (handler r) ctx of
                (Inl e, this') \<Rightarrow>
                  ((Rejected e, bodyRead r @ map check_event (plannedChecks r params request) @ [Invoke]), this')
              | (Inr t, this') \<Rightarrow>
                  ((Resolved (toResponse t),
                    bodyRead r @ map check_event (plannedChecks r params request) @ [Invoke]), this'))"
proof -
  obtain res tr where run: "runChecks sp (plannedChecks r params request) = (res, tr)"
    by (cases "runChecks sp (plannedChecks r params request)")
  have res: "res = None"
    using runChecks_find [of sp "plannedChecks r params request"] run assms(2) by simp
  have tr: "tr = map check_event (plannedChecks r params request)"
    using runChecks_trace [of sp "plannedChecks r params request"] run assms(2) by simp
  from validateAndDispatch_run [OF assms(1), where sp=sp and params=params and this=this and connInfo=connInfo] run res tr
  show ?thesis by simp
qed

subsection \<open>The sample router\<close>

lemma toPatternPath_samples:
  "toPatternPath ''/notes'' = ''/notes''"
  "toPatternPath ''/users/{id}'' = ''/users/:id''"
  "toPatternPath ''/users/list'' = ''/users/list''"
  "toPatternPath ''/docs/openapi'' = ''/docs/openapi''"
  by simp_all

lemma toUpperCase_samples:
  "toUpperCase ''get'' = ''GET''" "toUpperCase ''post'' = ''POST''" "toUpperCase ''put'' = ''PUT''"
  "toUpperCase ''patch'' = ''PATCH''"
  by (simp_all add: toUpperCase_def toUpperCase_char_def)

lemma sampleRouter_POST:
  "\<exists>routes. routesByUppercasedMethodMap sampleRouter ''POST'' = Some routes \<and>
     byPathMap routes = Map.empty \<and> patternList routes = [postRoute]"
  by (simp add: sampleRouter_def new_OpenapiRouter_def registerMethod_def addRoute_def Let_def
        toPatternPath_samples toUpperCase_samples endpoints_get_def sampleEndpoints_def endpoint_def
        samplePatch_def samplePut_def samplePost_def sampleGet_def sampleList_def postRoute_def
        extractRequestParamsSchema_def extractRequestQuerySchema_def extractRequestHeadersSchema_def
        extractRequestBodySchema_def
        del: toPatternPath.simps)

lemma sampleRouter_GET:
  "\<exists>routes. routesByUppercasedMethodMap sampleRouter ''GET'' = Some routes \<and>
     byPathMap routes = [''/users/list'' \<mapsto> listRoute] \<and> patternList routes = [docsRoute, getRoute]"
  by (simp add: sampleRouter_def new_OpenapiRouter_def registerMethod_def addRoute_def Let_def
        toPatternPath_samples toUpperCase_samples endpoints_get_def sampleEndpoints_def endpoint_def
        samplePatch_def samplePut_def samplePost_def sampleGet_def sampleList_def getRoute_def listRoute_def docsRoute_def
        extractRequestParamsSchema_def extractRequestQuerySchema_def extractRequestHeadersSchema_def
        extractRequestBodySchema_def
        del: toPatternPath.simps)

lemma sampleRouter_PUT:
  "\<exists>routes. routesByUppercasedMethodMap sampleRouter ''PUT'' = Some routes \<and>
     byPathMap routes = Map.empty \<and> patternList routes = [putRoute]"
  by (simp add: sampleRouter_def new_OpenapiRouter_def registerMethod_def addRoute_def Let_def
        toPatternPath_samples toUpperCase_samples endpoints_get_def sampleEndpoints_def endpoint_def
        samplePatch_def samplePut_def samplePost_def sampleGet_def sampleList_def putRoute_def
        extractRequestParamsSchema_def extractRequestQuerySchema_def extractRequestHeadersSchema_def
        extractRequestBodySchema_def zString_def
        del: toPatternPath.simps)

lemma sampleRouter_PATCH:
  "\<exists>routes. routesByUppercasedMethodMap sampleRouter ''PATCH'' = Some routes \<and>
     byPathMap routes = [''/notes'' \<mapsto> patchRoute] \<and> patternList routes = []"
  by (simp add: sampleRouter_def new_OpenapiRouter_def registerMethod_def addRoute_def Let_def
        toPatternPath_samples toUpperCase_samples endpoints_get_def sampleEndpoints_def endpoint_def
        samplePatch_def samplePut_def samplePost_def sampleGet_def sampleList_def patchRoute_def
        extractRequestParamsSchema_def extractRequestQuerySchema_def extractRequestHeadersSchema_def
        extractRequestBodySchema_def
        del: toPatternPath.simps)

lemma sampleRouter_default:
  "defaultValidationErrorHandler sampleRouter = default_defaultValidationErrorHandler"
  by (simp add: sampleRouter_def new_OpenapiRouter_def registerMethod_def addRoute_def Let_def
        toPatternPath_samples toUpperCase_samples endpoints_get_def sampleEndpoints_def endpoint_def
        samplePatch_def samplePut_def samplePost_def sampleGet_def sampleList_def
        del: toPatternPath.simps)

lemma splitPath_samples:
  "splitPath ''/users/:id'' = ['''', ''users'', '':id'']"
  "splitPath ''/users/abc'' = ['''', ''users'', ''abc'']"
  "splitPath ''/users/list'' = ['''', ''users'', ''list'']"
  "splitPath ''/docs/openapi'' = ['''', ''docs'', ''openapi'']"
  by simp_all

subsection \<open>Fail-fast validation in a fixed order\<close>

text \<open>
  C1, as stated, fails: where the route declares a body schema the body is read as JSON
  before the path parameters are validated, so a request with an invalid path parameter
  and a body that is not well-formed JSON is rejected with the parser's exception; no
  error of the params channel is reported.
\<close>

theorem invalid_param_malformed_body_rejects:
  "fst (handle sampleParse sampleRouter
          \<lparr>req_method = ''POST'', req_pathname = ''/users/abc'', req_searchParams = [],
           req_headers = [], req_payload = NotJson ''{''\<rparr> ''conn'') =
     (Rejected SyntaxError, [JsonRead])
   \<and> sampleParse zNumber (JStr ''abc'') = Inl [JStr ''Expected number'']"
proof -
  let ?request = "\<lparr>req_method = ''POST'', req_pathname = ''/users/abc'', req_searchParams = [],
                   req_headers = [], req_payload = NotJson ''{''\<rparr>"
  obtain routes where routes: "routesByUppercasedMethodMap sampleRouter ''POST'' = Some routes"
    and exact: "byPathMap routes = Map.empty" and patterns: "patternList routes = [postRoute]"
    using sampleRouter_POST by blast
  have r: "routesByUppercasedMethodMap sampleRouter (req_method ?request) = Some routes"
    using routes by simp
  have m: "matchRoute routes (req_pathname ?request) = Some (postRoute, Some [(''id'', ''abc'')])"
    by (simp add: matchRoute_def exact patterns urlPattern_test_def postRoute_def samplePattern_def
          splitPath_samples del: splitPath.simps)
  have "\<not> bodyReadable postRoute ?request"
    by (simp add: bodyReadable_def postRoute_def)
  from validateAndDispatch_unreadable [OF this] handle_matched [OF r m]
  have "fst (handle sampleParse sampleRouter ?request ''conn'') = (Rejected SyntaxError, [JsonRead])"
    by simp
  moreover have "sampleParse zNumber (JStr ''abc'') = Inl [JStr ''Expected number'']"
    by (simp add: sampleParse_def zNumber_def)
  ultimately show ?thesis by simp
qed

text \<open>
  C1, amended. For a request that matches a route: if the route declares a body schema
  and the body is not well-formed JSON, \<open>handle\<close> rejects with the parser's exception
  before anything is validated. Otherwise \<open>handle\<close> performs the planned checks in the
  order path parameters, query, headers, body. At the first failing check it returns
  the response of the validation error handler for that check's channel and error,
  having performed exactly the checks up to and including that one. If no check fails
  it calls the handler after all of them. In particular, when a path parameter is
  invalid the response is the one for the params channel and the body schema is never
  applied; and the handler is called only if every planned check passes. The validation
  error handler is the route's own if it has one; the router's default one answers with
  status 400 and a JSON body that names the channel as \<open>params\<close>, \<open>query\<close>, \<open>headers\<close> or
  \<open>body\<close>.
\<close>

theorem handle_fail_fast:
  assumes routes: "routesByUppercasedMethodMap this (req_method request) = Some routes"
    and matched: "matchRoute routes (req_pathname request) = Some (r, params)"
  shows "(bodyReadable r request \<longrightarrow>
         (case find (failing sp) (plannedChecks r params request) of
            Some c \<Rightarrow>
              handle sp this request connInfo =
                ((Resolved (errorHandlerOf this r (fst (check_error sp c)) (snd (check_error sp c))),
                  bodyRead r
                  @ map check_event (takeWhile (\<lambda>c. \<not> failing sp c) (plannedChecks r params request))
                  @ [check_event c]), this)
          | None \<Rightarrow>
              (\<exists>ctx. ctx_request ctx = request \<and> ctx_connInfo ctx = connInfo \<and>
                 handle sp this request connInfo =
                   (case invoke sp this (handler r) ctx of
                      (Inl e, this') \<Rightarrow>
                        ((Rejected e,
                          bodyRead r @ map check_event (plannedChecks r params request) @ [Invoke]), this')
                    | (Inr t, this') \<Rightarrow>
                        ((Resolved (toResponse t),
                          bodyRead r @ map check_event (plannedChecks r params request) @ [Invoke]), this'))))
         \<and> ((\<exists>c \<in> set (entryChecks Params (case params of None \<Rightarrow> [] | Some g \<Rightarrow> g)
                          (case paramSchemas r of None \<Rightarrow> [] | Some ps \<Rightarrow> ps)). failing sp c) \<longrightarrow>
              (\<exists>e. fst (fst (handle sp this request connInfo)) = Resolved (errorHandlerOf this r Params e)) \<and>
              (\<forall>key raw. SafeParse Body key raw \<notin> set (snd (fst (handle sp this request connInfo)))))
         \<and> (Invoke \<in> set (snd (fst (handle sp this request connInfo))) \<longrightarrow>
              (\<forall>c \<in> set (plannedChecks r params request). \<not> failing sp c)))
       \<and> (\<not> bodyReadable r request \<longrightarrow>
            handle sp this request connInfo = ((Rejected SyntaxError, [JsonRead]), this))
       \<and> (\<forall>h. validationErrorHandler r = Some h \<longrightarrow> errorHandlerOf this r = h)
       \<and> (validationErrorHandler r = None \<and>
            defaultValidationErrorHandler this = default_defaultValidationErrorHandler \<longrightarrow>
            errorHandlerOf this r src error =
              \<lparr>status = 400, resp_headers = [(''Content-Type'', ''application/json'')],
               resp_body = BodyJson (JObj [(''message'', JStr ''Request validation failed''),
                                           (''source'', JStr (source_name src)),
                                           (''errors'', JArr error)])\<rparr>)
       \<and> source_name Params = ''params'' \<and> source_name Query = ''query''
       \<and> source_name Headers = ''headers'' \<and> source_name Body = ''body''"
proof -
  have main: "(case find (failing sp) (plannedChecks r params request) of
            Some c \<Rightarrow>
              handle sp this request connInfo =
                ((Resolved (errorHandlerOf this r (fst (check_error sp c)) (snd (check_error sp c))),
                  bodyRead r
                  @ map check_event (takeWhile (\<lambda>c. \<not> failing sp c) (plannedChecks r params request))
                  @ [check_event c]), this)
          | None \<Rightarrow>
              (\<exists>ctx. ctx_request ctx = request \<and> ctx_connInfo ctx = connInfo \<and>
                 handle sp this request connInfo =
                   (case invoke sp this (handler r) ctx of
                      (Inl e, this') \<Rightarrow>
                        ((Rejected e,
                          bodyRead r @ map check_event (plannedChecks r params request) @ [Invoke]), this')
                    | (Inr t, this') \<Rightarrow>
                        ((Resolved (toResponse t),
                          bodyRead r @ map check_event (plannedChecks r params request) @ [Invoke]), this'))))
         \<and> ((\<exists>c \<in> set (entryChecks Params (case params of None \<Rightarrow> [] | Some g \<Rightarrow> g)
                          (case paramSchemas r of None \<Rightarrow> [] | Some ps \<Rightarrow> ps)). failing sp c) \<longrightarrow>
              (\<exists>e. fst (fst (handle sp this request connInfo)) = Resolved (errorHandlerOf this r Params e)) \<and>
              (\<forall>key raw. SafeParse Body key raw \<notin> set (snd (fst (handle sp this request connInfo)))))
         \<and> (Invoke \<in> set (snd (fst (handle sp this request connInfo))) \<longrightarrow>
              (\<forall>c \<in> set (plannedChecks r params request). \<not> failing sp c))"
    if readable: "bodyReadable r request"
  proof -
    let ?plan = "plannedChecks r params request"
    let ?P = "entryChecks Params (case params of None \<Rightarrow> [] | Some g \<Rightarrow> g)
                (case paramSchemas r of None \<Rightarrow> [] | Some ps \<Rightarrow> ps)"
    have h: "handle sp this request connInfo = validateAndDispatch sp this r params request connInfo"
      by (rule handle_matched [OF routes matched])
    have first: "(case find (failing sp) ?plan of
              Some c \<Rightarrow>
                handle sp this request connInfo =
                  ((Resolved (errorHandlerOf this r (fst (check_error sp c)) (snd (check_error sp c))),
                    bodyRead r @ map check_event (takeWhile (\<lambda>c. \<not> failing sp c) ?plan)
                    @ [check_event c]), this)
            | None \<Rightarrow>
                (\<exists>ctx. ctx_request ctx = request \<and> ctx_connInfo ctx = connInfo \<and>
                   handle sp this request connInfo =
                     (case invoke sp this (handler r) ctx of
                        (Inl e, this') \<Rightarrow>
                          ((Rejected e, bodyRead r @ map check_event ?plan @ [Invoke]), this')
                      | (Inr t, this') \<Rightarrow>
                          ((Resolved (toResponse t), bodyRead r @ map check_event ?plan @ [Invoke]), this'))))"
    proof (cases "find (failing sp) ?plan")
      case None
      with validateAndDispatch_all_pass [OF readable None, where this=this and connInfo=connInfo] h show ?thesis by simp
    next
      case (Some c)
      with validateAndDispatch_first_failure [OF readable Some, where this=this and connInfo=connInfo] h show ?thesis by simp
    qed
    have second: "(\<exists>e. fst (fst (handle sp this request connInfo)) = Resolved (errorHandlerOf this r Params e)) \<and>
                (\<forall>key raw. SafeParse Body key raw \<notin> set (snd (fst (handle sp this request connInfo))))"
      if bad: "\<exists>c \<in> set ?P. failing sp c"
    proof -
      from find_exists [OF bad] obtain c where c: "find (failing sp) ?P = Some c" "c \<in> set ?P" by blast
      have plan: "?plan = ?P @ (queryChecks (req_searchParams request)
                                  (case querySchemas r of None \<Rightarrow> [] | Some qs \<Rightarrow> qs)
                                @ entryChecks Headers (headers_entries (req_headers request))
                                    (case headerSchemas r of None \<Rightarrow> [] | Some hs \<Rightarrow> hs)
                                @ bodyChecks (bodySchema r) (req_payload request))"
        by (simp add: plannedChecks_def)
      have f: "find (failing sp) ?plan = Some c"
        unfolding plan by (rule find_append_first [OF c(1)])
      have t: "takeWhile (\<lambda>c. \<not> failing sp c) ?plan = takeWhile (\<lambda>c. \<not> failing sp c) ?P"
        unfolding plan by (rule takeWhile_append_first [OF c(1)])
      have src: "fst c = Params" by (rule entryChecks_source [OF c(2)])
      have eq: "handle sp this request connInfo =
                  ((Resolved (errorHandlerOf this r (fst (check_error sp c)) (snd (check_error sp c))),
                    bodyRead r @ map check_event (takeWhile (\<lambda>c. \<not> failing sp c) ?P) @ [check_event c]), this)"
        using validateAndDispatch_first_failure [OF readable f, where this=this and connInfo=connInfo] h t by simp
      have src': "fst (check_error sp c) = Params" using src by (cases c) simp
      have allP: "fst c' = Params"
        if "c' \<in> set (takeWhile (\<lambda>c. \<not> failing sp c) ?P @ [c])" for c'
      proof -
        from that have "c' \<in> set ?P" using c(2) by (auto dest!: set_takeWhileD)
        then show ?thesis by (rule entryChecks_source)
      qed
      have noBody: "SafeParse Body key raw \<notin> set (map check_event (takeWhile (\<lambda>c. \<not> failing sp c) ?P) @ [check_event c])"
        for key raw
      proof
        assume "SafeParse Body key raw \<in> set (map check_event (takeWhile (\<lambda>c. \<not> failing sp c) ?P) @ [check_event c])"
        then have "SafeParse Body key raw \<in> check_event ` set (takeWhile (\<lambda>c. \<not> failing sp c) ?P @ [c])"
          by simp
        then obtain c' where c': "c' \<in> set (takeWhile (\<lambda>c. \<not> failing sp c) ?P @ [c])"
          "check_event c' = SafeParse Body key raw" by (auto simp del: set_append)
        from allP [OF c'(1)] c'(2) show False by (cases c') simp
      qed
      have noBody': "SafeParse Body key raw \<notin> set (bodyRead r)" for key raw
        by (simp add: bodyRead_def split: option.splits)
      show ?thesis using eq src' noBody noBody' by auto
    qed
    have third: "\<forall>c \<in> set ?plan. \<not> failing sp c"
      if inv: "Invoke \<in> set (snd (fst (handle sp this request connInfo)))"
    proof (cases "find (failing sp) ?plan")
      case None
      then show ?thesis by (auto simp: find_None_iff)
    next
      case (Some c)
      from validateAndDispatch_first_failure [OF readable Some, where this=this and connInfo=connInfo] h inv
      have "Invoke \<in> set (bodyRead r) \<or> Invoke \<in> set (map check_event (takeWhile (\<lambda>c. \<not> failing sp c) ?plan))
            \<or> Invoke = check_event c" by auto
      then show ?thesis
        using bodyRead_not_Invoke check_event_not_Invoke by (cases c) auto
    qed
    from first second third show ?thesis by blast
  qed
  have h: "handle sp this request connInfo = validateAndDispatch sp this r params request connInfo"
    by (rule handle_matched [OF routes matched])
  have unreadable: "handle sp this request connInfo = ((Rejected SyntaxError, [JsonRead]), this)"
    if "\<not> bodyReadable r request"
    using validateAndDispatch_unreadable [OF that, where sp = sp and this = this and params = params
        and connInfo = connInfo] h by simp
  have own: "\<forall>h. validationErrorHandler r = Some h \<longrightarrow> errorHandlerOf this r = h"
    by (simp add: errorHandlerOf_def)
  have dflt: "errorHandlerOf this r src error =
              \<lparr>status = 400, resp_headers = [(''Content-Type'', ''application/json'')],
               resp_body = BodyJson (JObj [(''message'', JStr ''Request validation failed''),
                                           (''source'', JStr (source_name src)),
                                           (''errors'', JArr error)])\<rparr>"
    if "validationErrorHandler r = None \<and>
        defaultValidationErrorHandler this = default_defaultValidationErrorHandler"
    using that by (simp add: errorHandlerOf_def default_defaultValidationErrorHandler_def)
  have names: "source_name Params = ''params''" "source_name Query = ''query''"
    "source_name Headers = ''headers''" "source_name Body = ''body''"
    by simp_all
  from main unreadable own dflt names show ?thesis by blast
qed

text \<open>
  A request with an invalid path parameter and an invalid, well-formed body: the answer
  is the one of the params channel and the body schema is not applied.
\<close>

theorem handle_fail_fast_witness:
  "fst (handle sampleParse sampleRouter
          \<lparr>req_method = ''POST'', req_pathname = ''/users/abc'', req_searchParams = [],
           req_headers = [], req_payload = Json (JStr ''x'')\<rparr> ''conn'') =
     (Resolved \<lparr>status = 400, resp_headers = [(''Content-Type'', ''application/json'')],
                resp_body = BodyJson (JObj [(''message'', JStr ''Request validation failed''),
                                            (''source'', JStr ''params''),
                                            (''errors'', JArr [JStr ''Expected number''])])\<rparr>,
      [JsonRead, SafeParse Params (Some ''id'') (JStr ''abc'')])
   \<and> failing sampleParse (Body, None, zNumber, JStr ''x'')"
proof -
  let ?request = "\<lparr>req_method = ''POST'', req_pathname = ''/users/abc'', req_searchParams = [],
                   req_headers = [], req_payload = Json (JStr ''x'')\<rparr>"
  obtain routes where routes: "routesByUppercasedMethodMap sampleRouter ''POST'' = Some routes"
    and exact: "byPathMap routes = Map.empty" and patterns: "patternList routes = [postRoute]"
    using sampleRouter_POST by blast
  have r: "routesByUppercasedMethodMap sampleRouter (req_method ?request) = Some routes"
    using routes by simp
  have m: "matchRoute routes (req_pathname ?request) = Some (postRoute, Some [(''id'', ''abc'')])"
    by (simp add: matchRoute_def exact patterns urlPattern_test_def postRoute_def samplePattern_def
          splitPath_samples del: splitPath.simps)
  have b: "bodyReadable postRoute ?request"
    by (simp add: bodyReadable_def postRoute_def)
  have plan: "plannedChecks postRoute (Some [(''id'', ''abc'')]) ?request =
                [(Params, Some ''id'', zNumber, JStr ''abc''), (Body, None, zNumber, JStr ''x'')]"
    by (simp add: plannedChecks_def postRoute_def entryChecks_def queryChecks_def bodyChecks_def
          strProp_def)
  have f1: "failing sampleParse (Params, Some ''id'', zNumber, JStr ''abc'')"
    and f2: "failing sampleParse (Body, None, zNumber, JStr ''x'')"
    by (simp_all add: sampleParse_def zNumber_def)
  have e: "check_error sampleParse (Params, Some ''id'', zNumber, JStr ''abc'') =
             (Params, [JStr ''Expected number''])"
    by (simp add: sampleParse_def zNumber_def)
  have d: "validationErrorHandler postRoute = None \<and>
           defaultValidationErrorHandler sampleRouter = default_defaultValidationErrorHandler"
    by (simp add: postRoute_def sampleRouter_default)
  note T = handle_fail_fast [OF r m, where sp = sampleParse and connInfo = "''conn''"
      and src = Params and error = "[JStr ''Expected number'']"]
  note h = T [THEN conjunct2, THEN conjunct2, THEN conjunct2, THEN conjunct1, THEN mp, OF d]
  have br: "bodyRead postRoute = [JsonRead]"
    by (simp add: bodyRead_def postRoute_def)
  from T [THEN conjunct1, THEN mp, OF b]
  show ?thesis
    by (simp add: plan f1 f2 e h br del: failing.simps check_error.simps)
qed

subsection \<open>Dispatch: the exact path before the patterns\<close>

lemma find_first_match:
  "\<forall>x \<in> set pre. \<not> P x \<Longrightarrow> P r \<Longrightarrow> find P (pre @ r # post) = Some r"
  by (induction pre) auto

lemma toPatternPath_plain: "CHR ''{'' \<notin> set p \<Longrightarrow> toPatternPath p = p"
  by (induction p) auto

lemma toPatternPath_prefix:
  "CHR ''{'' \<notin> set pre \<Longrightarrow> toPatternPath (pre @ rest) = pre @ toPatternPath rest"
  by (induction pre) auto

lemma toPatternPath_placeholder:
  assumes "name \<noteq> []" and "CHR ''}'' \<notin> set name"
  shows "toPatternPath (''{'' @ name @ ''}'' @ post) = '':'' @ name @ toPatternPath post"
proof -
  have t: "takeWhile (\<lambda>x. x \<noteq> CHR ''}'') (name @ CHR ''}'' # post) = name"
    using assms(2) by (induction name) auto
  have d: "dropWhile (\<lambda>x. x \<noteq> CHR ''}'') (name @ CHR ''}'' # post) = CHR ''}'' # post"
    using assms(2) by (induction name) auto
  show ?thesis using assms(1) by (simp add: t d)
qed

lemma sampleRouter_DELETE: "routesByUppercasedMethodMap sampleRouter ''DELETE'' = None"
  by (simp add: sampleRouter_def new_OpenapiRouter_def registerMethod_def addRoute_def Let_def
        toPatternPath_samples toUpperCase_samples endpoints_get_def sampleEndpoints_def endpoint_def
        samplePatch_def samplePut_def samplePost_def sampleGet_def sampleList_def
        del: toPatternPath.simps)

text \<open>
  C2. \<open>handle\<close> looks the path up in the exact-path map of the routes stored under the
  request's method (the keys are the upper-cased method names of the registrations). If
  the map has the path, that route is dispatched with no params, whatever the pattern
  list holds. Otherwise the first route of the pattern list whose pattern matches is
  dispatched with the named groups of the match as params. If the method has no routes,
  or neither structure matches, the result is the response of status 404 with the text
  \<open>Not found\<close>, and nothing was validated. A registration stores a template that its
  rewriting to a pattern leaves unchanged in the exact-path map under its path, and
  appends any other template to the end of the pattern list. The rewriting leaves a
  template without an opening brace unchanged, and turns the first placeholder \<open>{name}\<close>
  of a template into \<open>:name\<close>, so that such a template is a pattern route.
\<close>

theorem handle_dispatch_priority:
  "(routesByUppercasedMethodMap this (req_method request) = None \<longrightarrow>
      handle sp this request connInfo = ((Resolved \<lparr>status = 404, resp_headers = [], resp_body = BodyText ''Not found''\<rparr>, []), this))
   \<and> (\<forall>routes r.
        routesByUppercasedMethodMap this (req_method request) = Some routes \<and>
        byPathMap routes (req_pathname request) = Some r \<longrightarrow>
        handle sp this request connInfo = validateAndDispatch sp this r None request connInfo)
   \<and> (\<forall>routes pre r post pat groups.
        routesByUppercasedMethodMap this (req_method request) = Some routes \<and>
        byPathMap routes (req_pathname request) = None \<and>
        patternList routes = pre @ r # post \<and>
        (\<forall>r' \<in> set pre. \<not> urlPattern_test r' (req_pathname request)) \<and>
        urlPattern r = Some pat \<and> pat (req_pathname request) = Some groups \<longrightarrow>
        handle sp this request connInfo = validateAndDispatch sp this r (Some groups) request connInfo)
   \<and> (\<forall>routes.
        routesByUppercasedMethodMap this (req_method request) = Some routes \<and>
        byPathMap routes (req_pathname request) = None \<and>
        (\<forall>r \<in> set (patternList routes). \<not> urlPattern_test r (req_pathname request)) \<longrightarrow>
        handle sp this request connInfo = ((Resolved \<lparr>status = 404, resp_headers = [], resp_body = BodyText ''Not found''\<rparr>, []), this))
   \<and> (\<forall>new_URLPattern m p h veh this'.
        registerMethod new_URLPattern m p h veh this = Inr this' \<longrightarrow>
        (\<exists>ep route old new.
           endpoints_get (endpoints this) p m = Some ep \<and>
           path route = p \<and> handler route = Handler h \<and>
           urlPattern route = (if p \<noteq> toPatternPath p then Some (new_URLPattern (toPatternPath p)) else None) \<and>
           old = (case routesByUppercasedMethodMap this (toUpperCase (cfg_method (ep_config ep))) of
                    None \<Rightarrow> \<lparr>byPathTemplateMap = Map.empty, byPathMap = Map.empty, patternList = []\<rparr>
                  | Some routes \<Rightarrow> routes) \<and>
           routesByUppercasedMethodMap this' =
             (routesByUppercasedMethodMap this)(toUpperCase (cfg_method (ep_config ep)) \<mapsto> new) \<and>
           (if p \<noteq> toPatternPath p
            then patternList new = patternList old @ [route] \<and> byPathMap new = byPathMap old
            else patternList new = patternList old \<and> byPathMap new = (byPathMap old)(p \<mapsto> route))))
   \<and> (CHR ''{'' \<notin> set p \<longrightarrow> toPatternPath p = p)
   \<and> (CHR ''{'' \<notin> set pre \<and> name \<noteq> [] \<and> CHR ''}'' \<notin> set name \<longrightarrow>
        toPatternPath (pre @ ''{'' @ name @ ''}'' @ post) = pre @ '':'' @ name @ toPatternPath post \<and>
        toPatternPath (pre @ ''{'' @ name @ ''}'' @ post) \<noteq> pre @ ''{'' @ name @ ''}'' @ post)"
proof (intro conjI allI impI)
  assume "routesByUppercasedMethodMap this (req_method request) = None"
  then show "handle sp this request connInfo = ((Resolved \<lparr>status = 404, resp_headers = [], resp_body = BodyText ''Not found''\<rparr>, []), this)"
    by (simp add: handle_def notFound_def)
next
  fix routes r
  assume "routesByUppercasedMethodMap this (req_method request) = Some routes \<and>
          byPathMap routes (req_pathname request) = Some r"
  then show "handle sp this request connInfo = validateAndDispatch sp this r None request connInfo"
    by (simp add: handle_def matchRoute_def)
next
  fix routes pre r post pat groups
  assume a: "routesByUppercasedMethodMap this (req_method request) = Some routes \<and>
        byPathMap routes (req_pathname request) = None \<and>
        patternList routes = pre @ r # post \<and>
        (\<forall>r' \<in> set pre. \<not> urlPattern_test r' (req_pathname request)) \<and>
        urlPattern r = Some pat \<and> pat (req_pathname request) = Some groups"
  then have "urlPattern_test r (req_pathname request)"
    by (simp add: urlPattern_test_def)
  with a have "find (\<lambda>r. urlPattern_test r (req_pathname request)) (patternList routes) = Some r"
    by (simp add: find_first_match)
  with a show "handle sp this request connInfo = validateAndDispatch sp this r (Some groups) request connInfo"
    by (simp add: handle_def matchRoute_def)
next
  fix routes
  assume a: "routesByUppercasedMethodMap this (req_method request) = Some routes \<and>
        byPathMap routes (req_pathname request) = None \<and>
        (\<forall>r \<in> set (patternList routes). \<not> urlPattern_test r (req_pathname request))"
  then have "find (\<lambda>r. urlPattern_test r (req_pathname request)) (patternList routes) = None"
    by (simp add: find_None_iff)
  with a show "handle sp this request connInfo = ((Resolved \<lparr>status = 404, resp_headers = [], resp_body = BodyText ''Not found''\<rparr>, []), this)"
    by (simp add: handle_def matchRoute_def notFound_def)
next
  fix new_URLPattern m p h veh this'
  assume reg: "registerMethod new_URLPattern m p h veh this = Inr this'"
  then obtain ep where ep: "endpoints_get (endpoints this) p m = Some ep"
    by (auto simp: registerMethod_def Let_def split: if_splits option.splits)
  let ?config = "ep_config ep"
  let ?route = "\<lparr>path = p,
                  urlPattern = (if p \<noteq> toPatternPath p then Some (new_URLPattern (toPatternPath p)) else None),
                  paramSchemas = extractRequestParamsSchema ?config,
                  querySchemas = extractRequestQuerySchema ?config,
                  headerSchemas = extractRequestHeadersSchema ?config,
                  bodySchema = extractRequestBodySchema ?config,
                  validationErrorHandler = veh,
                  handler = Handler h\<rparr>"
  from reg ep have this': "this' = addRoute ?config ?route this"
    by (auto simp: registerMethod_def Let_def split: if_splits option.splits)
  let ?old = "case routesByUppercasedMethodMap this (toUpperCase (cfg_method ?config)) of
                None \<Rightarrow> \<lparr>byPathTemplateMap = Map.empty, byPathMap = Map.empty, patternList = []\<rparr>
              | Some routes \<Rightarrow> routes"
  let ?r1 = "?old\<lparr>byPathTemplateMap := (byPathTemplateMap ?old)(cfg_path ?config \<mapsto> ?route)\<rparr>"
  let ?new = "if p \<noteq> toPatternPath p
              then ?r1\<lparr>patternList := patternList ?r1 @ [?route]\<rparr>
              else ?r1\<lparr>byPathMap := (byPathMap ?r1)(p \<mapsto> ?route)\<rparr>"
  have tbl: "routesByUppercasedMethodMap this' =
               (routesByUppercasedMethodMap this)(toUpperCase (cfg_method ?config) \<mapsto> ?new)"
    unfolding this' by (simp add: addRoute_def Let_def)
  show "\<exists>ep route old new.
           endpoints_get (endpoints this) p m = Some ep \<and>
           path route = p \<and> handler route = Handler h \<and>
           urlPattern route = (if p \<noteq> toPatternPath p then Some (new_URLPattern (toPatternPath p)) else None) \<and>
           old = (case routesByUppercasedMethodMap this (toUpperCase (cfg_method (ep_config ep))) of
                    None \<Rightarrow> \<lparr>byPathTemplateMap = Map.empty, byPathMap = Map.empty, patternList = []\<rparr>
                  | Some routes \<Rightarrow> routes) \<and>
           routesByUppercasedMethodMap this' =
             (routesByUppercasedMethodMap this)(toUpperCase (cfg_method (ep_config ep)) \<mapsto> new) \<and>
           (if p \<noteq> toPatternPath p
            then patternList new = patternList old @ [route] \<and> byPathMap new = byPathMap old
            else patternList new = patternList old \<and> byPathMap new = (byPathMap old)(p \<mapsto> route))"
    apply (rule exI [of _ ep], rule exI [of _ ?route], rule exI [of _ ?old], rule exI [of _ ?new])
    using ep tbl by simp
next
  assume "CHR ''{'' \<notin> set p"
  then show "toPatternPath p = p" by (rule toPatternPath_plain)
next
  assume a: "CHR ''{'' \<notin> set pre \<and> name \<noteq> [] \<and> CHR ''}'' \<notin> set name"
  then show e: "toPatternPath (pre @ ''{'' @ name @ ''}'' @ post) = pre @ '':'' @ name @ toPatternPath post"
    using toPatternPath_prefix [of pre "''{'' @ name @ ''}'' @ post"]
      toPatternPath_placeholder [of name post] by simp
  show "toPatternPath (pre @ ''{'' @ name @ ''}'' @ post) \<noteq> pre @ ''{'' @ name @ ''}'' @ post"
    unfolding e by simp
qed


text \<open>
  The sample router: \<open>/users/list\<close> goes to the exact route although the pattern route of
  \<open>/users/{id}\<close>, registered before it, matches too; \<open>/users/abc\<close> goes to the pattern route
  with \<open>id\<close> as a raw string; a method without routes and a path that nothing matches get
  the 404 response.
\<close>

theorem handle_dispatch_priority_witness:
  "fst (handle sampleParse sampleRouter
          \<lparr>req_method = ''GET'', req_pathname = ''/users/list'', req_searchParams = [],
           req_headers = [], req_payload = NoPayload\<rparr> ''conn'') =
     (Resolved \<lparr>status = 200, resp_headers = [(''content-type'', ''text/plain'')],
                resp_body = BodyData (JStr ''list users'')\<rparr>, [Invoke])
   \<and> (\<exists>routes r. routesByUppercasedMethodMap sampleRouter ''GET'' = Some routes \<and>
          r \<in> set (patternList routes) \<and> path r = ''/users/{id}'' \<and>
          urlPattern_test r ''/users/list'')
   \<and> fst (handle sampleParse sampleRouter
          \<lparr>req_method = ''GET'', req_pathname = ''/users/abc'', req_searchParams = [],
           req_headers = [], req_payload = NoPayload\<rparr> ''conn'') =
     (Resolved \<lparr>status = 200, resp_headers = [(''content-type'', ''text/plain'')],
                resp_body = BodyData (JStr ''get user'')\<rparr>,
      [SafeParse Params (Some ''id'') (JStr ''abc''), Invoke])
   \<and> handle sampleParse sampleRouter
          \<lparr>req_method = ''DELETE'', req_pathname = ''/users/abc'', req_searchParams = [],
           req_headers = [], req_payload = NoPayload\<rparr> ''conn'' =
     ((Resolved \<lparr>status = 404, resp_headers = [], resp_body = BodyText ''Not found''\<rparr>, []), sampleRouter)
   \<and> handle sampleParse sampleRouter
          \<lparr>req_method = ''GET'', req_pathname = ''/nothing'', req_searchParams = [],
           req_headers = [], req_payload = NoPayload\<rparr> ''conn'' =
     ((Resolved \<lparr>status = 404, resp_headers = [], resp_body = BodyText ''Not found''\<rparr>, []), sampleRouter)
   \<and> toPatternPath ''/users/{id}'' = ''/users/:id''
   \<and> toPatternPath ''/users/list'' = ''/users/list''"
proof -
  let ?list = "\<lparr>req_method = ''GET'', req_pathname = ''/users/list'', req_searchParams = [],
                req_headers = [], req_payload = NoPayload\<rparr>"
  let ?abc = "\<lparr>req_method = ''GET'', req_pathname = ''/users/abc'', req_searchParams = [],
               req_headers = [], req_payload = NoPayload\<rparr>"
  let ?delete = "\<lparr>req_method = ''DELETE'', req_pathname = ''/users/abc'', req_searchParams = [],
                  req_headers = [], req_payload = NoPayload\<rparr>"
  let ?nothing = "\<lparr>req_method = ''GET'', req_pathname = ''/nothing'', req_searchParams = [],
                   req_headers = [], req_payload = NoPayload\<rparr>"
  obtain routes where routes: "routesByUppercasedMethodMap sampleRouter ''GET'' = Some routes"
    and exact: "byPathMap routes = [''/users/list'' \<mapsto> listRoute]"
    and patterns: "patternList routes = [docsRoute, getRoute]"
    using sampleRouter_GET by blast
  have a: "routesByUppercasedMethodMap sampleRouter (req_method ?list) = Some routes \<and>
           byPathMap routes (req_pathname ?list) = Some listRoute"
    using routes exact by simp
  note T1 = handle_dispatch_priority [where this = sampleRouter and request = ?list
        and sp = sampleParse and connInfo = "''conn''", THEN conjunct2, THEN conjunct1,
        THEN spec [where x = routes], THEN spec [where x = listRoute], THEN mp, OF a]
  have "fst (validateAndDispatch sampleParse sampleRouter listRoute None ?list ''conn'') =
     (Resolved \<lparr>status = 200, resp_headers = [(''content-type'', ''text/plain'')],
                resp_body = BodyData (JStr ''list users'')\<rparr>, [Invoke])"
    by (simp add: validateAndDispatch_def listRoute_def Let_def invoke_def echo_def toResponse_def
          headers_entries_def fromEntries_def spread_def)
  with T1 have w1: "fst (handle sampleParse sampleRouter ?list ''conn'') =
     (Resolved \<lparr>status = 200, resp_headers = [(''content-type'', ''text/plain'')],
                resp_body = BodyData (JStr ''list users'')\<rparr>, [Invoke])"
    by simp
  have tl: "urlPattern_test getRoute ''/users/list''"
    by (simp add: urlPattern_test_def getRoute_def samplePattern_def splitPath_samples
          del: splitPath.simps)
  have w2: "\<exists>routes r. routesByUppercasedMethodMap sampleRouter ''GET'' = Some routes \<and>
          r \<in> set (patternList routes) \<and> path r = ''/users/{id}'' \<and>
          urlPattern_test r ''/users/list''"
  proof -
    have "getRoute \<in> set (patternList routes)" by (simp add: patterns)
    moreover have "path getRoute = ''/users/{id}''" by (simp add: getRoute_def)
    ultimately show ?thesis using routes tl by blast
  qed
  have nd: "\<not> urlPattern_test docsRoute ''/users/abc''"
    by (simp add: urlPattern_test_def docsRoute_def samplePattern_def splitPath_samples
          del: splitPath.simps)
  have b: "routesByUppercasedMethodMap sampleRouter (req_method ?abc) = Some routes \<and>
        byPathMap routes (req_pathname ?abc) = None \<and>
        patternList routes = [docsRoute] @ getRoute # [] \<and>
        (\<forall>r' \<in> set [docsRoute]. \<not> urlPattern_test r' (req_pathname ?abc)) \<and>
        urlPattern getRoute = Some (samplePattern ''/users/:id'') \<and>
        samplePattern ''/users/:id'' (req_pathname ?abc) = Some [(''id'', ''abc'')]"
    using routes exact patterns nd
    by (simp add: getRoute_def samplePattern_def splitPath_samples del: splitPath.simps)
  note T3 = handle_dispatch_priority [where this = sampleRouter and request = ?abc
        and sp = sampleParse and connInfo = "''conn''", THEN conjunct2, THEN conjunct2, THEN conjunct1,
        THEN spec [where x = routes], THEN spec [where x = "[docsRoute]"], THEN spec [where x = getRoute],
        THEN spec [where x = "[]"], THEN spec [where x = "samplePattern ''/users/:id''"],
        THEN spec [where x = "[(''id'', ''abc'')]"], THEN mp, OF b]
  have "fst (validateAndDispatch sampleParse sampleRouter getRoute (Some [(''id'', ''abc'')]) ?abc ''conn'') =
     (Resolved \<lparr>status = 200, resp_headers = [(''content-type'', ''text/plain'')],
                resp_body = BodyData (JStr ''get user'')\<rparr>,
      [SafeParse Params (Some ''id'') (JStr ''abc''), Invoke])"
    by (simp add: validateAndDispatch_def getRoute_def Let_def invoke_def echo_def toResponse_def
          headers_entries_def fromEntries_def spread_def validateEntries.simps strProp_def
          sampleParse_def zString_def)
  with T3 have w3: "fst (handle sampleParse sampleRouter ?abc ''conn'') =
     (Resolved \<lparr>status = 200, resp_headers = [(''content-type'', ''text/plain'')],
                resp_body = BodyData (JStr ''get user'')\<rparr>,
      [SafeParse Params (Some ''id'') (JStr ''abc''), Invoke])"
    by simp
  have c: "routesByUppercasedMethodMap sampleRouter (req_method ?delete) = None"
    using sampleRouter_DELETE by simp
  note w4 = handle_dispatch_priority [where this = sampleRouter and request = ?delete
        and sp = sampleParse and connInfo = "''conn''", THEN conjunct1, THEN mp, OF c]
  have sn: "splitPath ''/nothing'' = [[], ''nothing'']" by simp
  have nn: "\<not> urlPattern_test docsRoute ''/nothing''" "\<not> urlPattern_test getRoute ''/nothing''"
    by (simp_all add: urlPattern_test_def docsRoute_def getRoute_def samplePattern_def splitPath_samples sn
          del: splitPath.simps)
  have d: "routesByUppercasedMethodMap sampleRouter (req_method ?nothing) = Some routes \<and>
        byPathMap routes (req_pathname ?nothing) = None \<and>
        (\<forall>r \<in> set (patternList routes). \<not> urlPattern_test r (req_pathname ?nothing))"
    using routes exact patterns nn by simp
  note w5 = handle_dispatch_priority [where this = sampleRouter and request = ?nothing
        and sp = sampleParse and connInfo = "''conn''", THEN conjunct2, THEN conjunct2, THEN conjunct2,
        THEN conjunct1, THEN spec [where x = routes], THEN mp, OF d]
  have e: "CHR ''{'' \<notin> set ''/users/'' \<and> ''id'' \<noteq> [] \<and> CHR ''}'' \<notin> set ''id''" by simp
  from handle_dispatch_priority [where pre = "''/users/''" and name = "''id''" and post = "[]",
        THEN conjunct2, THEN conjunct2, THEN conjunct2, THEN conjunct2, THEN conjunct2, THEN conjunct2,
        THEN mp, OF e, THEN conjunct1]
  have w6: "toPatternPath ''/users/{id}'' = ''/users/:id''" by simp
  have f: "CHR ''{'' \<notin> set ''/users/list''" by simp
  note w7 = handle_dispatch_priority [where p = "''/users/list''",
        THEN conjunct2, THEN conjunct2, THEN conjunct2, THEN conjunct2, THEN conjunct2, THEN conjunct1,
        THEN mp, OF f]
  from w1 w2 w3 w4 w5 w6 w7 show ?thesis by (intro conjI)
qed

subsection \<open>The raw value of a query parameter\<close>

lemma searchParams_get_first:
  "searchParams_get searchParams key =
     (case filter (\<lambda>(k, v). k = key) searchParams of [] \<Rightarrow> JNull | (k, v) # rest \<Rightarrow> JStr v)"
  by (induction searchParams) (auto simp: searchParams_get_def)

lemma validateQuery_trace:
  "snd (validateQuery sp searchParams qs acc) =
     map check_event (case find (failing sp) (queryChecks searchParams qs) of
                        None \<Rightarrow> queryChecks searchParams qs
                      | Some c \<Rightarrow> takeWhile (\<lambda>c. \<not> failing sp c) (queryChecks searchParams qs) @ [c])"
  using validateQuery_run [of sp searchParams qs acc] runChecks_trace [of sp "queryChecks searchParams qs"]
  by simp

lemma find_append_none: "find P xs = None \<Longrightarrow> find P (xs @ ys) = find P ys"
  by (induction xs) (auto split: if_splits)

lemma takeWhile_append_none:
  "find P xs = None \<Longrightarrow> takeWhile (\<lambda>x. \<not> P x) (xs @ ys) = xs @ takeWhile (\<lambda>x. \<not> P x) ys"
  by (induction xs) (auto split: if_splits)

lemma find_member: "find P xs = Some c \<Longrightarrow> c \<in> set xs"
  by (induction xs) (auto split: if_splits)

lemma queryChecks_source: "c \<in> set (queryChecks searchParams qs) \<Longrightarrow> fst c = Query"
  by (auto simp: queryChecks_def)

lemma handle_query_checks:
  assumes routes: "routesByUppercasedMethodMap this (req_method request) = Some routes"
    and matched: "matchRoute routes (req_pathname request) = Some (r, params)"
    and qs: "querySchemas r = Some qs" and readable: "bodyReadable r request"
    and pass: "\<forall>c \<in> set (entryChecks Params (case params of None \<Rightarrow> [] | Some g \<Rightarrow> g)
                               (case paramSchemas r of None \<Rightarrow> [] | Some ps \<Rightarrow> ps)). \<not> failing sp c"
  shows "case find (failing sp) (queryChecks (req_searchParams request) qs) of
                 Some c \<Rightarrow>
                   handle sp this request connInfo =
                     ((Resolved (errorHandlerOf this r Query (snd (check_error sp c))),
                       bodyRead r
                       @ map check_event (entryChecks Params (case params of None \<Rightarrow> [] | Some g \<Rightarrow> g)
                                            (case paramSchemas r of None \<Rightarrow> [] | Some ps \<Rightarrow> ps))
                       @ map check_event (takeWhile (\<lambda>c. \<not> failing sp c)
                                            (queryChecks (req_searchParams request) qs))
                       @ [check_event c]), this)
               | None \<Rightarrow>
                   (\<exists>rest. snd (fst (handle sp this request connInfo)) =
                      bodyRead r
                      @ map check_event (entryChecks Params (case params of None \<Rightarrow> [] | Some g \<Rightarrow> g)
                                           (case paramSchemas r of None \<Rightarrow> [] | Some ps \<Rightarrow> ps))
                      @ map check_event (queryChecks (req_searchParams request) qs)
                      @ rest)"
proof -
  let ?P = "entryChecks Params (case params of None \<Rightarrow> [] | Some g \<Rightarrow> g)
              (case paramSchemas r of None \<Rightarrow> [] | Some ps \<Rightarrow> ps)"
  let ?Q = "queryChecks (req_searchParams request) qs"
  let ?R = "entryChecks Headers (headers_entries (req_headers request))
              (case headerSchemas r of None \<Rightarrow> [] | Some hs \<Rightarrow> hs)
            @ bodyChecks (bodySchema r) (req_payload request)"
  let ?plan = "plannedChecks r params request"
  have plan: "?plan = ?P @ ?Q @ ?R"
    by (simp add: plannedChecks_def qs)
  have h: "handle sp this request connInfo = validateAndDispatch sp this r params request connInfo"
    by (rule handle_matched [OF routes matched])
  have noP: "find (failing sp) ?P = None"
    using pass by (auto simp add: find_None_iff simp del: failing.simps)
  show ?thesis
  proof (cases "find (failing sp) ?Q")
    case (Some c)
    have f: "find (failing sp) ?plan = Some c"
      unfolding plan by (simp add: find_append_none [OF noP] find_append_first [OF Some])
    have t: "takeWhile (\<lambda>c. \<not> failing sp c) ?plan = ?P @ takeWhile (\<lambda>c. \<not> failing sp c) ?Q"
      unfolding plan by (simp add: takeWhile_append_none [OF noP] takeWhile_append_first [OF Some])
    have "fst c = Query" using find_member [OF Some] by (rule queryChecks_source)
    then have src: "fst (check_error sp c) = Query" by (cases c) simp
    from validateAndDispatch_first_failure [OF readable f, where this = this and connInfo = connInfo]
    show ?thesis by (simp add: Some h t src)
  next
    case None
    have fq: "find (failing sp) ?plan = find (failing sp) ?R"
      unfolding plan by (simp add: find_append_none [OF noP] find_append_none [OF None])
    have tq: "takeWhile (\<lambda>c. \<not> failing sp c) ?plan = ?P @ ?Q @ takeWhile (\<lambda>c. \<not> failing sp c) ?R"
      unfolding plan by (simp add: takeWhile_append_none [OF noP] takeWhile_append_none [OF None])
    have "\<exists>rest. snd (fst (handle sp this request connInfo)) =
            bodyRead r @ map check_event ?P @ map check_event ?Q @ rest"
    proof (cases "find (failing sp) ?plan")
      case (Some c)
      from validateAndDispatch_first_failure [OF readable Some, where this = this and connInfo = connInfo]
      have "snd (fst (handle sp this request connInfo)) =
              bodyRead r @ map check_event ?P @ map check_event ?Q
              @ (map check_event (takeWhile (\<lambda>c. \<not> failing sp c) ?R) @ [check_event c])"
        by (simp add: h tq)
      then show ?thesis by blast
    next
      case None
      from validateAndDispatch_all_pass [OF readable None, where this = this and connInfo = connInfo]
      obtain ctx where "validateAndDispatch sp this r params request connInfo =
             (case invoke sp this (handler r) ctx of
                (Inl e, this') \<Rightarrow>
                  ((Rejected e, bodyRead r @ map check_event ?plan @ [Invoke]), this')
              | (Inr t, this') \<Rightarrow>
                  ((Resolved (toResponse t), bodyRead r @ map check_event ?plan @ [Invoke]), this'))"
        by blast
      then have "snd (fst (handle sp this request connInfo)) = bodyRead r @ map check_event ?plan @ [Invoke]"
        by (simp add: h split: prod.splits sum.splits)
      then have "snd (fst (handle sp this request connInfo)) =
              bodyRead r @ map check_event ?P @ map check_event ?Q @ (map check_event ?R @ [Invoke])"
        by (simp add: plan)
      then show ?thesis by blast
    qed
    with None show ?thesis by simp
  qed
qed

text \<open>
  C3. For the declared query parameters of a route configuration, the checks of the query
  loop hand to validation, for a key whose unwrapped schema is an array, the list of all
  values of the key in the query string, and for every other key the first value of the
  key (or null when there is none). A registration stores a route with exactly these
  query schemas where dispatch looks routes up. For a request matched to such a route,
  with a readable body and valid path parameters, \<open>handle\<close> performs these checks in order
  after those of the path parameters: at the first that fails it answers with the
  validation error handler's response for the query channel and that check's error,
  and if none fails all of them were performed, on exactly these raw values.
\<close>

theorem query_raw_values:
  assumes "cfg_request config = Some rq" and "rq_query rq = Some record"
  shows "\<exists>qs. extractRequestQuerySchema config = Some qs \<and>
           queryChecks searchParams qs =
             map (\<lambda>(key, schema).
                    (Query, Some key, schema,
                     if instanceofZodArray (unwrapZodType schema)
                     then JArr (map (\<lambda>(k, v). JStr v) (filter (\<lambda>(k, v). k = key) searchParams))
                     else (case filter (\<lambda>(k, v). k = key) searchParams of
                             [] \<Rightarrow> JNull
                           | (k, v) # rest \<Rightarrow> JStr v))) record \<and>
           (\<forall>acc. snd (validateQuery sp searchParams qs acc) =
              map check_event (case find (failing sp) (queryChecks searchParams qs) of
                                 None \<Rightarrow> queryChecks searchParams qs
                               | Some c \<Rightarrow>
                                   takeWhile (\<lambda>c. \<not> failing sp c) (queryChecks searchParams qs) @ [c])) \<and>
           (\<forall>this request routes r params connInfo.
              routesByUppercasedMethodMap this (req_method request) = Some routes \<and>
              matchRoute routes (req_pathname request) = Some (r, params) \<and>
              querySchemas r = Some qs \<and> bodyReadable r request \<and>
              (\<forall>c \<in> set (entryChecks Params (case params of None \<Rightarrow> [] | Some g \<Rightarrow> g)
                               (case paramSchemas r of None \<Rightarrow> [] | Some ps \<Rightarrow> ps)). \<not> failing sp c) \<longrightarrow>
              (case find (failing sp) (queryChecks (req_searchParams request) qs) of
                 Some c \<Rightarrow>
                   handle sp this request connInfo =
                     ((Resolved (errorHandlerOf this r Query (snd (check_error sp c))),
                       bodyRead r
                       @ map check_event (entryChecks Params (case params of None \<Rightarrow> [] | Some g \<Rightarrow> g)
                                            (case paramSchemas r of None \<Rightarrow> [] | Some ps \<Rightarrow> ps))
                       @ map check_event (takeWhile (\<lambda>c. \<not> failing sp c)
                                            (queryChecks (req_searchParams request) qs))
                       @ [check_event c]), this)
               | None \<Rightarrow>
                   (\<exists>rest. snd (fst (handle sp this request connInfo)) =
                      bodyRead r
                      @ map check_event (entryChecks Params (case params of None \<Rightarrow> [] | Some g \<Rightarrow> g)
                                           (case paramSchemas r of None \<Rightarrow> [] | Some ps \<Rightarrow> ps))
                      @ map check_event (queryChecks (req_searchParams request) qs)
                      @ rest))) \<and>
           (\<forall>new_URLPattern m p h veh this this' ep.
              registerMethod new_URLPattern m p h veh this = Inr this' \<and>
              endpoints_get (endpoints this) p m = Some ep \<and> ep_config ep = config \<longrightarrow>
              (\<exists>routes r. routesByUppercasedMethodMap this' (toUpperCase (cfg_method config)) = Some routes \<and>
                 (byPathMap routes p = Some r \<or> r \<in> set (patternList routes)) \<and>
                 byPathTemplateMap routes (cfg_path config) = Some r \<and>
                 path r = p \<and> querySchemas r = Some qs))"
proof -
  let ?qs = "map (\<lambda>(key, schema). \<lparr>qs_key = key, qs_schema = schema,
                    qs_isArray = instanceofZodArray (unwrapZodType schema)\<rparr>) record"
  have qs: "extractRequestQuerySchema config = Some ?qs"
    using assms by (simp add: extractRequestQuerySchema_def)
  have checks: "queryChecks searchParams ?qs =
             map (\<lambda>(key, schema).
                    (Query, Some key, schema,
                     if instanceofZodArray (unwrapZodType schema)
                     then JArr (map (\<lambda>(k, v). JStr v) (filter (\<lambda>(k, v). k = key) searchParams))
                     else (case filter (\<lambda>(k, v). k = key) searchParams of
                             [] \<Rightarrow> JNull
                           | (k, v) # rest \<Rightarrow> JStr v))) record"
    by (auto simp: queryChecks_def queryRawValue_def searchParams_getAll_def searchParams_get_first)
  have reg: "\<exists>routes r. routesByUppercasedMethodMap this' (toUpperCase (cfg_method config)) = Some routes \<and>
                 (byPathMap routes p = Some r \<or> r \<in> set (patternList routes)) \<and>
                 byPathTemplateMap routes (cfg_path config) = Some r \<and>
                 path r = p \<and> querySchemas r = Some ?qs"
    if "registerMethod new_URLPattern m p h veh this = Inr this' \<and>
        endpoints_get (endpoints this) p m = Some ep \<and> ep_config ep = config"
    for new_URLPattern m p h veh this this' ep
    using that qs
    by (auto simp: registerMethod_def addRoute_def Let_def split: if_splits option.splits)
  have hq: "(\<forall>this request routes r params connInfo.
              routesByUppercasedMethodMap this (req_method request) = Some routes \<and>
              matchRoute routes (req_pathname request) = Some (r, params) \<and>
              querySchemas r = Some ?qs \<and> bodyReadable r request \<and>
              (\<forall>c \<in> set (entryChecks Params (case params of None \<Rightarrow> [] | Some g \<Rightarrow> g)
                               (case paramSchemas r of None \<Rightarrow> [] | Some ps \<Rightarrow> ps)). \<not> failing sp c) \<longrightarrow>
              (case find (failing sp) (queryChecks (req_searchParams request) ?qs) of
                 Some c \<Rightarrow>
                   handle sp this request connInfo =
                     ((Resolved (errorHandlerOf this r Query (snd (check_error sp c))),
                       bodyRead r
                       @ map check_event (entryChecks Params (case params of None \<Rightarrow> [] | Some g \<Rightarrow> g)
                                            (case paramSchemas r of None \<Rightarrow> [] | Some ps \<Rightarrow> ps))
                       @ map check_event (takeWhile (\<lambda>c. \<not> failing sp c)
                                            (queryChecks (req_searchParams request) ?qs))
                       @ [check_event c]), this)
               | None \<Rightarrow>
                   (\<exists>rest. snd (fst (handle sp this request connInfo)) =
                      bodyRead r
                      @ map check_event (entryChecks Params (case params of None \<Rightarrow> [] | Some g \<Rightarrow> g)
                                           (case paramSchemas r of None \<Rightarrow> [] | Some ps \<Rightarrow> ps))
                      @ map check_event (queryChecks (req_searchParams request) ?qs)
                      @ rest)))"
    using handle_query_checks by blast
  show ?thesis
    apply (rule exI [of _ ?qs])
    using qs checks reg validateQuery_trace hq by blast
qed

text \<open>
  The sample router's \<open>PUT /users/{id}\<close>, whose query declares \<open>tag\<close> as an optional array
  and \<open>dryRun\<close> as a string: with \<open>?tag=a&dryRun=1&tag=b&dryRun=2\<close> the router validates
  \<open>tag\<close> against \<open>["a","b"]\<close> and \<open>dryRun\<close> against \<open>"1"\<close>; with \<open>?tag=a\<close> it validates \<open>dryRun\<close>
  against null and answers with the error of the query channel.
\<close>

theorem query_raw_values_witness:
  "\<exists>qs. extractRequestQuerySchema samplePut = Some qs \<and>
     (\<exists>routes r. routesByUppercasedMethodMap sampleRouter ''PUT'' = Some routes \<and>
        r \<in> set (patternList routes) \<and> path r = ''/users/{id}'' \<and> querySchemas r = Some qs) \<and>
     (\<exists>rest. snd (fst (handle sampleParse sampleRouter
                \<lparr>req_method = ''PUT'', req_pathname = ''/users/abc'',
                 req_searchParams = [(''tag'', ''a''), (''dryRun'', ''1''), (''tag'', ''b''), (''dryRun'', ''2'')],
                 req_headers = [], req_payload = Json (JNum 1)\<rparr> ''conn'')) =
        [JsonRead, SafeParse Params (Some ''id'') (JStr ''abc''),
         SafeParse Query (Some ''tag'') (JArr [JStr ''a'', JStr ''b'']),
         SafeParse Query (Some ''dryRun'') (JStr ''1'')] @ rest) \<and>
     fst (handle sampleParse sampleRouter
            \<lparr>req_method = ''PUT'', req_pathname = ''/users/abc'',
             req_searchParams = [(''tag'', ''a'')],
             req_headers = [], req_payload = Json (JNum 1)\<rparr> ''conn'') =
       (Resolved \<lparr>status = 400, resp_headers = [(''Content-Type'', ''application/json'')],
                  resp_body = BodyJson (JObj [(''message'', JStr ''Request validation failed''),
                                              (''source'', JStr ''query''),
                                              (''errors'', JArr [JStr ''Expected string''])])\<rparr>,
        [JsonRead, SafeParse Params (Some ''id'') (JStr ''abc''),
         SafeParse Query (Some ''tag'') (JArr [JStr ''a'']),
         SafeParse Query (Some ''dryRun'') JNull])"
proof -
  let ?sp1 = "[(''tag'', ''a''), (''dryRun'', ''1''), (''tag'', ''b''), (''dryRun'', ''2'')]"
  let ?sp2 = "[(''tag'', ''a'')]"
  let ?r1 = "\<lparr>req_method = ''PUT'', req_pathname = ''/users/abc'', req_searchParams = ?sp1,
              req_headers = [], req_payload = Json (JNum 1)\<rparr>"
  let ?r2 = "\<lparr>req_method = ''PUT'', req_pathname = ''/users/abc'', req_searchParams = ?sp2,
              req_headers = [], req_payload = Json (JNum 1)\<rparr>"
  let ?tag = "Zod (ZodOptional (Zod (ZodArray zString None None) None None)) None None"
  let ?rq = "\<lparr>rq_body = Some \<lparr>rb_content = [(''application/json'',
                                        \<lparr>mt_schema = ZodSchema zNumber, mt_rest = []\<rparr>)],
                                     rb_rest = []\<rparr>,
                    rq_params = Some [(''id'', zString)],
                    rq_query = Some [(''tag'', ?tag), (''dryRun'', zString)],
                    rq_headers = Some [(''X-Some-Uuid'', zString)]\<rparr>"
  let ?rcd = "[(''tag'', ?tag), (''dryRun'', zString)]"
  let ?qs = "[\<lparr>qs_key = ''tag'', qs_schema = ?tag, qs_isArray = True\<rparr>,
              \<lparr>qs_key = ''dryRun'', qs_schema = zString, qs_isArray = False\<rparr>]"
  have a: "cfg_request samplePut = Some ?rq" by (simp add: samplePut_def)
  have b: "rq_query ?rq = Some ?rcd" by simp
  from query_raw_values [OF a b, where sp = sampleParse]
  obtain qs where qs: "extractRequestQuerySchema samplePut = Some qs"
    and hq: "\<forall>this request routes r params connInfo.
              routesByUppercasedMethodMap this (req_method request) = Some routes \<and>
              matchRoute routes (req_pathname request) = Some (r, params) \<and>
              querySchemas r = Some qs \<and> bodyReadable r request \<and>
              (\<forall>c \<in> set (entryChecks Params (case params of None \<Rightarrow> [] | Some g \<Rightarrow> g)
                               (case paramSchemas r of None \<Rightarrow> [] | Some ps \<Rightarrow> ps)). \<not> failing sampleParse c) \<longrightarrow>
              (case find (failing sampleParse) (queryChecks (req_searchParams request) qs) of
                 Some c \<Rightarrow>
                   handle sampleParse this request connInfo =
                     ((Resolved (errorHandlerOf this r Query (snd (check_error sampleParse c))),
                       bodyRead r
                       @ map check_event (entryChecks Params (case params of None \<Rightarrow> [] | Some g \<Rightarrow> g)
                                            (case paramSchemas r of None \<Rightarrow> [] | Some ps \<Rightarrow> ps))
                       @ map check_event (takeWhile (\<lambda>c. \<not> failing sampleParse c)
                                            (queryChecks (req_searchParams request) qs))
                       @ [check_event c]), this)
               | None \<Rightarrow>
                   (\<exists>rest. snd (fst (handle sampleParse this request connInfo)) =
                      bodyRead r
                      @ map check_event (entryChecks Params (case params of None \<Rightarrow> [] | Some g \<Rightarrow> g)
                                           (case paramSchemas r of None \<Rightarrow> [] | Some ps \<Rightarrow> ps))
                      @ map check_event (queryChecks (req_searchParams request) qs)
                      @ rest))"
    by blast
  have "extractRequestQuerySchema samplePut = Some ?qs"
    by (simp add: extractRequestQuerySchema_def samplePut_def zString_def)
  with qs have qs_eq: "qs = ?qs" by simp
  obtain routes where routes: "routesByUppercasedMethodMap sampleRouter ''PUT'' = Some routes"
    and exact: "byPathMap routes = Map.empty" and patterns: "patternList routes = [putRoute]"
    using sampleRouter_PUT by blast
  have pq: "querySchemas putRoute = Some qs" "path putRoute = ''/users/{id}''"
    by (simp_all add: putRoute_def qs_eq)
  have table: "\<exists>routes r. routesByUppercasedMethodMap sampleRouter ''PUT'' = Some routes \<and>
        r \<in> set (patternList routes) \<and> path r = ''/users/{id}'' \<and> querySchemas r = Some qs"
  proof -
    have "putRoute \<in> set (patternList routes)" by (simp add: patterns)
    with routes pq show ?thesis by blast
  qed
  have m: "matchRoute routes ''/users/abc'' = Some (putRoute, Some [(''id'', ''abc'')])"
    by (simp add: matchRoute_def exact patterns urlPattern_test_def putRoute_def samplePattern_def
          splitPath_samples del: splitPath.simps)
  have P: "entryChecks Params [(''id'', ''abc'')] (case paramSchemas putRoute of None \<Rightarrow> [] | Some ps \<Rightarrow> ps)
             = [(Params, Some ''id'', zString, JStr ''abc'')]"
    by (simp add: entryChecks_def putRoute_def strProp_def)
  have pass: "\<not> failing sampleParse (Params, Some ''id'', zString, JStr ''abc'')"
    by (simp add: sampleParse_def zString_def)
  have br: "bodyRead putRoute = [JsonRead]" by (simp add: bodyRead_def putRoute_def)
  have q1: "queryChecks ?sp1 qs =
              [(Query, Some ''tag'', ?tag, JArr [JStr ''a'', JStr ''b'']),
               (Query, Some ''dryRun'', zString, JStr ''1'')]"
    by (simp add: qs_eq queryChecks_def queryRawValue_def searchParams_getAll_def searchParams_get_def)
  have q2: "queryChecks ?sp2 qs =
              [(Query, Some ''tag'', ?tag, JArr [JStr ''a'']),
               (Query, Some ''dryRun'', zString, JNull)]"
    by (simp add: qs_eq queryChecks_def queryRawValue_def searchParams_getAll_def searchParams_get_def)
  have f1: "find (failing sampleParse) (queryChecks ?sp1 qs) = None"
    by (simp add: q1 sampleParse_def zString_def)
  have f2: "find (failing sampleParse) (queryChecks ?sp2 qs) = Some (Query, Some ''dryRun'', zString, JNull)"
    by (simp add: q2 sampleParse_def zString_def)
  have t2: "takeWhile (\<lambda>c. \<not> failing sampleParse c) (queryChecks ?sp2 qs) = [(Query, Some ''tag'', ?tag, JArr [JStr ''a''])]"
    by (simp add: q2 sampleParse_def zString_def)
  have e2: "snd (check_error sampleParse (Query, Some ''dryRun'', zString, JNull)) = [JStr ''Expected string'']"
    by (simp add: sampleParse_def zString_def)
  have eh: "errorHandlerOf sampleRouter putRoute Query [JStr ''Expected string''] =
              \<lparr>status = 400, resp_headers = [(''Content-Type'', ''application/json'')],
               resp_body = BodyJson (JObj [(''message'', JStr ''Request validation failed''),
                                           (''source'', JStr ''query''),
                                           (''errors'', JArr [JStr ''Expected string''])])\<rparr>"
    by (simp add: errorHandlerOf_def putRoute_def sampleRouter_default default_defaultValidationErrorHandler_def)
  have pa: "\<forall>c \<in> set (entryChecks Params (case Some [(''id'', ''abc'')] of None \<Rightarrow> [] | Some g \<Rightarrow> g)
                               (case paramSchemas putRoute of None \<Rightarrow> [] | Some ps \<Rightarrow> ps)).
                 \<not> failing sampleParse c"
    using pass by (simp add: P del: failing.simps)
  have rm1: "routesByUppercasedMethodMap sampleRouter (req_method ?r1) = Some routes"
    and rm2: "routesByUppercasedMethodMap sampleRouter (req_method ?r2) = Some routes"
    using routes by simp_all
  have m1: "matchRoute routes (req_pathname ?r1) = Some (putRoute, Some [(''id'', ''abc'')])"
    and m2: "matchRoute routes (req_pathname ?r2) = Some (putRoute, Some [(''id'', ''abc'')])"
    using m by simp_all
  have rd1: "bodyReadable putRoute ?r1" and rd2: "bodyReadable putRoute ?r2"
    by (simp_all add: bodyReadable_def putRoute_def)
  have c1: "routesByUppercasedMethodMap sampleRouter (req_method ?r1) = Some routes \<and>
              matchRoute routes (req_pathname ?r1) = Some (putRoute, Some [(''id'', ''abc'')]) \<and>
              querySchemas putRoute = Some qs \<and> bodyReadable putRoute ?r1 \<and>
              (\<forall>c \<in> set (entryChecks Params (case Some [(''id'', ''abc'')] of None \<Rightarrow> [] | Some g \<Rightarrow> g)
                               (case paramSchemas putRoute of None \<Rightarrow> [] | Some ps \<Rightarrow> ps)).
                 \<not> failing sampleParse c)"
    using rm1 m1 pq(1) rd1 pa by (intro conjI)
  have c2: "routesByUppercasedMethodMap sampleRouter (req_method ?r2) = Some routes \<and>
              matchRoute routes (req_pathname ?r2) = Some (putRoute, Some [(''id'', ''abc'')]) \<and>
              querySchemas putRoute = Some qs \<and> bodyReadable putRoute ?r2 \<and>
              (\<forall>c \<in> set (entryChecks Params (case Some [(''id'', ''abc'')] of None \<Rightarrow> [] | Some g \<Rightarrow> g)
                               (case paramSchemas putRoute of None \<Rightarrow> [] | Some ps \<Rightarrow> ps)).
                 \<not> failing sampleParse c)"
    using rm2 m2 pq(1) rd2 pa by (intro conjI)
  from hq [THEN spec [where x = sampleRouter], THEN spec [where x = ?r1], THEN spec [where x = routes],
      THEN spec [where x = putRoute], THEN spec [where x = "Some [(''id'', ''abc'')]"],
      THEN spec [where x = "''conn''"], THEN mp, OF c1]
  have w1: "\<exists>rest. snd (fst (handle sampleParse sampleRouter ?r1 ''conn'')) =
        [JsonRead, SafeParse Params (Some ''id'') (JStr ''abc''),
         SafeParse Query (Some ''tag'') (JArr [JStr ''a'', JStr ''b'']),
         SafeParse Query (Some ''dryRun'') (JStr ''1'')] @ rest"
    by (simp add: f1 P br) (simp add: q1)
  from hq [THEN spec [where x = sampleRouter], THEN spec [where x = ?r2], THEN spec [where x = routes],
      THEN spec [where x = putRoute], THEN spec [where x = "Some [(''id'', ''abc'')]"],
      THEN spec [where x = "''conn''"], THEN mp, OF c2]
  have w2: "fst (handle sampleParse sampleRouter ?r2 ''conn'') =
       (Resolved \<lparr>status = 400, resp_headers = [(''Content-Type'', ''application/json'')],
                  resp_body = BodyJson (JObj [(''message'', JStr ''Request validation failed''),
                                              (''source'', JStr ''query''),
                                              (''errors'', JArr [JStr ''Expected string''])])\<rparr>,
        [JsonRead, SafeParse Params (Some ''id'') (JStr ''abc''),
         SafeParse Query (Some ''tag'') (JArr [JStr ''a'']),
         SafeParse Query (Some ''dryRun'') JNull])"
    by (simp add: f2 t2 e2 eh P br del: check_error.simps)
  from qs table w1 w2 show ?thesis by blast
qed

subsection \<open>Declared header keys are looked up as written\<close>

text \<open>
  The header object of a request has lower-case keys only, so a declared key that is not
  in lower case reads as undefined whatever the request carries.
\<close>

lemma toLowerCase_char_idem: "toLowerCase_char (toLowerCase_char c) = toLowerCase_char c"
  by (simp add: toLowerCase_char_def)

lemma toLowerCase_idem: "toLowerCase (toLowerCase s) = toLowerCase s"
  by (simp add: toLowerCase_def toLowerCase_char_idem)

lemma headers_entries_keys:
  "fst ` set (headers_entries hs) \<subseteq> toLowerCase ` fst ` set hs"
proof -
  have "fst ` set (foldl (\<lambda>acc (name, v).
              case map_of acc (toLowerCase name) of
                None \<Rightarrow> acc @ [(toLowerCase name, v)]
              | Some old \<Rightarrow> AList.update (toLowerCase name) (old @ '', '' @ v) acc) acc hs)
        \<subseteq> fst ` set acc \<union> toLowerCase ` fst ` set hs" for acc
  proof (induction hs arbitrary: acc)
    case Nil
    show ?case by simp
  next
    case (Cons a hs)
    obtain name v where a: "a = (name, v)" by (cases a)
    show ?case
    proof (cases "map_of acc (toLowerCase name)")
      case None
      with Cons [of "acc @ [(toLowerCase name, v)]"] show ?thesis
        by (auto simp: a)
    next
      case (Some old)
      have "fst ` set (AList.update (toLowerCase name) (old @ '', '' @ v) acc)
              = fst ` set acc \<union> {toLowerCase name}"
        using dom_update [of "toLowerCase name" "old @ '', '' @ v" acc]
        by auto
      with Cons [of "AList.update (toLowerCase name) (old @ '', '' @ v) acc"] Some show ?thesis
        by (auto simp: a)
    qed
  qed
  from this [of "[]"] show ?thesis by (simp add: headers_entries_def)
qed

lemma declared_header_not_lower_case:
  assumes "key \<noteq> toLowerCase key"
  shows "strProp (headers_entries hs) key = JUndefined"
proof -
  have "key \<notin> fst ` set (headers_entries hs)"
  proof
    assume "key \<in> fst ` set (headers_entries hs)"
    with headers_entries_keys [of hs] obtain n where "key = toLowerCase n" by auto
    with assms show False by (simp add: toLowerCase_idem)
  qed
  then have "map_of (headers_entries hs) key = None"
    by (simp add: map_of_eq_None_iff)
  then show ?thesis by (simp add: strProp_def)
qed

text \<open>
  C6. The claim fails on the code: for the header declared as \<open>X-Some-Uuid\<close> and a request
  that carries \<open>x-some-uuid: u1\<close>, the header schema is applied to \<open>undefined\<close> and the
  request is refused with the headers-channel error.
\<close>

theorem declared_header_case_sensitive:
  "fst (handle sampleParse sampleRouter
          \<lparr>req_method = ''PUT'', req_pathname = ''/users/abc'',
           req_searchParams = [(''dryRun'', ''1'')],
           req_headers = [(''x-some-uuid'', ''u1'')], req_payload = Json (JNum 3)\<rparr> ''conn'') =
     (Resolved (default_defaultValidationErrorHandler Headers [JStr ''Expected string'']),
      [JsonRead, SafeParse Params (Some ''id'') (JStr ''abc''),
       SafeParse Query (Some ''tag'') (JArr []), SafeParse Query (Some ''dryRun'') (JStr ''1''),
       SafeParse Headers (Some ''X-Some-Uuid'') JUndefined])"
proof -
  let ?request = "\<lparr>req_method = ''PUT'', req_pathname = ''/users/abc'',
           req_searchParams = [(''dryRun'', ''1'')],
           req_headers = [(''x-some-uuid'', ''u1'')], req_payload = Json (JNum 3)\<rparr>"
  obtain routes where routes: "routesByUppercasedMethodMap sampleRouter ''PUT'' = Some routes"
    and exact: "byPathMap routes = Map.empty" and patterns: "patternList routes = [putRoute]"
    using sampleRouter_PUT by blast
  have r: "routesByUppercasedMethodMap sampleRouter (req_method ?request) = Some routes"
    using routes by simp
  have m: "matchRoute routes (req_pathname ?request) = Some (putRoute, Some [(''id'', ''abc'')])"
    by (simp add: matchRoute_def exact patterns urlPattern_test_def putRoute_def samplePattern_def
          splitPath_samples del: splitPath.simps)
  have "toLowerCase ''x-some-uuid'' = ''x-some-uuid''"
    by (simp add: toLowerCase_def toLowerCase_char_def)
  then have hd: "headers_entries [(''x-some-uuid'', ''u1'')] = [(''x-some-uuid'', ''u1'')]"
    by (simp add: headers_entries_def)
  have "fst (validateAndDispatch sampleParse sampleRouter putRoute (Some [(''id'', ''abc'')]) ?request ''conn'') =
     (Resolved (default_defaultValidationErrorHandler Headers [JStr ''Expected string'']),
      [JsonRead, SafeParse Params (Some ''id'') (JStr ''abc''),
       SafeParse Query (Some ''tag'') (JArr []), SafeParse Query (Some ''dryRun'') (JStr ''1''),
       SafeParse Headers (Some ''X-Some-Uuid'') JUndefined])"
    by (simp add: validateAndDispatch_def putRoute_def Let_def hd sampleRouter_default
          sampleParse_def zString_def zNumber_def strProp_def queryRawValue_def
          searchParams_get_def searchParams_getAll_def)
  with handle_matched [OF r m] show ?thesis by simp
qed

subsection \<open>The body is read as JSON before anything is validated\<close>

text \<open>
  C7, as stated, fails: a malformed body on a route with a body schema makes \<open>handle\<close>
  reject with the parser's exception; no response is produced.
\<close>

theorem malformed_json_rejects:
  "fst (handle sampleParse sampleRouter
          \<lparr>req_method = ''POST'', req_pathname = ''/users/abc'', req_searchParams = [],
           req_headers = [], req_payload = NotJson ''{''\<rparr> ''conn'') =
     (Rejected SyntaxError, [JsonRead])"
proof -
  let ?request = "\<lparr>req_method = ''POST'', req_pathname = ''/users/abc'', req_searchParams = [],
                   req_headers = [], req_payload = NotJson ''{''\<rparr>"
  obtain routes where routes: "routesByUppercasedMethodMap sampleRouter ''POST'' = Some routes"
    and exact: "byPathMap routes = Map.empty" and patterns: "patternList routes = [postRoute]"
    using sampleRouter_POST by blast
  have r: "routesByUppercasedMethodMap sampleRouter (req_method ?request) = Some routes"
    using routes by simp
  have m: "matchRoute routes (req_pathname ?request) = Some (postRoute, Some [(''id'', ''abc'')])"
    by (simp add: matchRoute_def exact patterns urlPattern_test_def postRoute_def samplePattern_def
          splitPath_samples del: splitPath.simps)
  have "\<not> bodyReadable postRoute ?request"
    by (simp add: bodyReadable_def postRoute_def)
  from validateAndDispatch_unreadable [OF this] handle_matched [OF r m] show ?thesis by simp
qed

text \<open>
  C7, amended. When the matched route declares a body schema, the first call of \<open>handle\<close>
  is the JSON read of the body. If the body is not well-formed JSON, \<open>handle\<close> rejects with
  the parser's exception and neither validates nor calls the handler. If it is
  well-formed, the first failing check yields the validation error handler's response
  for its channel (the body channel for a schema mismatch of the body), and with no
  failing check the handler is called.
\<close>

theorem handle_reads_json_first:
  assumes routes: "routesByUppercasedMethodMap this (req_method request) = Some routes"
    and matched: "matchRoute routes (req_pathname request) = Some (r, params)"
    and schema: "bodySchema r = Some s"
  shows "(\<exists>rest. snd (fst (handle sp this request connInfo)) = JsonRead # rest)
       \<and> ((\<forall>v. req_payload request \<noteq> Json v) \<longrightarrow>
            handle sp this request connInfo = ((Rejected SyntaxError, [JsonRead]), this))
       \<and> (\<forall>v. req_payload request = Json v \<longrightarrow>
            (case find (failing sp) (plannedChecks r params request) of
               Some c \<Rightarrow>
                 fst (fst (handle sp this request connInfo)) =
                   Resolved (errorHandlerOf this r (fst (check_error sp c)) (snd (check_error sp c)))
             | None \<Rightarrow> Invoke \<in> set (snd (fst (handle sp this request connInfo)))))
       \<and> (\<forall>v. req_payload request = Json v \<and>
              find (failing sp) (plannedChecks r params request) = Some (Body, None, s, v) \<longrightarrow>
            fst (fst (handle sp this request connInfo)) =
              Resolved (errorHandlerOf this r Body (projl (sp s v))))"
proof -
  have h: "handle sp this request connInfo = validateAndDispatch sp this r params request connInfo"
    by (rule handle_matched [OF routes matched])
  have br: "bodyRead r = [JsonRead]" using schema by (simp add: bodyRead_def)
  have unreadable: "handle sp this request connInfo = ((Rejected SyntaxError, [JsonRead]), this)"
    if "\<forall>v. req_payload request \<noteq> Json v"
  proof -
    from that schema have "\<not> bodyReadable r request"
      by (auto simp: bodyReadable_def split: payload.splits)
    from validateAndDispatch_unreadable [OF this] h show ?thesis by simp
  qed
  have readable: "(case find (failing sp) (plannedChecks r params request) of
               Some c \<Rightarrow>
                 handle sp this request connInfo =
                   ((Resolved (errorHandlerOf this r (fst (check_error sp c)) (snd (check_error sp c))),
                     JsonRead # map check_event (takeWhile (\<lambda>c. \<not> failing sp c) (plannedChecks r params request))
                       @ [check_event c]), this)
             | None \<Rightarrow>
                 (\<exists>rest. snd (fst (handle sp this request connInfo)) = JsonRead # rest @ [Invoke]))"
    if v: "req_payload request = Json v" for v
  proof -
    from v schema have b: "bodyReadable r request" by (simp add: bodyReadable_def)
    show ?thesis
    proof (cases "find (failing sp) (plannedChecks r params request)")
      case None
      from validateAndDispatch_all_pass [OF b None, where this = this and connInfo = connInfo]
      obtain ctx where "validateAndDispatch sp this r params request connInfo =
             (case invoke sp this (handler r) ctx of
                (Inl e, this') \<Rightarrow>
                  ((Rejected e, bodyRead r @ map check_event (plannedChecks r params request) @ [Invoke]), this')
              | (Inr t, this') \<Rightarrow>
                  ((Resolved (toResponse t),
                    bodyRead r @ map check_event (plannedChecks r params request) @ [Invoke]), this'))"
        by blast
      then have "snd (fst (handle sp this request connInfo)) =
                   JsonRead # map check_event (plannedChecks r params request) @ [Invoke]"
        using h br by (auto split: prod.splits sum.splits)
      with None show ?thesis by simp
    next
      case (Some c)
      with validateAndDispatch_first_failure [OF b Some, where this = this and connInfo = connInfo] h br
      show ?thesis by simp
    qed
  qed
  have first: "\<exists>rest. snd (fst (handle sp this request connInfo)) = JsonRead # rest"
  proof (cases "\<exists>v. req_payload request = Json v")
    case False
    with unreadable show ?thesis by simp
  next
    case True
    then obtain v where v: "req_payload request = Json v" by blast
    from readable [OF v] show ?thesis
      by (cases "find (failing sp) (plannedChecks r params request)") auto
  qed
  have third: "(case find (failing sp) (plannedChecks r params request) of
               Some c \<Rightarrow>
                 fst (fst (handle sp this request connInfo)) =
                   Resolved (errorHandlerOf this r (fst (check_error sp c)) (snd (check_error sp c)))
             | None \<Rightarrow> Invoke \<in> set (snd (fst (handle sp this request connInfo))))"
    if v: "req_payload request = Json v" for v
    using readable [OF v]
    by (cases "find (failing sp) (plannedChecks r params request)") auto
  have fourth: "fst (fst (handle sp this request connInfo)) =
              Resolved (errorHandlerOf this r Body (projl (sp s v)))"
    if "req_payload request = Json v \<and>
        find (failing sp) (plannedChecks r params request) = Some (Body, None, s, v)" for v
    using third [of v] that by simp
  from first unreadable third fourth show ?thesis by blast
qed

theorem handle_reads_json_first_witness:
  "fst (handle sampleParse sampleRouter
          \<lparr>req_method = ''PATCH'', req_pathname = ''/notes'', req_searchParams = [],
           req_headers = [], req_payload = NotJson ''{''\<rparr> ''conn'') =
     (Rejected SyntaxError, [JsonRead])
   \<and> fst (fst (handle sampleParse sampleRouter
          \<lparr>req_method = ''PATCH'', req_pathname = ''/notes'', req_searchParams = [],
           req_headers = [], req_payload = Json (JStr ''x'')\<rparr> ''conn'')) =
     Resolved (default_defaultValidationErrorHandler Body [JStr ''Expected number''])"
proof -
  let ?bad = "\<lparr>req_method = ''PATCH'', req_pathname = ''/notes'', req_searchParams = [],
               req_headers = [], req_payload = NotJson ''{''\<rparr>"
  let ?mismatch = "\<lparr>req_method = ''PATCH'', req_pathname = ''/notes'', req_searchParams = [],
                    req_headers = [], req_payload = Json (JStr ''x'')\<rparr>"
  obtain routes where routes: "routesByUppercasedMethodMap sampleRouter ''PATCH'' = Some routes"
    and exact: "byPathMap routes = [''/notes'' \<mapsto> patchRoute]"
    using sampleRouter_PATCH by blast
  have s: "bodySchema patchRoute = Some zNumber" by (simp add: patchRoute_def)
  have r1: "routesByUppercasedMethodMap sampleRouter (req_method ?bad) = Some routes"
    using routes by simp
  have m1: "matchRoute routes (req_pathname ?bad) = Some (patchRoute, None)"
    by (simp add: matchRoute_def exact)
  have r2: "routesByUppercasedMethodMap sampleRouter (req_method ?mismatch) = Some routes"
    using routes by simp
  have m2: "matchRoute routes (req_pathname ?mismatch) = Some (patchRoute, None)"
    by (simp add: matchRoute_def exact)
  have one: "fst (handle sampleParse sampleRouter ?bad ''conn'') = (Rejected SyntaxError, [JsonRead])"
    using handle_reads_json_first [OF r1 m1 s, where sp = sampleParse and connInfo = "''conn''"]
    by simp
  have plan: "plannedChecks patchRoute None ?mismatch = [(Body, None, zNumber, JStr ''x'')]"
    by (simp add: plannedChecks_def patchRoute_def entryChecks_def queryChecks_def bodyChecks_def)
  have f: "find (failing sampleParse) (plannedChecks patchRoute None ?mismatch) =
             Some (Body, None, zNumber, JStr ''x'')"
    unfolding plan by (simp add: sampleParse_def zNumber_def)
  have e: "projl (sampleParse zNumber (JStr ''x'')) = [JStr ''Expected number'']"
    by (simp add: sampleParse_def zNumber_def)
  have h: "errorHandlerOf sampleRouter patchRoute = default_defaultValidationErrorHandler"
    by (simp add: errorHandlerOf_def patchRoute_def sampleRouter_default)
  have two: "fst (fst (handle sampleParse sampleRouter ?mismatch ''conn'')) =
               Resolved (default_defaultValidationErrorHandler Body [JStr ''Expected number''])"
    using handle_reads_json_first [OF r2 m2 s, where sp = sampleParse and connInfo = "''conn''"] f e h
    by simp
  from one two show ?thesis by simp
qed

subsection \<open>The memoized document\<close>

lemma callTimes_memoized:
  "memoized cell = Some p \<Longrightarrow>
   callTimes (memoizePromise create) n (cell, w) = (replicate n (Inr p), cell, w)"
  by (induction n) (simp_all add: memoizePromise_def)

lemma docs_dispatch:
  assumes "handler docs = DocsHandler" and "paramSchemas docs = None" and "querySchemas docs = None"
    and "headerSchemas docs = None" and "bodySchema docs = None"
  shows "validateAndDispatch sp this docs params request connInfo =
           (case memoizePromise (docsCreate sp (registry this)) (memorizedDocs this, ()) of
              (Inl e, cell, u) \<Rightarrow> ((Rejected e, [Invoke]), this\<lparr>memorizedDocs := cell\<rparr>)
            | (Inr t, cell, u) \<Rightarrow> ((Resolved (toResponse t), [Invoke]), this\<lparr>memorizedDocs := cell\<rparr>))"
  using assms by (simp add: validateAndDispatch_def invoke_def Let_def split: prod.splits sum.splits)

lemma docsRouter_GET:
  "\<exists>routes. routesByUppercasedMethodMap docsRouter ''GET'' = Some routes \<and>
     byPathMap routes = Map.empty \<and> patternList routes = [docsRoute]"
  by (simp add: docsRouter_def new_OpenapiRouter_def addRoute_def Let_def
        toPatternPath_samples toUpperCase_samples docsRoute_def
        del: toPatternPath.simps)

lemma docsRouter_memo: "memorizedDocs docsRouter = \<lparr>memoized = None, calls = 0\<rparr>"
  by (simp add: docsRouter_def new_OpenapiRouter_def addRoute_def Let_def)

lemma docsRouter_create:
  "docsCreate sampleParse (registry docsRouter) () =
     (Inr (ServerResponse 200 ''application/json''
        (JObj [(''openapi'', JStr ''3.0.0''),
               (''info'', JObj [(''title'', JStr ''Test''), (''version'', JStr ''1.0.0'')]),
               (''components'', JObj [(''schemas'', JObj []), (''parameters'', JObj [])]),
               (''paths'', JObj [(''/docs/openapi'', JObj [(''get'', JObj [(''responses'',
                  JObj [(''200'', JObj [(''description'', JStr ''OpenAPI v3 specification''),
                     (''content'', JObj [(''application/json'', JObj [(''schema'', JObj [])])])])])])])])])
        None), ())"
  by code_simp

text \<open>
  C9, as stated, fails: a \<open>create\<close> that throws before it returns a promise leaves
  \<open>memoized\<close> empty, so the next call runs it again. The \<open>create\<close> of the document endpoint
  is of this kind, the generator being called before \<open>Promise.resolve\<close>: over a registry that
  the generator refuses, two requests for the document run the generation twice and
  both are rejected.
\<close>

theorem throwing_create_runs_again:
  "callTimes (memoizePromise (\<lambda>w. (Inl ''boom'' :: string + nat, Suc w))) 2
     (\<lparr>memoized = None, calls = 0\<rparr>, 0 :: nat)
   = ([Inl ''boom'', Inl ''boom''], \<lparr>memoized = None, calls = 2\<rparr>, 2) \<and>
   fst (handle sampleParse brokenRouter docsRequest ''conn'')
   = (Rejected (GeneratorError (UnknownZodTypeError (JStr ''When'') (ZodOther ''ZodDate''))), [Invoke]) \<and>
   fst (handle sampleParse (snd (handle sampleParse brokenRouter docsRequest ''conn'')) docsRequest ''conn'')
   = (Rejected (GeneratorError (UnknownZodTypeError (JStr ''When'') (ZodOther ''ZodDate''))), [Invoke]) \<and>
   memorizedDocs (snd (handle sampleParse (snd (handle sampleParse brokenRouter docsRequest ''conn'')) docsRequest ''conn''))
   = \<lparr>memoized = None, calls = 2\<rparr>"
  by code_simp

text \<open>
  C9, amended. When the first call of the thunk finds \<open>create\<close> returning a promise, that
  call and every later one return this promise and \<open>create\<close> has run once; once a promise
  is memoized, no call runs \<open>create\<close> or changes anything. When \<open>create\<close> throws, the call
  throws and nothing is memoized. For the document endpoint: a request served from the
  memoized response changes nothing, whatever the registry holds by then; the first
  request whose generation succeeds memoizes its response; a request whose generation
  throws is rejected and memoizes nothing.
\<close>

theorem memoizePromise_single_flight:
  "(memoized cell = None \<and> create w = (Inr p, w') \<longrightarrow>
      callTimes (memoizePromise create) (Suc n) (cell, w)
        = (replicate (Suc n) (Inr p), \<lparr>memoized = Some p, calls = Suc (calls cell)\<rparr>, w')) \<and>
   (memoized cell = Some p \<longrightarrow>
      callTimes (memoizePromise create) n (cell, w) = (replicate n (Inr p), cell, w)) \<and>
   (memoized cell = None \<and> create w = (Inl e, w') \<longrightarrow>
      memoizePromise create (cell, w) = (Inl e, cell\<lparr>calls := Suc (calls cell)\<rparr>, w')) \<and>
   (routesByUppercasedMethodMap this (req_method request) = Some routes \<and>
    matchRoute routes (req_pathname request) = Some (docs, params) \<and>
    handler docs = DocsHandler \<and> paramSchemas docs = None \<and> querySchemas docs = None \<and>
    headerSchemas docs = None \<and> bodySchema docs = None \<longrightarrow>
      (memoized (memorizedDocs this) = Some t \<longrightarrow>
         handle sp this request connInfo = ((Resolved (toResponse t), [Invoke]), this)) \<and>
      (memoized (memorizedDocs this) = None \<and> docsCreate sp (registry this) () = (Inr t, ()) \<longrightarrow>
         handle sp this request connInfo =
           ((Resolved (toResponse t), [Invoke]),
            this\<lparr>memorizedDocs := \<lparr>memoized = Some t, calls = Suc (calls (memorizedDocs this))\<rparr>\<rparr>)) \<and>
      (memoized (memorizedDocs this) = None \<and> docsCreate sp (registry this) () = (Inl x, ()) \<longrightarrow>
         handle sp this request connInfo =
           ((Rejected x, [Invoke]),
            this\<lparr>memorizedDocs := (memorizedDocs this)\<lparr>calls := Suc (calls (memorizedDocs this))\<rparr>\<rparr>)))"
proof (intro conjI impI)
  assume a: "memoized cell = None \<and> create w = (Inr p, w')"
  then have first: "memoizePromise create (cell, w) = (Inr p, \<lparr>memoized = Some p, calls = Suc (calls cell)\<rparr>, w')"
    by (simp add: memoizePromise_def)
  have "memoized \<lparr>memoized = Some p, calls = Suc (calls cell)\<rparr> = Some p" by simp
  from callTimes_memoized [OF this, of create n w'] first
  show "callTimes (memoizePromise create) (Suc n) (cell, w)
        = (replicate (Suc n) (Inr p), \<lparr>memoized = Some p, calls = Suc (calls cell)\<rparr>, w')"
    by simp
next
  assume "memoized cell = Some p"
  then show "callTimes (memoizePromise create) n (cell, w) = (replicate n (Inr p), cell, w)"
    by (rule callTimes_memoized)
next
  assume "memoized cell = None \<and> create w = (Inl e, w')"
  then show "memoizePromise create (cell, w) = (Inl e, cell\<lparr>calls := Suc (calls cell)\<rparr>, w')"
    by (simp add: memoizePromise_def)
next
  assume r: "routesByUppercasedMethodMap this (req_method request) = Some routes \<and>
    matchRoute routes (req_pathname request) = Some (docs, params) \<and>
    handler docs = DocsHandler \<and> paramSchemas docs = None \<and> querySchemas docs = None \<and>
    headerSchemas docs = None \<and> bodySchema docs = None"
  then have h: "handle sp this request connInfo = validateAndDispatch sp this docs params request connInfo"
    using handle_matched by blast
  from r have d: "validateAndDispatch sp this docs params request connInfo =
           (case memoizePromise (docsCreate sp (registry this)) (memorizedDocs this, ()) of
              (Inl e, cell, u) \<Rightarrow> ((Rejected e, [Invoke]), this\<lparr>memorizedDocs := cell\<rparr>)
            | (Inr t, cell, u) \<Rightarrow> ((Resolved (toResponse t), [Invoke]), this\<lparr>memorizedDocs := cell\<rparr>))"
    using docs_dispatch by blast
  {
    assume "memoized (memorizedDocs this) = Some t"
    then show "handle sp this request connInfo = ((Resolved (toResponse t), [Invoke]), this)"
      by (simp add: h d memoizePromise_def)
  next
    assume "memoized (memorizedDocs this) = None \<and> docsCreate sp (registry this) () = (Inr t, ())"
    then show "handle sp this request connInfo =
           ((Resolved (toResponse t), [Invoke]),
            this\<lparr>memorizedDocs := \<lparr>memoized = Some t, calls = Suc (calls (memorizedDocs this))\<rparr>\<rparr>)"
      by (simp add: h d memoizePromise_def)
  next
    assume "memoized (memorizedDocs this) = None \<and> docsCreate sp (registry this) () = (Inl x, ())"
    then show "handle sp this request connInfo =
           ((Rejected x, [Invoke]),
            this\<lparr>memorizedDocs := (memorizedDocs this)\<lparr>calls := Suc (calls (memorizedDocs this))\<rparr>\<rparr>)"
      by (simp add: h d memoizePromise_def)
  }
qed


text \<open>
  Three calls of a thunk whose \<open>create\<close> would return a fresh promise at each run, and two
  requests for the document of the router without routes.
\<close>

theorem memoizePromise_single_flight_witness:
  "callTimes (memoizePromise (\<lambda>w. (Inr w :: string + nat, Suc w))) (Suc 2)
     (\<lparr>memoized = None, calls = 0\<rparr>, 0 :: nat)
   = (replicate (Suc 2) (Inr 0), \<lparr>memoized = Some 0, calls = Suc 0\<rparr>, Suc 0) \<and>
   (\<exists>t. docsCreate sampleParse (registry docsRouter) () = (Inr t, ()) \<and>
     fst (handle sampleParse docsRouter docsRequest ''first'') = (Resolved (toResponse t), [Invoke]) \<and>
     fst (handle sampleParse (snd (handle sampleParse docsRouter docsRequest ''first'')) docsRequest ''second'')
       = (Resolved (toResponse t), [Invoke]) \<and>
     memorizedDocs (snd (handle sampleParse (snd (handle sampleParse docsRouter docsRequest ''first''))
                       docsRequest ''second''))
       = \<lparr>memoized = Some t, calls = Suc 0\<rparr>)"
proof -
  let ?create = "\<lambda>w. (Inr w :: string + nat, Suc w)"
  let ?cell = "\<lparr>memoized = None :: nat option, calls = 0\<rparr>"
  have "memoized ?cell = None \<and> ?create 0 = (Inr 0, Suc 0)" by simp
  from memoizePromise_single_flight [where create = ?create and cell = ?cell and w = 0 and p = 0
      and w' = "Suc 0" and n = 2, THEN conjunct1, THEN mp, OF this]
  have calls: "callTimes (memoizePromise ?create) (Suc 2) (?cell, 0)
      = (replicate (Suc 2) (Inr 0), \<lparr>memoized = Some 0, calls = Suc (calls ?cell)\<rparr>, Suc 0)" .
  obtain t where t: "docsCreate sampleParse (registry docsRouter) () = (Inr t, ())"
    using docsRouter_create by blast
  obtain routes where routes: "routesByUppercasedMethodMap docsRouter ''GET'' = Some routes"
    and exact: "byPathMap routes = Map.empty" and patterns: "patternList routes = [docsRoute]"
    using docsRouter_GET by blast
  have m: "matchRoute routes (req_pathname docsRequest) = Some (docsRoute, Some [])"
    by (simp add: matchRoute_def exact patterns urlPattern_test_def docsRoute_def samplePattern_def
          docsRequest_def splitPath_samples del: splitPath.simps)
  let ?second = "docsRouter\<lparr>memorizedDocs := \<lparr>memoized = Some t, calls = Suc (calls (memorizedDocs docsRouter))\<rparr>\<rparr>"
  have d: "routesByUppercasedMethodMap docsRouter (req_method docsRequest) = Some routes \<and>
      matchRoute routes (req_pathname docsRequest) = Some (docsRoute, Some []) \<and>
      handler docsRoute = DocsHandler \<and> paramSchemas docsRoute = None \<and> querySchemas docsRoute = None \<and>
      headerSchemas docsRoute = None \<and> bodySchema docsRoute = None"
    using routes m by (simp add: docsRoute_def docsRequest_def)
  then have d2: "routesByUppercasedMethodMap ?second (req_method docsRequest) = Some routes \<and>
      matchRoute routes (req_pathname docsRequest) = Some (docsRoute, Some []) \<and>
      handler docsRoute = DocsHandler \<and> paramSchemas docsRoute = None \<and> querySchemas docsRoute = None \<and>
      headerSchemas docsRoute = None \<and> bodySchema docsRoute = None"
    by simp
  note docs1 = memoizePromise_single_flight [where this = docsRouter and request = docsRequest and routes = routes
      and docs = docsRoute and params = "Some []" and t = t and sp = sampleParse and connInfo = "''first''",
      THEN conjunct2, THEN conjunct2, THEN conjunct2, THEN mp, OF d]
  have "memoized (memorizedDocs docsRouter) = None \<and> docsCreate sampleParse (registry docsRouter) () = (Inr t, ())"
    using t by (simp add: docsRouter_memo)
  from docs1 [THEN conjunct2, THEN conjunct1, THEN mp, OF this]
  have first: "handle sampleParse docsRouter docsRequest ''first'' = ((Resolved (toResponse t), [Invoke]), ?second)" .
  note docs2 = memoizePromise_single_flight [where this = ?second and request = docsRequest and routes = routes
      and docs = docsRoute and params = "Some []" and t = t and sp = sampleParse and connInfo = "''second''",
      THEN conjunct2, THEN conjunct2, THEN conjunct2, THEN mp, OF d2]
  have "memoized (memorizedDocs ?second) = Some t" by simp
  from docs2 [THEN conjunct1, THEN mp, OF this]
  have second: "handle sampleParse ?second docsRequest ''second'' = ((Resolved (toResponse t), [Invoke]), ?second)" .
  from calls t first second show ?thesis
    by (simp add: docsRouter_memo)
qed

section \<open>The generator: components\<close>

lemma map_of_spread:
  "map_of (spread a b) k = (case map_of (rev b) k of Some v \<Rightarrow> Some v | None \<Rightarrow> map_of a k)"
proof (induction b arbitrary: a)
  case Nil
  show ?case by (simp add: spread_def)
next
  case (Cons kv b)
  obtain k' v' where kv: "kv = (k', v')" by (cases kv)
  have "spread a (kv # b) = spread (AList.update k' v' a) b" by (simp add: spread_def kv)
  with Cons.IH [of "AList.update k' v' a"] show ?case
    by (simp add: kv update_conv' map_add_def split: option.splits)
qed

lemma map_of_rev_None: "(map_of (rev b) k = None) = (k \<notin> fst ` set b)"
  by (simp add: map_of_eq_None_iff)

lemma map_of_rev_Some: "map_of (rev b) k = Some v \<Longrightarrow> (k, v) \<in> set b"
  using map_of_SomeD by fastforce


lemma set_update_subset: "set (AList.update k v al) \<subseteq> insert (k, v) (set al)"
  by (induction al) auto

lemma update_member: "(k, v) \<in> set (AList.update k v al)"
  by (induction al) auto

lemma getProp_update: "getProp (AList.update k v al) k' = (if k = k' then v else getProp al k')"
  by (simp add: getProp_def update_conv')

lemma rawStep_lookup:
  "map_of (entries (getProp (rawStep acc (t, n, c)) kind)) name =
     (if t = kind \<and> n = name then Some c else map_of (entries (getProp acc kind)) name)"
  by (simp add: rawStep_def getProp_update update_conv')

lemma rawStep_fold_lookup:
  "map_of (entries (getProp (foldl rawStep acc rcs) kind)) name
   = (case lastRegistered kind name rcs of
        Some c \<Rightarrow> Some c
      | None \<Rightarrow> map_of (entries (getProp acc kind)) name)"
proof (induction rcs arbitrary: acc)
  case Nil
  show ?case by simp
next
  case (Cons rc rcs)
  obtain t n c where rc: "rc = (t, n, c)" by (cases rc)
  have "map_of (entries (getProp (foldl rawStep acc (rc # rcs)) kind)) name =
        (case lastRegistered kind name rcs of
           Some c \<Rightarrow> Some c
         | None \<Rightarrow> map_of (entries (getProp (rawStep acc (t, n, c)) kind)) name)"
    using Cons.IH [of "rawStep acc (t, n, c)"] by (simp add: rc)
  then show ?case
    by (cases "lastRegistered kind name rcs") (simp_all add: rawStep_lookup rc)
qed

lemma getProp_spread2:
  "getProp (spread raw [(''schemas'', a), (''parameters'', b)]) kind =
     (if kind = ''parameters'' then b else if kind = ''schemas'' then a else getProp raw kind)"
  by (simp add: getProp_def map_of_spread)

lemma buildComponents_raw:
  "buildComponents this =
     spread (foldl rawStep [] (rawComponents this))
       [(''schemas'', JObj (spread (entries (getProp (foldl rawStep [] (rawComponents this)) ''schemas'')) (schemaRefs this))),
        (''parameters'', JObj (spread (entries (getProp (foldl rawStep [] (rawComponents this)) ''parameters'')) (paramRefs this)))]"
  by (simp add: buildComponents_def Let_def rawStep_def)

lemma buildComponents_lookup:
  "map_of (entries (getProp (buildComponents this) kind)) name =
     (if kind = ''schemas'' then
        (case map_of (rev (schemaRefs this)) name of
           Some g \<Rightarrow> Some g
         | None \<Rightarrow> lastRegistered kind name (rawComponents this))
      else if kind = ''parameters'' then
        (case map_of (rev (paramRefs this)) name of
           Some g \<Rightarrow> Some g
         | None \<Rightarrow> lastRegistered kind name (rawComponents this))
      else lastRegistered kind name (rawComponents this))"
proof -
  have empty: "map_of (entries (getProp [] k)) name = None" for k
    by (simp add: getProp_def)
  have raw: "map_of (entries (getProp (foldl rawStep [] (rawComponents this)) k)) name =
               lastRegistered k name (rawComponents this)" for k
    by (simp add: rawStep_fold_lookup empty split: option.splits)
  show ?thesis
    by (cases "kind = ''schemas''"; cases "kind = ''parameters''")
       (simp_all add: buildComponents_raw getProp_spread2 map_of_spread raw cong: option.case_cong)
qed


text \<open>The equations of the schema generator are unfolded on request only.\<close>

declare generateSimpleSchema.simps [simp del]

lemma generateSchemaDefinition_step:
  assumes "generateSchemaDefinition sp this z = Inr this1"
  shows "rawComponents this1 = rawComponents this \<and> paramRefs this1 = paramRefs this \<and>
         (case refIdOf z of
            None \<Rightarrow> schemaRefs this1 = schemaRefs this
          | Some n \<Rightarrow>
              (\<exists>simple. generateSimpleSchema sp (schemaRefs this) z = Inr simple \<and>
                 schemaRefs this1 =
                   AList.update n (JObj (applySchemaMetadata simple (getMetadata z))) (schemaRefs this)))"
  using assms
  by (auto simp add: generateSchemaDefinition_def refIdOf_def Let_def simp del: generateSimpleSchema.simps
        split: sum.splits if_splits)

lemma generateParameterDefinition_step:
  assumes "generateParameterDefinition sp this z = Inr this1"
  shows "rawComponents this1 = rawComponents this \<and> schemaRefs this1 = schemaRefs this \<and>
         (case refIdOf z of
            None \<Rightarrow> paramRefs this1 = paramRefs this
          | Some n \<Rightarrow>
              (\<exists>result. generateParameter sp this z = Inr result \<and>
                 paramRefs this1 = AList.update n (JObj result) (paramRefs this)))"
  using assms
  by (auto simp add: generateParameterDefinition_def refIdOf_def Let_def split: sum.splits if_splits)

lemma generateSingleRoute_step:
  assumes "generateSingleRoute sp this r = Inr this1"
  shows "rawComponents this1 = rawComponents this \<and> schemaRefs this1 = schemaRefs this \<and>
         paramRefs this1 = paramRefs this"
  using assms
  by (auto simp add: generateSingleRoute_def Let_def split: sum.splits)

lemma generatedSchema_mono:
  assumes "generatedSchema sp ds name g" and "set ds \<subseteq> set ds'"
  shows "generatedSchema sp ds' name g"
  using assms(1)
proof cases
  case (1 zodSchema refs simpleSchema)
  from 1(2) assms(2) have "Schema zodSchema \<in> set ds'" by blast
  then show ?thesis unfolding 1(1) using 1(3) 1(4) by (rule generatedSchema.intros)
qed

lemma generatedParameter_mono:
  assumes "generatedParameter sp ds name g" and "set ds \<subseteq> set ds'"
  shows "generatedParameter sp ds' name g"
  using assms(1)
proof cases
  case (1 zodSchema this result)
  from 1(2) assms(2) have "Parameter zodSchema \<in> set ds'" by blast
  then show ?thesis unfolding 1(1) using 1(3) 1(4) by (rule generatedParameter.intros)
qed

lemma forEach_Cons:
  assumes "forEachGenerateSingle sp this (d # xs) = Inr this'"
  obtains this1 where "generateSingle sp this d = Inr this1"
    and "forEachGenerateSingle sp this1 xs = Inr this'"
proof (cases "generateSingle sp this d")
  case (Inl e)
  with assms show ?thesis by simp
next
  case (Inr this1)
  with assms have "forEachGenerateSingle sp this1 xs = Inr this'" by simp
  with Inr show ?thesis by (rule that)
qed

lemma generateSingle_rawComponents:
  assumes "generateSingle sp this d = Inr this1"
  shows "rawComponents this1 = rawComponents this @ componentsOf [d]"
proof (cases d)
  case (Schema z)
  with assms generateSchemaDefinition_step [of sp this z this1] show ?thesis by simp
next
  case (Parameter z)
  with assms generateParameterDefinition_step [of sp this z this1] show ?thesis by simp
next
  case (Route r)
  with assms generateSingleRoute_step [of sp this r this1] show ?thesis by simp
next
  case (Component t n c)
  with assms have "this1 = this\<lparr>rawComponents := rawComponents this @ [(t, n, c)]\<rparr>" by simp
  then show ?thesis by (simp add: Component)
qed

lemma componentsOf_Cons: "componentsOf (d # xs) = componentsOf [d] @ componentsOf xs"
  by (cases d) simp_all

lemma forEach_rawComponents:
  "forEachGenerateSingle sp this xs = Inr this' \<Longrightarrow>
   rawComponents this' = rawComponents this @ componentsOf xs"
proof (induction xs arbitrary: this)
  case Nil
  then show ?case by simp
next
  case (Cons d xs)
  from Cons.prems obtain this1 where s: "generateSingle sp this d = Inr this1"
    and r: "forEachGenerateSingle sp this1 xs = Inr this'"
    by (rule forEach_Cons)
  from Cons.IH [OF r] generateSingle_rawComponents [OF s] componentsOf_Cons [of d xs]
  show ?case by simp
qed

lemma forEach_schemaRefs_keys:
  "forEachGenerateSingle sp this xs = Inr this' \<Longrightarrow>
   fst ` set (schemaRefs this') = fst ` set (schemaRefs this) \<union> set (schemaRefIds xs)"
proof (induction xs arbitrary: this)
  case Nil
  then show ?case by simp
next
  case (Cons d xs)
  from Cons.prems obtain this1 where s: "generateSingle sp this d = Inr this1"
    and r: "forEachGenerateSingle sp this1 xs = Inr this'"
    by (rule forEach_Cons)
  have "fst ` set (schemaRefs this1) = fst ` set (schemaRefs this) \<union> set (schemaRefIds [d])"
  proof (cases d)
    case (Schema z)
    show ?thesis
    proof (cases "refIdOf z")
      case None
      with s Schema generateSchemaDefinition_step [of sp this z this1] show ?thesis by simp
    next
      case (Some n)
      with s Schema generateSchemaDefinition_step [of sp this z this1]
      obtain v where "schemaRefs this1 = AList.update n v (schemaRefs this)"
        by (auto simp del: generateSimpleSchema.simps)
      then have "fst ` set (schemaRefs this1) = {n} \<union> fst ` set (schemaRefs this)"
        by (simp only: dom_update)
      with Schema Some show ?thesis by simp
    qed
  next
    case (Parameter z)
    with s generateParameterDefinition_step [of sp this z this1] show ?thesis by simp
  next
    case (Route r)
    with s generateSingleRoute_step [of sp this r this1] show ?thesis by simp
  next
    case (Component t n c)
    with s have "this1 = this\<lparr>rawComponents := rawComponents this @ [(t, n, c)]\<rparr>" by simp
    then show ?thesis by (simp add: Component)
  qed
  moreover have "set (schemaRefIds (d # xs)) = set (schemaRefIds [d]) \<union> set (schemaRefIds xs)"
    by (cases d) simp_all
  ultimately show ?case using Cons.IH [OF r] by (simp add: Un_assoc)
qed

lemma forEach_paramRefs_keys:
  "forEachGenerateSingle sp this xs = Inr this' \<Longrightarrow>
   fst ` set (paramRefs this') = fst ` set (paramRefs this) \<union> set (parameterRefIds xs)"
proof (induction xs arbitrary: this)
  case Nil
  then show ?case by simp
next
  case (Cons d xs)
  from Cons.prems obtain this1 where s: "generateSingle sp this d = Inr this1"
    and r: "forEachGenerateSingle sp this1 xs = Inr this'"
    by (rule forEach_Cons)
  have "fst ` set (paramRefs this1) = fst ` set (paramRefs this) \<union> set (parameterRefIds [d])"
  proof (cases d)
    case (Schema z)
    with s generateSchemaDefinition_step [of sp this z this1] show ?thesis by simp
  next
    case (Parameter z)
    show ?thesis
    proof (cases "refIdOf z")
      case None
      with s Parameter generateParameterDefinition_step [of sp this z this1] show ?thesis by simp
    next
      case (Some n)
      with s Parameter generateParameterDefinition_step [of sp this z this1]
      obtain v where "paramRefs this1 = AList.update n v (paramRefs this)"
        by auto
      then have "fst ` set (paramRefs this1) = {n} \<union> fst ` set (paramRefs this)"
        by (simp only: dom_update)
      with Parameter Some show ?thesis by simp
    qed
  next
    case (Route r)
    with s generateSingleRoute_step [of sp this r this1] show ?thesis by simp
  next
    case (Component t n c)
    with s have "this1 = this\<lparr>rawComponents := rawComponents this @ [(t, n, c)]\<rparr>" by simp
    then show ?thesis by (simp add: Component)
  qed
  moreover have "set (parameterRefIds (d # xs)) = set (parameterRefIds [d]) \<union> set (parameterRefIds xs)"
    by (cases d) simp_all
  ultimately show ?case using Cons.IH [OF r] by (simp add: Un_assoc)
qed

lemma forEach_schemaRefs_values:
  "forEachGenerateSingle sp this xs = Inr this' \<Longrightarrow> (name, g) \<in> set (schemaRefs this') \<Longrightarrow>
   (name, g) \<in> set (schemaRefs this) \<or> generatedSchema sp xs name g"
proof (induction xs arbitrary: this)
  case Nil
  then show ?case by simp
next
  case (Cons d xs)
  from Cons.prems(1) obtain this1 where s: "generateSingle sp this d = Inr this1"
    and r: "forEachGenerateSingle sp this1 xs = Inr this'"
    by (rule forEach_Cons)
  have step: "(name, g) \<in> set (schemaRefs this1) \<Longrightarrow>
              (name, g) \<in> set (schemaRefs this) \<or> generatedSchema sp [d] name g"
  proof (cases d)
    case (Schema z)
    assume m: "(name, g) \<in> set (schemaRefs this1)"
    show ?thesis
    proof (cases "refIdOf z")
      case None
      with s Schema generateSchemaDefinition_step [of sp this z this1] m show ?thesis by simp
    next
      case (Some n)
      with s Schema generateSchemaDefinition_step [of sp this z this1]
      obtain simple where g: "generateSimpleSchema sp (schemaRefs this) z = Inr simple"
        and u: "schemaRefs this1 =
                  AList.update n (JObj (applySchemaMetadata simple (getMetadata z))) (schemaRefs this)"
        by (auto simp del: generateSimpleSchema.simps)
      from m u set_update_subset [of n "JObj (applySchemaMetadata simple (getMetadata z))" "schemaRefs this"]
      have "(name, g) = (n, JObj (applySchemaMetadata simple (getMetadata z))) \<or> (name, g) \<in> set (schemaRefs this)"
        by auto
      then show ?thesis
      proof
        assume "(name, g) = (n, JObj (applySchemaMetadata simple (getMetadata z)))"
        moreover have "Schema z \<in> set [d]" by (simp add: Schema)
        then have "generatedSchema sp [d] n (JObj (applySchemaMetadata simple (getMetadata z)))"
          using Some g by (rule generatedSchema.intros)
        ultimately have "generatedSchema sp [d] name g" by simp
        then show ?thesis ..
      next
        assume "(name, g) \<in> set (schemaRefs this)"
        then show ?thesis ..
      qed
    qed
  next
    case (Parameter z)
    assume "(name, g) \<in> set (schemaRefs this1)"
    with Parameter s generateParameterDefinition_step [of sp this z this1] show ?thesis by simp
  next
    case (Route r)
    assume "(name, g) \<in> set (schemaRefs this1)"
    with Route s generateSingleRoute_step [of sp this r this1] show ?thesis by simp
  next
    case (Component t n c)
    assume m: "(name, g) \<in> set (schemaRefs this1)"
    from Component s have "this1 = this\<lparr>rawComponents := rawComponents this @ [(t, n, c)]\<rparr>" by simp
    with m show ?thesis by simp
  qed
  from Cons.IH [OF r Cons.prems(2)] show ?case
  proof
    assume "(name, g) \<in> set (schemaRefs this1)"
    from step [OF this] show ?thesis
    proof
      assume "(name, g) \<in> set (schemaRefs this)"
      then show ?thesis ..
    next
      assume "generatedSchema sp [d] name g"
      then have "generatedSchema sp (d # xs) name g"
        by (rule generatedSchema_mono) simp
      then show ?thesis ..
    qed
  next
    assume "generatedSchema sp xs name g"
    then have "generatedSchema sp (d # xs) name g"
      by (rule generatedSchema_mono) auto
    then show ?thesis ..
  qed
qed

lemma forEach_paramRefs_values:
  "forEachGenerateSingle sp this xs = Inr this' \<Longrightarrow> (name, g) \<in> set (paramRefs this') \<Longrightarrow>
   (name, g) \<in> set (paramRefs this) \<or> generatedParameter sp xs name g"
proof (induction xs arbitrary: this)
  case Nil
  then show ?case by simp
next
  case (Cons d xs)
  from Cons.prems(1) obtain this1 where s: "generateSingle sp this d = Inr this1"
    and r: "forEachGenerateSingle sp this1 xs = Inr this'"
    by (rule forEach_Cons)
  have step: "(name, g) \<in> set (paramRefs this1) \<Longrightarrow>
              (name, g) \<in> set (paramRefs this) \<or> generatedParameter sp [d] name g"
  proof (cases d)
    case (Parameter z)
    assume m: "(name, g) \<in> set (paramRefs this1)"
    show ?thesis
    proof (cases "refIdOf z")
      case None
      with s Parameter generateParameterDefinition_step [of sp this z this1] m show ?thesis by simp
    next
      case (Some n)
      with s Parameter generateParameterDefinition_step [of sp this z this1]
      obtain result where g: "generateParameter sp this z = Inr result"
        and u: "paramRefs this1 = AList.update n (JObj result) (paramRefs this)"
        by auto
      from m u set_update_subset [of n "JObj result" "paramRefs this"]
      have "(name, g) = (n, JObj result) \<or> (name, g) \<in> set (paramRefs this)"
        by auto
      then show ?thesis
      proof
        assume "(name, g) = (n, JObj result)"
        moreover have "Parameter z \<in> set [d]" by (simp add: Parameter)
        then have "generatedParameter sp [d] n (JObj result)"
          using Some g by (rule generatedParameter.intros)
        ultimately have "generatedParameter sp [d] name g" by simp
        then show ?thesis ..
      next
        assume "(name, g) \<in> set (paramRefs this)"
        then show ?thesis ..
      qed
    qed
  next
    case (Schema z)
    assume "(name, g) \<in> set (paramRefs this1)"
    with Schema s generateSchemaDefinition_step [of sp this z this1] show ?thesis by simp
  next
    case (Route r)
    assume "(name, g) \<in> set (paramRefs this1)"
    with Route s generateSingleRoute_step [of sp this r this1] show ?thesis by simp
  next
    case (Component t n c)
    assume m: "(name, g) \<in> set (paramRefs this1)"
    from Component s have "this1 = this\<lparr>rawComponents := rawComponents this @ [(t, n, c)]\<rparr>" by simp
    with m show ?thesis by simp
  qed
  from Cons.IH [OF r Cons.prems(2)] show ?case
  proof
    assume "(name, g) \<in> set (paramRefs this1)"
    from step [OF this] show ?thesis
    proof
      assume "(name, g) \<in> set (paramRefs this)"
      then show ?thesis ..
    next
      assume "generatedParameter sp [d] name g"
      then have "generatedParameter sp (d # xs) name g"
        by (rule generatedParameter_mono) simp
      then show ?thesis ..
    qed
  next
    assume "generatedParameter sp xs name g"
    then have "generatedParameter sp (d # xs) name g"
      by (rule generatedParameter_mono) auto
    then show ?thesis ..
  qed
qed


lemma componentsOf_filter:
  "componentsOf (filter (\<lambda>d. generationIndex d = - 1) xs) = componentsOf xs"
proof (induction xs)
  case Nil
  show ?case by simp
next
  case (Cons d xs)
  then show ?case by (cases d) simp_all
qed

lemma componentsOf_sortDefinitions: "componentsOf (sortDefinitions ds) = componentsOf ds"
proof -
  have "componentsOf (sortDefinitions ds) =
          componentsOf (filter (\<lambda>d. generationIndex d = - 1) (sort_key generationIndex ds))"
    by (simp only: componentsOf_filter sortDefinitions_def)
  also have "\<dots> = componentsOf (filter (\<lambda>d. generationIndex d = - 1) ds)"
    by (simp only: sort_key_stable)
  also have "\<dots> = componentsOf ds"
    by (rule componentsOf_filter)
  finally show ?thesis .
qed

lemma set_schemaRefIds:
  "set (schemaRefIds xs) = {n. \<exists>z. Schema z \<in> set xs \<and> refIdOf z = Some n}"
proof (induction xs)
  case Nil
  show ?case by simp
next
  case (Cons d xs)
  then show ?case by (cases d) (auto split: option.splits)
qed

lemma set_parameterRefIds:
  "set (parameterRefIds xs) = {n. \<exists>z. Parameter z \<in> set xs \<and> refIdOf z = Some n}"
proof (induction xs)
  case Nil
  show ?case by simp
next
  case (Cons d xs)
  then show ?case by (cases d) (auto split: option.splits)
qed

lemma set_sortDefinitions: "set (sortDefinitions ds) = set ds"
  by (simp add: sortDefinitions_def)

lemma generateDocument_components:
  assumes "generateDocument sp this config = Inr document"
  obtains this' where "forEachGenerateSingle sp this (gen_definitions this) = Inr this'"
    and "\<And>kind name. componentOf document kind name = map_of (entries (getProp (buildComponents this') kind)) name"
proof (cases "forEachGenerateSingle sp this (gen_definitions this)")
  case (Inl e)
  with assms show ?thesis by (simp add: generateDocument_def)
next
  case (Inr this')
  with assms have doc: "document = spread config
      [(''components'', JObj (buildComponents this')), (''paths'', JObj (pathRefs this'))]"
    by (simp add: generateDocument_def)
  have "getProp document ''components'' = JObj (buildComponents this')"
    by (simp add: doc getProp_def map_of_spread)
  then have "componentOf document kind name = map_of (entries (getProp (buildComponents this') kind)) name"
    for kind name
    by (simp add: componentOf_def)
  with Inr show ?thesis by (rule that)
qed

subsection \<open>Generated entries and raw components of the same name\<close>

text \<open>
  C5, as stated, fails: a raw \<open>schemas\<close> component registered after a schema definition of
  the same name does not win. \<open>buildComponents\<close> spreads the generated references over the
  raw components, so the document keeps the generated entry.
\<close>

theorem raw_component_registered_later_loses:
  "generateDocument sampleParse
     (new_OpenapiGenerator (definitions
        (snd (registerComponent ''schemas'' ''X'' (JObj [(''type'', JStr ''integer'')])
           (snd (register ''X'' zString (OpenapiRegistry [] [])))))))
     [(''openapi'', JStr ''3.0.0'')]
   = Inr [(''openapi'', JStr ''3.0.0''),
          (''components'',
           JObj [(''schemas'', JObj [(''X'', JObj [(''type'', JStr ''string'')])]),
                 (''parameters'', JObj [])]),
          (''paths'', JObj [])]"
  by code_simp

text \<open>
  C5, amended. In the components section of a generated document, the entry of a name
  under \<open>schemas\<close> is the one generated from a schema definition whenever the registry
  holds a schema definition with this reference id, wherever the raw components of that
  name were registered; otherwise it is the raw component registered last under
  \<open>schemas\<close> and this name, if any. The same holds under \<open>parameters\<close> with the parameter
  definitions. Under every other kind the entry is the raw component registered last
  under the kind and the name.
\<close>

theorem generated_entry_precedes_raw_component:
  assumes "generateDocument sp (new_OpenapiGenerator ds) config = Inr document"
  shows "(name \<in> set (schemaRefIds ds) \<longrightarrow>
            (\<exists>g. componentOf document ''schemas'' name = Some g \<and> generatedSchema sp ds name g)) \<and>
         (name \<notin> set (schemaRefIds ds) \<longrightarrow>
            componentOf document ''schemas'' name = lastRegistered ''schemas'' name (componentsOf ds)) \<and>
         (name \<in> set (parameterRefIds ds) \<longrightarrow>
            (\<exists>g. componentOf document ''parameters'' name = Some g \<and> generatedParameter sp ds name g)) \<and>
         (name \<notin> set (parameterRefIds ds) \<longrightarrow>
            componentOf document ''parameters'' name = lastRegistered ''parameters'' name (componentsOf ds)) \<and>
         (kind \<noteq> ''schemas'' \<and> kind \<noteq> ''parameters'' \<longrightarrow>
            componentOf document kind name = lastRegistered kind name (componentsOf ds))"
proof -
  let ?gen = "new_OpenapiGenerator ds"
  have init: "gen_definitions ?gen = sortDefinitions ds" "schemaRefs ?gen = []" "paramRefs ?gen = []"
    "rawComponents ?gen = []"
    by (simp_all add: new_OpenapiGenerator_def)
  from assms obtain this' where fe: "forEachGenerateSingle sp ?gen (sortDefinitions ds) = Inr this'"
    and look: "\<And>kind name. componentOf document kind name =
                  map_of (entries (getProp (buildComponents this') kind)) name"
    using generateDocument_components [of sp ?gen config document] init(1) by metis
  have raw: "rawComponents this' = componentsOf ds"
    using forEach_rawComponents [OF fe] by (simp add: init componentsOf_sortDefinitions)
  have skeys: "fst ` set (schemaRefs this') = set (schemaRefIds ds)"
    using forEach_schemaRefs_keys [OF fe] by (simp add: init set_schemaRefIds set_sortDefinitions)
  have pkeys: "fst ` set (paramRefs this') = set (parameterRefIds ds)"
    using forEach_paramRefs_keys [OF fe] by (simp add: init set_parameterRefIds set_sortDefinitions)
  have sval: "generatedSchema sp ds name g" if "(name, g) \<in> set (schemaRefs this')" for g
  proof -
    from forEach_schemaRefs_values [OF fe that] have "generatedSchema sp (sortDefinitions ds) name g"
      by (simp add: init)
    then show ?thesis by (rule generatedSchema_mono) (simp add: set_sortDefinitions)
  qed
  have pval: "generatedParameter sp ds name g" if "(name, g) \<in> set (paramRefs this')" for g
  proof -
    from forEach_paramRefs_values [OF fe that] have "generatedParameter sp (sortDefinitions ds) name g"
      by (simp add: init)
    then show ?thesis by (rule generatedParameter_mono) (simp add: set_sortDefinitions)
  qed
  have s: "componentOf document ''schemas'' name =
             (case map_of (rev (schemaRefs this')) name of
                Some g \<Rightarrow> Some g
              | None \<Rightarrow> lastRegistered ''schemas'' name (componentsOf ds))"
    by (simp add: look buildComponents_lookup raw cong: option.case_cong)
  have p: "componentOf document ''parameters'' name =
             (case map_of (rev (paramRefs this')) name of
                Some g \<Rightarrow> Some g
              | None \<Rightarrow> lastRegistered ''parameters'' name (componentsOf ds))"
    by (simp add: look buildComponents_lookup raw cong: option.case_cong)
  have c1: "\<exists>g. componentOf document ''schemas'' name = Some g \<and> generatedSchema sp ds name g"
    if "name \<in> set (schemaRefIds ds)"
  proof -
    from that skeys have "map_of (rev (schemaRefs this')) name \<noteq> None"
      by (simp add: map_of_rev_None)
    then obtain g where g: "map_of (rev (schemaRefs this')) name = Some g" by blast
    from map_of_rev_Some [OF g] have "generatedSchema sp ds name g" by (rule sval)
    with g s show ?thesis by simp
  qed
  have c2: "componentOf document ''schemas'' name = lastRegistered ''schemas'' name (componentsOf ds)"
    if "name \<notin> set (schemaRefIds ds)"
  proof -
    from that skeys have "map_of (rev (schemaRefs this')) name = None"
      by (simp add: map_of_rev_None)
    with s show ?thesis by simp
  qed
  have c3: "\<exists>g. componentOf document ''parameters'' name = Some g \<and> generatedParameter sp ds name g"
    if "name \<in> set (parameterRefIds ds)"
  proof -
    from that pkeys have "map_of (rev (paramRefs this')) name \<noteq> None"
      by (simp add: map_of_rev_None)
    then obtain g where g: "map_of (rev (paramRefs this')) name = Some g" by blast
    from map_of_rev_Some [OF g] have "generatedParameter sp ds name g" by (rule pval)
    with g p show ?thesis by simp
  qed
  have c4: "componentOf document ''parameters'' name = lastRegistered ''parameters'' name (componentsOf ds)"
    if "name \<notin> set (parameterRefIds ds)"
  proof -
    from that pkeys have "map_of (rev (paramRefs this')) name = None"
      by (simp add: map_of_rev_None)
    with p show ?thesis by simp
  qed
  have c5: "componentOf document kind name = lastRegistered kind name (componentsOf ds)"
    if "kind \<noteq> ''schemas'' \<and> kind \<noteq> ''parameters''"
    using that by (simp add: look buildComponents_lookup raw)
  from c1 c2 c3 c4 c5 show ?thesis by blast
qed

text \<open>
  The registry of the schema \<open>X\<close>, the raw component \<open>X\<close> and the two raw components \<open>Y\<close>.
\<close>

theorem generated_entry_precedes_raw_component_witness:
  "\<exists>document.
     generateDocument sampleParse (new_OpenapiGenerator (definitions componentsRegistry))
       [(''openapi'', JStr ''3.0.0'')] = Inr document \<and>
     componentOf document ''schemas'' ''X'' = Some (JObj [(''type'', JStr ''string'')]) \<and>
     generatedSchema sampleParse (definitions componentsRegistry) ''X'' (JObj [(''type'', JStr ''string'')]) \<and>
     componentOf document ''schemas'' ''Y'' =
       lastRegistered ''schemas'' ''Y'' (componentsOf (definitions componentsRegistry)) \<and>
     componentOf document ''schemas'' ''Y'' = Some (JObj [(''type'', JStr ''number'')])"
proof -
  let ?document = "[(''openapi'', JStr ''3.0.0''),
      (''components'',
       JObj [(''schemas'', JObj [(''X'', JObj [(''type'', JStr ''string'')]),
                                 (''Y'', JObj [(''type'', JStr ''number'')])]),
             (''parameters'', JObj [])]),
      (''paths'', JObj [])]"
  have gd: "generateDocument sampleParse (new_OpenapiGenerator (definitions componentsRegistry))
              [(''openapi'', JStr ''3.0.0'')] = Inr ?document"
    by code_simp
  have x: "''X'' \<in> set (schemaRefIds (definitions componentsRegistry))"
    by code_simp
  have y: "''Y'' \<notin> set (schemaRefIds (definitions componentsRegistry))"
    by code_simp
  have cx: "componentOf ?document ''schemas'' ''X'' = Some (JObj [(''type'', JStr ''string'')])"
    by code_simp
  have ly: "lastRegistered ''schemas'' ''Y'' (componentsOf (definitions componentsRegistry)) =
              Some (JObj [(''type'', JStr ''number'')])"
    by code_simp
  from generated_entry_precedes_raw_component [OF gd, of "''X''", THEN conjunct1, THEN mp, OF x] cx
  have gx: "generatedSchema sampleParse (definitions componentsRegistry) ''X'' (JObj [(''type'', JStr ''string'')])"
    by auto
  from generated_entry_precedes_raw_component [OF gd, of "''Y''", THEN conjunct2, THEN conjunct1, THEN mp, OF y]
  have cy: "componentOf ?document ''schemas'' ''Y'' =
              lastRegistered ''schemas'' ''Y'' (componentsOf (definitions componentsRegistry))" .
  from gd cx gx cy ly show ?thesis by simp
qed

section \<open>The generator: parameters\<close>

lemma map_of_rev_distinct: "distinct (map fst xs) \<Longrightarrow> map_of (rev xs) = map_of xs"
proof
  fix k
  assume d: "distinct (map fst xs)"
  then have d': "distinct (map fst (rev xs))" by (simp add: rev_map [symmetric])
  show "map_of (rev xs) k = map_of xs k"
  proof (cases "map_of xs k")
    case None
    then have "k \<notin> fst ` set xs" by (simp add: map_of_eq_None_iff)
    then have "map_of (rev xs) k = None" by (simp add: map_of_rev_None)
    with None show ?thesis by simp
  next
    case (Some v)
    with d have "(k, v) \<in> set xs" by simp
    then have "(k, v) \<in> set (rev xs)" by simp
    with d' have "map_of (rev xs) k = Some v" by (simp only: map_of_eq_Some_iff)
    with Some show ?thesis by simp
  qed
qed

lemma distinct_spread: "distinct (map fst a) \<Longrightarrow> distinct (map fst (spread a b))"
proof (induction b arbitrary: a)
  case Nil
  then show ?case by (simp add: spread_def)
next
  case (Cons kv b)
  obtain k v where kv: "kv = (k, v)" by (cases kv)
  have "spread a (kv # b) = spread (AList.update k v a) b" by (simp add: spread_def kv)
  with Cons.IH [of "AList.update k v a"] Cons.prems show ?case
    by (simp add: distinct_update)
qed

lemma map_of_spread_distinct:
  "distinct (map fst b) \<Longrightarrow>
   map_of (spread a b) k = (case map_of b k of Some v \<Rightarrow> Some v | None \<Rightarrow> map_of a k)"
  by (simp add: map_of_spread map_of_rev_distinct)

lemma getProp_spread_distinct:
  "distinct (map fst b) \<Longrightarrow>
   getProp (spread a b) k = (case map_of b k of Some v \<Rightarrow> v | None \<Rightarrow> getProp a k)"
  by (simp add: getProp_def map_of_spread_distinct split: option.splits)

lemma distinct_omit: "distinct (map fst a) \<Longrightarrow> distinct (map fst (omit a ks))"
  by (simp add: omit_def distinct_map_filter)

lemma distinct_omitBy: "distinct (map fst a) \<Longrightarrow> distinct (map fst (omitBy a f))"
  by (simp add: omitBy_def distinct_map_filter)

lemma map_of_omit: "map_of (omit a ks) k = (if k \<in> set ks then None else map_of a k)"
  by (induction a) (auto simp add: omit_def)

lemma map_of_omitBy:
  "distinct (map fst a) \<Longrightarrow>
   map_of (omitBy a f) k = (case map_of a k of Some v \<Rightarrow> if f v then None else Some v | None \<Rightarrow> None)"
proof (induction a)
  case Nil
  show ?case by (simp add: omitBy_def)
next
  case (Cons kv a)
  obtain k' v' where kv: "kv = (k', v')" by (cases kv)
  from Cons.prems have d: "distinct (map fst a)" and n: "k' \<notin> fst ` set a" by (simp_all add: kv)
  from n have none: "map_of a k' = None" by (simp add: map_of_eq_None_iff)
  from Cons.IH [OF d] have ih: "map_of (filter (\<lambda>(k, v). \<not> f v) a) k =
      (case map_of a k of Some v \<Rightarrow> if f v then None else Some v | None \<Rightarrow> None)"
    by (simp add: omitBy_def)
  show ?case
  proof (cases "k = k'")
    case True
    with none ih show ?thesis by (simp add: omitBy_def kv)
  next
    case False
    with ih show ?thesis by (simp add: omitBy_def kv)
  qed
qed

lemma registerParameter_metadata:
  assumes "openapi z = Some m" and "distinct (map fst m)"
    and "getProp m ''param'' = JObj pm" and "distinct (map fst pm)"
    and "registerParameter refId z reg = (p, reg')"
  shows "\<exists>pm'. getProp (getMetadata p) ''param'' = JObj pm' \<and> distinct (map fst pm') \<and>
           getProp pm' ''in'' = getProp pm ''in'' \<and>
           getProp pm' ''name'' = nullish (getProp pm ''name'') (JStr refId)"
    and "getProp (getMetadata p) ''refId'' = JStr refId"
    and "reg' = push (Parameter p) reg"
proof -
  let ?N = "nullish (getProp pm ''name'') (JStr refId)"
  let ?arg = "spread m [(''param'', JObj (spread pm [(''name'', ?N)])), (''refId'', JStr refId)]"
  let ?pm' = "spread pm (spread pm [(''name'', ?N)])"
  let ?M = "spread (spread m (omit ?arg [''param''])) [(''param'', JObj ?pm')]"
  have p: "p = Zod (zdef z) (Some ?M) (description z)" and r: "reg' = push (Parameter p) reg"
    using assms(1,3,5)
    by (auto simp add: registerParameter_def openapi_method_def Let_def getProp_spread_distinct)
  have dM: "distinct (map fst ?M)"
    by (intro distinct_spread assms(2))
  have darg: "distinct (map fst ?arg)"
    by (intro distinct_spread assms(2))
  obtain D where gm: "getMetadata p = spread [(''description'', D)] ?M"
    by (simp add: getMetadata_def p Let_def)
  have param: "getProp (getMetadata p) ''param'' = JObj ?pm'"
    by (simp add: gm getProp_spread_distinct [OF dM] map_of_spread_distinct)
  have refId: "getProp (getMetadata p) ''refId'' = JStr refId"
    by (simp add: gm getProp_spread_distinct [OF dM] map_of_spread_distinct
          distinct_omit [OF darg] map_of_omit)
  have d1: "distinct (map fst (spread pm [(''name'', ?N)]))"
    by (intro distinct_spread assms(4))
  have "distinct (map fst ?pm')" by (intro distinct_spread assms(4))
  moreover have "getProp ?pm' ''in'' = getProp pm ''in''"
    unfolding getProp_spread_distinct [OF d1]
    by (simp add: map_of_spread_distinct) (simp add: getProp_def split: option.splits)
  moreover have "getProp ?pm' ''name'' = ?N"
    by (simp add: getProp_spread_distinct [OF d1] map_of_spread_distinct)
  ultimately show "\<exists>pm'. getProp (getMetadata p) ''param'' = JObj pm' \<and> distinct (map fst pm') \<and>
           getProp pm' ''in'' = getProp pm ''in'' \<and>
           getProp pm' ''name'' = nullish (getProp pm ''name'') (JStr refId)"
    using param by blast
  show "getProp (getMetadata p) ''refId'' = JStr refId" by (rule refId)
  show "reg' = push (Parameter p) reg" by (rule r)
qed


lemma generateParameter_in_name:
  assumes "generateParameter sp st p = Inr existing"
    and "getProp (getMetadata p) ''param'' = JObj pm" and "distinct (map fst pm)"
  shows "getProp existing ''in'' = getProp pm ''in'' \<and> getProp existing ''name'' = getProp pm ''name'' \<and>
         truthy (getProp pm ''in'') \<and> truthy (getProp pm ''name'')"
proof -
  let ?metadata = "getMetadata p"
  have t: "truthy (getProp pm ''name'')" "truthy (getProp pm ''in'')"
    using assms(1,2) by (auto simp add: generateParameter_def Let_def split: if_splits)
  from assms(1,2) t obtain base where
    e: "existing = spread base (buildParameterMetadata pm)"
    and b: "getProp base ''in'' = getProp pm ''in''" "getProp base ''name'' = getProp pm ''name''"
    by (auto simp add: generateParameter_def Let_def getProp_spread_distinct getProp_def [of "[_, _, _, _]"]
          split: if_splits sum.splits)
  have d: "distinct (map fst (omitBy pm isNil))"
    by (simp add: distinct_omitBy assms(3))
  have "getProp existing k = getProp pm k" if "getProp base k = getProp pm k" for k
    using that
    by (simp add: e getProp_spread_distinct [OF d] buildParameterMetadata_def map_of_omitBy [OF assms(3)]
          getProp_def [of pm] split: option.splits)
  with b t show ?thesis by simp
qed

lemma getParameterRef_registered:
  assumes "getProp md ''refId'' = JStr refId" and "refId \<noteq> []"
    and "getProp md ''param'' = JObj pm"
    and "getProp (paramRefs this) refId = JObj existing"
    and "getProp existing ''in'' = JStr registeredIn" and "getProp pm ''in'' = JStr registeredIn"
    and "getProp existing ''name'' = N" and "getProp pm ''name'' = N" and "truthy N"
    and "registeredIn \<noteq> []"
  shows "getParameterRef this (Some md) (Some \<lparr>pd_in = Some location, pd_name = Some key\<rparr>) =
     (if location \<noteq> [] \<and> location \<noteq> registeredIn then
        Inl (ConflictError (''Conflicting location for parameter '' @ toStr N) ''in''
               [JStr registeredIn, JStr location, JStr registeredIn])
      else if key \<noteq> [] \<and> JStr key \<noteq> N then
        Inl (ConflictError ''Conflicting names for parameter'' ''name'' [N, JStr key, N])
      else Inr (Some [(''$ref'', JStr (''#/components/parameters/'' @ refId))]))"
  using assms
  by (auto simp add: getParameterRef_def Let_def optStr_def compact_def)

lemma generateInlineParameters_conflict:
  assumes "getParameterRef this (Some (getMetadata schema))
             (Some \<lparr>pd_in = Some location, pd_name = Some key\<rparr>) = Inl e"
  shows "generateInlineParameters sp this ((key, schema) # rest) location = Inl e"
  using assms by (simp add: generateInlineParameter_def Let_def)

lemma generateSingleRoute_query_conflict:
  assumes "mapValuesE (getResponse sp this) (case cfg_responses route of None \<Rightarrow> [] | Some r \<Rightarrow> r)
             = Inr generatedResponses"
    and "cfg_request route = Some rq" and "rq_query rq = Some q"
    and "generateInlineParameters sp this q ''query'' = Inl e"
  shows "generateSingleRoute sp this route = Inl e"
  using assms by (simp add: generateSingleRoute_def getParameters_def)

lemma forEach_append:
  "forEachGenerateSingle sp this (xs @ ys) =
     (case forEachGenerateSingle sp this xs of
        Inl e \<Rightarrow> Inl e
      | Inr this' \<Rightarrow> forEachGenerateSingle sp this' ys)"
  by (induction xs arbitrary: this) (simp_all split: sum.splits)

lemma generateDocument_route_fails:
  assumes "gen_definitions gen = before @ Route route # after"
    and "forEachGenerateSingle sp gen before = Inr this"
    and "generateSingleRoute sp this route = Inl e"
  shows "generateDocument sp gen config = Inl e"
  using assms by (simp add: generateDocument_def forEach_append)

subsection \<open>A registered parameter used at another place\<close>

text \<open>
  C8. Let a schema declaring the location \<open>registeredIn\<close> be registered as a parameter under
  a reference id, let its definition have been generated, and let the entry of the
  reference id still be the one of this definition. Then a section of another location
  that uses the registered schema fails with the \<open>ConflictError\<close> of key \<open>in\<close>, whose values
  are the registered location, the location of the section and the registered location
  again; a section of the registered location that uses it under a key other than the
  registered name fails with the \<open>ConflictError\<close> of key \<open>name\<close>; and when the generation
  reaches a route whose responses generate and whose query section starts with the
  registered schema, the generation of the document fails with the error of key \<open>in\<close>.
  The metadata objects have distinct keys, as every JavaScript object has.
\<close>

theorem registered_parameter_conflict:
  assumes "openapi z = Some m" and "distinct (map fst m)"
    and "getProp m ''param'' = JObj pm" and "distinct (map fst pm)"
    and "getProp pm ''in'' = JStr registeredIn"
    and "registerParameter refId z reg = (p, reg')" and "refId \<noteq> []"
    and "generateParameterDefinition sp this0 p = Inr this1"
    and "getProp (paramRefs this) refId = getProp (paramRefs this1) refId"
  shows "(location \<noteq> [] \<and> location \<noteq> registeredIn \<longrightarrow>
            generateInlineParameters sp this ((key, p) # rest) location =
              Inl (ConflictError (''Conflicting location for parameter '' @ toStr (registeredName pm refId))
                     ''in'' [JStr registeredIn, JStr location, JStr registeredIn])) \<and>
         (key \<noteq> [] \<and> JStr key \<noteq> registeredName pm refId \<longrightarrow>
            generateInlineParameters sp this ((key, p) # rest) registeredIn =
              Inl (ConflictError ''Conflicting names for parameter'' ''name''
                     [registeredName pm refId, JStr key, registeredName pm refId])) \<and>
         (registeredIn \<noteq> ''query'' \<and>
          gen_definitions gen = before @ Route route # after \<and>
          forEachGenerateSingle sp gen before = Inr this \<and>
          mapValuesE (getResponse sp this) (case cfg_responses route of None \<Rightarrow> [] | Some r \<Rightarrow> r)
            = Inr generatedResponses \<and>
          cfg_request route = Some rq \<and> rq_query rq = Some ((key, p) # rest) \<longrightarrow>
            generateDocument sp gen config =
              Inl (ConflictError (''Conflicting location for parameter '' @ toStr (registeredName pm refId))
                     ''in'' [JStr registeredIn, JStr ''query'', JStr registeredIn]))"
proof -
  let ?N = "registeredName pm refId"
  from registerParameter_metadata [OF assms(1-4) assms(6)]
  obtain pm' where md: "getProp (getMetadata p) ''param'' = JObj pm'" and d: "distinct (map fst pm')"
    and pin: "getProp pm' ''in'' = getProp pm ''in''" and pname: "getProp pm' ''name'' = ?N"
    and refId: "getProp (getMetadata p) ''refId'' = JStr refId"
    by (auto simp add: registeredName_def)
  from refId assms(7) have "refIdOf p = Some refId" by (simp add: refIdOf_def)
  with generateParameterDefinition_step [OF assms(8)]
  obtain existing where g: "generateParameter sp this0 p = Inr existing"
    and u: "paramRefs this1 = AList.update refId (JObj existing) (paramRefs this0)"
    by auto
  from u assms(9) have e: "getProp (paramRefs this) refId = JObj existing"
    by (simp add: getProp_update)
  from generateParameter_in_name [OF g md d] pin pname assms(5)
  have ein: "getProp existing ''in'' = JStr registeredIn" and pin': "getProp pm' ''in'' = JStr registeredIn"
    and ename: "getProp existing ''name'' = ?N" and tn: "truthy ?N" and ne: "registeredIn \<noteq> []"
    by auto
  note ref = getParameterRef_registered [OF refId assms(7) md e ein pin' ename pname tn ne]
  have c1: "generateInlineParameters sp this ((key, p) # rest) location =
              Inl (ConflictError (''Conflicting location for parameter '' @ toStr ?N)
                     ''in'' [JStr registeredIn, JStr location, JStr registeredIn])"
    if "location \<noteq> [] \<and> location \<noteq> registeredIn" for location
    by (rule generateInlineParameters_conflict) (simp add: ref that)
  have c2: "generateInlineParameters sp this ((key, p) # rest) registeredIn =
              Inl (ConflictError ''Conflicting names for parameter'' ''name'' [?N, JStr key, ?N])"
    if "key \<noteq> [] \<and> JStr key \<noteq> ?N"
    by (rule generateInlineParameters_conflict) (simp add: ref that)
  have c3: "generateDocument sp gen config =
              Inl (ConflictError (''Conflicting location for parameter '' @ toStr ?N)
                     ''in'' [JStr registeredIn, JStr ''query'', JStr registeredIn])"
    if h: "registeredIn \<noteq> ''query'' \<and>
          gen_definitions gen = before @ Route route # after \<and>
          forEachGenerateSingle sp gen before = Inr this \<and>
          mapValuesE (getResponse sp this) (case cfg_responses route of None \<Rightarrow> [] | Some r \<Rightarrow> r)
            = Inr generatedResponses \<and>
          cfg_request route = Some rq \<and> rq_query rq = Some ((key, p) # rest)"
  proof -
    from h have "''query'' \<noteq> [] \<and> ''query'' \<noteq> registeredIn" by auto
    from c1 [OF this] h
    have "generateSingleRoute sp this route =
            Inl (ConflictError (''Conflicting location for parameter '' @ toStr ?N)
                   ''in'' [JStr registeredIn, JStr ''query'', JStr registeredIn])"
      using generateSingleRoute_query_conflict by blast
    with h show ?thesis using generateDocument_route_fails by blast
  qed
  from c1 c2 c3 show ?thesis by blast
qed


text \<open>
  The header parameter \<open>TraceId\<close>, used in a query section, and in a header section under
  the key \<open>Other\<close>.
\<close>

theorem registered_parameter_conflict_witness:
  "generateDocument sampleParse
     (new_OpenapiGenerator (definitions (registerPath queryRoute traceIdRegistry)))
     [(''openapi'', JStr ''3.0.0'')]
   = Inl (ConflictError ''Conflicting location for parameter TraceId'' ''in''
            [JStr ''header'', JStr ''query'', JStr ''header'']) \<and>
   (\<exists>this. forEachGenerateSingle sampleParse
             (new_OpenapiGenerator (definitions (registerPath queryRoute traceIdRegistry)))
             [Parameter traceId] = Inr this \<and>
      generateInlineParameters sampleParse this [(''TraceId'', traceId)] ''query''
        = Inl (ConflictError ''Conflicting location for parameter TraceId'' ''in''
                 [JStr ''header'', JStr ''query'', JStr ''header'']) \<and>
      generateInlineParameters sampleParse this [(''Other'', traceId)] ''header''
        = Inl (ConflictError ''Conflicting names for parameter'' ''name''
                 [JStr ''TraceId'', JStr ''Other'', JStr ''TraceId'']))"
proof -
  let ?gen = "new_OpenapiGenerator (definitions (registerPath queryRoute traceIdRegistry))"
  let ?this1 = "?gen\<lparr>paramRefs :=
      [(''TraceId'', JObj [(''in'', JStr ''header''), (''name'', JStr ''TraceId''),
                           (''schema'', JObj [(''type'', JStr ''string'')]),
                           (''required'', JBool True)])]\<rparr>"
  let ?m = "[(''param'', JObj [(''in'', JStr ''header'')])]"
  let ?pm = "[(''in'', JStr ''header'')]"
  let ?rq = "\<lparr>rq_body = None, rq_params = None, rq_query = Some [(''TraceId'', traceId)], rq_headers = None\<rparr>"
  have h1: "openapi conflictParameter = Some ?m" by (simp add: conflictParameter_def)
  have h2: "distinct (map fst ?m)" by simp
  have h3: "getProp ?m ''param'' = JObj ?pm" by (simp add: getProp_def)
  have h4: "distinct (map fst ?pm)" by simp
  have h5: "getProp ?pm ''in'' = JStr ''header''" by (simp add: getProp_def)
  have h6: "registerParameter ''TraceId'' conflictParameter (OpenapiRegistry [] []) = (traceId, traceIdRegistry)"
    by (simp add: traceId_def traceIdRegistry_def)
  have h7: "''TraceId'' \<noteq> []" by simp
  have h8: "generateParameterDefinition sampleParse ?gen traceId = Inr ?this1" by code_simp
  have h9: "getProp (paramRefs ?this1) ''TraceId'' = getProp (paramRefs ?this1) ''TraceId''" by simp
  note T = registered_parameter_conflict [OF h1 h2 h3 h4 h5 h6 h7 h8 h9]
  have n: "registeredName ?pm ''TraceId'' = JStr ''TraceId''" by code_simp
  have fe: "forEachGenerateSingle sampleParse ?gen [Parameter traceId] = Inr ?this1"
    using h8 by simp
  have q: "''query'' \<noteq> [] \<and> ''query'' \<noteq> ''header''" by simp
  from T [where location = "''query''" and key = "''TraceId''" and rest = "[]", THEN conjunct1, THEN mp, OF q]
  have c1: "generateInlineParameters sampleParse ?this1 [(''TraceId'', traceId)] ''query''
        = Inl (ConflictError ''Conflicting location for parameter TraceId'' ''in''
                 [JStr ''header'', JStr ''query'', JStr ''header''])"
    by (simp add: n)
  have k: "''Other'' \<noteq> [] \<and> JStr ''Other'' \<noteq> registeredName ?pm ''TraceId''" by (simp add: n)
  from T [where key = "''Other''" and rest = "[]", THEN conjunct2, THEN conjunct1, THEN mp, OF k]
  have c2: "generateInlineParameters sampleParse ?this1 [(''Other'', traceId)] ''header''
        = Inl (ConflictError ''Conflicting names for parameter'' ''name''
                 [JStr ''TraceId'', JStr ''Other'', JStr ''TraceId''])"
    by (simp add: n)
  have defs: "gen_definitions ?gen = [Parameter traceId] @ Route queryRoute # []" by code_simp
  have resp: "mapValuesE (getResponse sampleParse ?this1)
                (case cfg_responses queryRoute of None \<Rightarrow> [] | Some r \<Rightarrow> r)
              = Inr [(''200'', JObj [(''description'', JStr ''OK'')])]"
    by code_simp
  have rq: "cfg_request queryRoute = Some ?rq" "rq_query ?rq = Some ((''TraceId'', traceId) # [])"
    by (simp_all add: queryRoute_def)
  have d: "''header'' \<noteq> ''query'' \<and>
          gen_definitions ?gen = [Parameter traceId] @ Route queryRoute # [] \<and>
          forEachGenerateSingle sampleParse ?gen [Parameter traceId] = Inr ?this1 \<and>
          mapValuesE (getResponse sampleParse ?this1) (case cfg_responses queryRoute of None \<Rightarrow> [] | Some r \<Rightarrow> r)
            = Inr [(''200'', JObj [(''description'', JStr ''OK'')])] \<and>
          cfg_request queryRoute = Some ?rq \<and> rq_query ?rq = Some ((''TraceId'', traceId) # [])"
    using defs fe resp rq by simp
  from T [where gen = ?gen and before = "[Parameter traceId]" and route = queryRoute and after = "[]"
      and generatedResponses = "[(''200'', JObj [(''description'', JStr ''OK'')])]" and rq = ?rq
      and key = "''TraceId''" and rest = "[]" and config = "[(''openapi'', JStr ''3.0.0'')]",
      THEN conjunct2, THEN conjunct2, THEN mp, OF d]
  have c3: "generateDocument sampleParse ?gen [(''openapi'', JStr ''3.0.0'')]
              = Inl (ConflictError ''Conflicting location for parameter TraceId'' ''in''
                       [JStr ''header'', JStr ''query'', JStr ''header''])"
    by (simp add: n)
  from c1 c2 c3 fe show ?thesis by blast
qed

subsection \<open>A child schema against its registered parent\<close>






section \<open>Properties of the request schemas\<close>





end
